(* ===== verification/Aiops_Prelude.thy ===== *)
theory Aiops_Prelude
  imports
    Main
    "HOL-Library.AList"
    "HOL-Library.Char_ord"
    "HOL-Library.List_Lexorder"
    "HOL-Library.Product_Lexorder"
begin

text \<open>
  What the components share: Go's instants, durations and 64-bit integers, Go's maps, the
  character classes of the repository's regular expressions, the tables of records that hold
  a lock on a target, and the locale that lifts a one-step invariant to every reachable state.

  Times. A \<^verbatim>\<open>time.Time\<close> is the number of nanoseconds since Go's zero instant
  (1 January of year 1, UTC), so \<open>IsZero\<close> is the test for 0 and \<open>Before\<close>, \<open>After\<close>, \<open>Add\<close> are
  the order and the addition of \<open>int\<close>. Every clock of the modelled code is read through
  \<^verbatim>\<open>.UTC()\<close>, which strips the monotonic reading. \<^verbatim>\<open>Sub\<close> saturates at the
  bounds of a 64-bit duration, as Go's does.

  Strings are lists of bytes, as Go's are. A Go map is an association list with distinct
  keys: \<open>map_of\<close> reads it, \<open>AList.update\<close> and \<open>AList.delete\<close> write it, and the list order
  stands for one of the orders in which Go may iterate over it.
\<close>

named_theorems go_defs \<open>definitions of Go library functions, unfolded in component proofs\<close>
named_theorems gomap_simps \<open>equations for reading a map after it was written\<close>

section \<open>Instants, durations and machine integers\<close>

type_synonym time = int
type_synonym duration = int

abbreviation IsZero :: "time \<Rightarrow> bool" where "IsZero t \<equiv> t = 0"
abbreviation Before :: "time \<Rightarrow> time \<Rightarrow> bool" where "Before a b \<equiv> a < b"
abbreviation After :: "time \<Rightarrow> time \<Rightarrow> bool" where "After a b \<equiv> b < a"
abbreviation Second :: duration where "Second \<equiv> 1000000000"
abbreviation Minute :: duration where "Minute \<equiv> 60000000000"

definition MaxInt64 :: int where
  "MaxInt64 = 9223372036854775807"

definition MinInt64 :: int where
  "MinInt64 = - 9223372036854775808"

definition time_Sub :: "time \<Rightarrow> time \<Rightarrow> duration" where
  "time_Sub a b = max MinInt64 (min MaxInt64 (a - b))"

definition wrap64 :: "int \<Rightarrow> int" where
  "wrap64 x = (x + 9223372036854775808) mod 18446744073709551616 - 9223372036854775808"

lemmas [go_defs] = MaxInt64_def MinInt64_def time_Sub_def

lemma wrap64_id: "MinInt64 \<le> x \<Longrightarrow> x \<le> MaxInt64 \<Longrightarrow> wrap64 x = x"
  by (simp add: wrap64_def go_defs)

lemma wrap64_range: "MinInt64 \<le> wrap64 x \<and> wrap64 x \<le> MaxInt64"
  by (simp add: wrap64_def go_defs)

lemma wrap64_Max: "wrap64 (MaxInt64 + 1) = MinInt64"
  by (simp add: wrap64_def go_defs)

lemma wrap64_inc: "MinInt64 \<le> x \<Longrightarrow> x < MaxInt64 \<Longrightarrow> wrap64 (x + 1) = x + 1"
  by (rule wrap64_id) simp_all

lemma time_Sub_le: "time_Sub a b \<le> d \<Longrightarrow> d < MaxInt64 \<Longrightarrow> a \<le> b + d"
  by (auto simp: time_Sub_def go_defs min_def max_def split: if_splits)

section \<open>Contexts\<close>

text \<open>What \<^verbatim>\<open>ctx.Err()\<close> can return besides nil.\<close>

datatype ctx_error = Canceled | DeadlineExceeded

section \<open>Character classes and fixed-shape strings\<close>

definition in_range :: "char \<Rightarrow> char \<Rightarrow> char \<Rightarrow> bool" where
  "in_range a c b \<longleftrightarrow> (of_char a :: nat) \<le> of_char c \<and> (of_char c :: nat) \<le> of_char b"

definition is_upper :: "char \<Rightarrow> bool" where "is_upper c = in_range CHR ''A'' c CHR ''Z''"
definition is_lower :: "char \<Rightarrow> bool" where "is_lower c = in_range CHR ''a'' c CHR ''z''"
definition is_digit :: "char \<Rightarrow> bool" where "is_digit c = in_range CHR ''0'' c CHR ''9''"
definition is_alnum :: "char \<Rightarrow> bool" where "is_alnum c \<longleftrightarrow> is_upper c \<or> is_lower c \<or> is_digit c"
definition is_hex :: "char \<Rightarrow> bool" where "is_hex c \<longleftrightarrow> is_digit c \<or> in_range CHR ''a'' c CHR ''f''"

definition ident_char :: "char \<Rightarrow> bool" where
  "ident_char c \<longleftrightarrow> is_alnum c \<or> c \<in> set ''._:/@-''"

lemmas char_class_defs = in_range_def is_upper_def is_lower_def is_digit_def is_alnum_def
  is_hex_def ident_char_def

text \<open>\<^verbatim>\<open>^[A-Za-z0-9][A-Za-z0-9._:/@-]*$\<close>, the identifier pattern of several packages.\<close>

fun match_identifier :: "string \<Rightarrow> bool" where
  "match_identifier [] = False"
| "match_identifier (c # cs) = (is_alnum c \<and> list_all ident_char cs)"

text \<open>\<^verbatim>\<open>^[a-f0-9]{n}$\<close>.\<close>

definition match_hex :: "nat \<Rightarrow> string \<Rightarrow> bool" where
  "match_hex n s \<longleftrightarrow> length s = n \<and> list_all is_hex s"

lemma match_identifier_not_Nil: "match_identifier s \<Longrightarrow> s \<noteq> []"
  by (cases s) auto

lemma nul_not_ident_char: "\<not> ident_char (CHR 0x00)"
  by (simp add: char_class_defs)

lemma match_identifier_no_nul: "match_identifier s \<Longrightarrow> CHR 0x00 \<notin> set s"
proof (cases s)
  case Nil
  assume "match_identifier s"
  with Nil show ?thesis by simp
next
  case (Cons c cs)
  assume "match_identifier s"
  with Cons have "is_alnum c" and cs: "list_all ident_char cs" by simp_all
  then have "c \<noteq> CHR 0x00" by (auto simp: char_class_defs)
  moreover have "CHR 0x00 \<notin> set cs" using cs nul_not_ident_char by (auto simp: list_all_iff)
  ultimately show ?thesis using Cons by simp
qed

text \<open>Two strings joined by a byte that neither side may contain on the left.\<close>

lemma append_sep_inj:
  assumes "a @ x # b = a' @ x # b'" and "x \<notin> set a" and "x \<notin> set a'"
  shows "a = a' \<and> b = b'"
  using assms
proof (induction a arbitrary: a')
  case Nil
  then show ?case by (cases a') auto
next
  case (Cons c a)
  then show ?case by (cases a') auto
qed

section \<open>Decimal formatting\<close>

definition digit_char :: "nat \<Rightarrow> char" where
  "digit_char d = char_of (48 + d)"

fun digits10 :: "nat \<Rightarrow> string" where
  "digits10 n = (if n < 10 then [digit_char n] else digits10 (n div 10) @ [digit_char (n mod 10)])"

declare digits10.simps [simp del]

text \<open>\<^verbatim>\<open>strconv.FormatInt(value, 10)\<close>.\<close>

definition FormatInt :: "int \<Rightarrow> string" where
  "FormatInt x = (if x < 0 then CHR ''-'' # digits10 (nat (- x)) else digits10 (nat x))"

definition undigits10 :: "string \<Rightarrow> nat" where
  "undigits10 s = foldl (\<lambda>n c. 10 * n + (of_char c - 48)) 0 s"

lemma of_digit_char: "d < 10 \<Longrightarrow> (of_char (digit_char d) :: nat) = 48 + d"
  by (simp add: digit_char_def of_char_of)

lemma undigits10_digits10: "undigits10 (digits10 n) = n"
proof (induction n rule: digits10.induct)
  case (1 n)
  show ?case
  proof (cases "n < 10")
    case True
    then show ?thesis by (simp add: digits10.simps [of n] undigits10_def of_digit_char)
  next
    case False
    then have eq: "digits10 n = digits10 (n div 10) @ [digit_char (n mod 10)]"
      by (simp add: digits10.simps [of n])
    have "undigits10 (digits10 n) = 10 * undigits10 (digits10 (n div 10)) + n mod 10"
      unfolding eq by (simp add: undigits10_def of_digit_char)
    with "1.IH" [OF False] show ?thesis by simp
  qed
qed

lemma digits10_inj: "digits10 m = digits10 n \<Longrightarrow> m = n"
  by (metis undigits10_digits10)

lemma digits10_no_minus: "CHR ''-'' \<notin> set (digits10 n)"
proof (induction n rule: digits10.induct)
  case (1 n)
  have neq: "digit_char d \<noteq> CHR ''-''" if "d < 10" for d
  proof
    assume eq: "digit_char d = CHR ''-''"
    have "(of_char (digit_char d) :: nat) = 45" unfolding eq by simp
    with of_digit_char [OF that] show False by simp
  qed
  show ?case
  proof (cases "n < 10")
    case True
    then show ?thesis using neq [of n] by (simp add: digits10.simps [of n])
  next
    case False
    then show ?thesis using "1.IH" neq [of "n mod 10"] by (simp add: digits10.simps [of n])
  qed
qed

lemma FormatInt_inj: "FormatInt x = FormatInt y \<Longrightarrow> x = y"
proof -
  assume eq: "FormatInt x = FormatInt y"
  show ?thesis
  proof (cases "x < 0 \<longleftrightarrow> y < 0")
    case True
    with eq show ?thesis
      by (auto simp: FormatInt_def split: if_splits dest!: digits10_inj)
  next
    case False
    then show ?thesis
      using eq digits10_no_minus
      by (cases "x < 0"; cases "y < 0")
        (auto simp: FormatInt_def, metis list.set_intros(1), metis list.set_intros(1))
  qed
qed

section \<open>Go maps\<close>

type_synonym 'v gomap = "(string \<times> 'v) list"

abbreviation gget :: "'v gomap \<Rightarrow> string \<Rightarrow> 'v option" where "gget \<equiv> map_of"
abbreviation gset :: "string \<Rightarrow> 'v \<Rightarrow> 'v gomap \<Rightarrow> 'v gomap" where "gset \<equiv> AList.update"
abbreviation gdel :: "string \<Rightarrow> 'v gomap \<Rightarrow> 'v gomap" where "gdel \<equiv> AList.delete"
abbreviation gkeys :: "'v gomap \<Rightarrow> string list" where "gkeys m \<equiv> map fst m"

text \<open>A \<^verbatim>\<open>for k, v := range m\<close> loop that writes back only the entry it is at.\<close>

definition gupdate_all :: "(string \<Rightarrow> 'v \<Rightarrow> 'v) \<Rightarrow> 'v gomap \<Rightarrow> 'v gomap" where
  "gupdate_all f m = map (\<lambda>(k, v). (k, f k v)) m"

text \<open>A \<^verbatim>\<open>for k, v := range m\<close> loop that deletes the entry it is at when a test holds.\<close>

definition gdelete_all :: "(string \<Rightarrow> bool) \<Rightarrow> 'v gomap \<Rightarrow> 'v gomap" where
  "gdelete_all p m = filter (\<lambda>(k, v). \<not> p k) m"

text \<open>A loop that returns true at the first entry that passes a test, and one that counts.\<close>

definition gany :: "(string \<Rightarrow> 'v \<Rightarrow> bool) \<Rightarrow> 'v gomap \<Rightarrow> bool" where
  "gany p m = list_ex (\<lambda>(k, v). p k v) m"

definition gcount :: "(string \<Rightarrow> 'v \<Rightarrow> bool) \<Rightarrow> 'v gomap \<Rightarrow> nat" where
  "gcount p m = length (filter (\<lambda>(k, v). p k v) m)"

lemma gget_gset [gomap_simps]: "gget (gset k v m) j = (if j = k then Some v else gget m j)"
  by (simp add: AList.update_conv')

lemma gget_gdel [gomap_simps]: "gget (gdel k m) j = (if j = k then None else gget m j)"
  by (simp add: AList.delete_conv')

lemma gget_gupdate_all [gomap_simps]:
  "gget (gupdate_all f m) k = map_option (f k) (gget m k)"
  by (induction m) (auto simp: gupdate_all_def)

lemma gget_gdelete_all [gomap_simps]:
  "gget (gdelete_all p m) k = (if p k then None else gget m k)"
  by (induction m) (auto simp: gdelete_all_def)

lemma gkeys_gupdate_all [simp]: "gkeys (gupdate_all f m) = gkeys m"
  by (induction m) (auto simp: gupdate_all_def)

lemma gkeys_gset: "fst ` set (gset k v m) = insert k (fst ` set m)"
  by (induction m) auto

lemma gset_fresh: "gget m k = None \<Longrightarrow> gset k v m = m @ [(k, v)]"
  by (induction m) (auto split: if_splits)

lemma distinct_gset: "distinct (gkeys m) \<Longrightarrow> distinct (gkeys (gset k v m))"
  by (rule AList.distinct_update)

lemma distinct_gdel: "distinct (gkeys m) \<Longrightarrow> distinct (gkeys (gdel k m))"
  by (rule AList.distinct_delete)

lemma gkeys_gget: "k \<in> fst ` set m \<longleftrightarrow> gget m k \<noteq> None"
  by (simp add: map_of_eq_None_iff)

lemma gany_iff:
  "distinct (gkeys m) \<Longrightarrow> gany p m \<longleftrightarrow> (\<exists>k v. gget m k = Some v \<and> p k v)"
proof -
  assume d: "distinct (gkeys m)"
  have "gany p m \<longleftrightarrow> (\<exists>k v. (k, v) \<in> set m \<and> p k v)"
    by (auto simp: gany_def list_ex_iff)
  with d show ?thesis by simp
qed

lemma gany_witness: "gget m k = Some v \<Longrightarrow> p k v \<Longrightarrow> gany p m"
  by (auto simp: gany_def list_ex_iff dest!: map_of_SomeD)

lemma gcount_gset_le:
  "distinct (gkeys m) \<Longrightarrow> gcount p (gset k v m) \<le> Suc (gcount p m)"
proof (induction m)
  case Nil
  then show ?case by (simp add: gcount_def)
next
  case (Cons a m)
  then show ?case by (cases a) (auto simp: gcount_def)
qed

lemma distinct_same_length:
  "distinct xs \<Longrightarrow> (\<And>a b. a \<in> set xs \<Longrightarrow> b \<in> set xs \<Longrightarrow> a = b) \<Longrightarrow> length xs \<le> 1"
  by (metis One_nat_def card_le_Suc0_iff_eq distinct_card finite_set)

section \<open>Tables whose records hold a lock on a target\<close>

text \<open>
  Two records of a table never hold the same target at once: \<open>holds\<close> says which records hold
  their target, \<open>target\<close> which target that is.
\<close>

definition exclusive :: "('r \<Rightarrow> 't) \<Rightarrow> ('r \<Rightarrow> bool) \<Rightarrow> 'r gomap \<Rightarrow> bool" where
  "exclusive target holds m \<longleftrightarrow>
     (\<forall>i j r q. gget m i = Some r \<longrightarrow> gget m j = Some q \<longrightarrow> holds r \<longrightarrow> holds q \<longrightarrow>
        target r = target q \<longrightarrow> i = j)"

text \<open>The abstract view of such a table: who holds a target, if anyone does.\<close>

definition holder_of :: "('r \<Rightarrow> 't) \<Rightarrow> ('r \<Rightarrow> bool) \<Rightarrow> 'r gomap \<Rightarrow> 't \<Rightarrow> string set" where
  "holder_of target holds m t = {i. \<exists>r. gget m i = Some r \<and> holds r \<and> target r = t}"

locale lock_table =
  fixes target :: "'r \<Rightarrow> 't"
    and holds :: "'r \<Rightarrow> bool"
begin

lemma exclusive_empty: "exclusive target holds []"
  by (simp add: exclusive_def)

lemma exclusiveD:
  "exclusive target holds m \<Longrightarrow> gget m i = Some r \<Longrightarrow> gget m j = Some q \<Longrightarrow>
   holds r \<Longrightarrow> holds q \<Longrightarrow> target r = target q \<Longrightarrow> i = j"
  unfolding exclusive_def by blast

lemma exclusive_gset:
  assumes ex: "exclusive target holds m"
    and free: "\<And>i q. gget m i = Some q \<Longrightarrow> i \<noteq> k \<Longrightarrow> holds q \<Longrightarrow> holds r' \<Longrightarrow>
      target q \<noteq> target r'"
  shows "exclusive target holds (gset k r' m)"
  unfolding exclusive_def
proof (intro allI impI)
  fix i j a b
  assume i: "gget (gset k r' m) i = Some a" and j: "gget (gset k r' m) j = Some b"
    and h: "holds a" "holds b" "target a = target b"
  consider "i = k" "j = k" | "i = k" "j \<noteq> k" | "i \<noteq> k" "j = k" | "i \<noteq> k" "j \<noteq> k" by blast
  then show "i = j"
  proof cases
    case 2
    then have "a = r'" "gget m j = Some b" using i j by (simp_all add: gget_gset)
    then show ?thesis using free [of j b] 2 h by simp
  next
    case 3
    then have "b = r'" "gget m i = Some a" using i j by (simp_all add: gget_gset)
    then show ?thesis using free [of i a] 3 h by simp
  next
    case 4
    then have "gget m i = Some a" "gget m j = Some b" using i j by (simp_all add: gget_gset)
    then show ?thesis using exclusiveD [OF ex] h by blast
  qed simp
qed

lemma exclusive_keep:
  assumes "exclusive target holds m" and "gget m k = Some r"
    and "target r' = target r" and "holds r' \<Longrightarrow> holds r"
  shows "exclusive target holds (gset k r' m)"
  using exclusiveD [OF assms(1) _ assms(2)] assms(3,4) by (intro exclusive_gset [OF assms(1)]) metis

lemma exclusive_insert_free:
  assumes "exclusive target holds m" and "\<not> holds r'"
  shows "exclusive target holds (gset k r' m)"
  using assms(2) by (intro exclusive_gset [OF assms(1)]) simp

lemma exclusive_update_all:
  assumes "exclusive target holds m"
    and "\<And>k r. gget m k = Some r \<Longrightarrow> target (f k r) = target r"
    and "\<And>k r. gget m k = Some r \<Longrightarrow> holds (f k r) \<Longrightarrow> holds r"
  shows "exclusive target holds (gupdate_all f m)"
  unfolding exclusive_def gget_gupdate_all
proof (intro allI impI)
  fix i j a b
  assume "map_option (f i) (gget m i) = Some a" and "map_option (f j) (gget m j) = Some b"
    and h: "holds a" "holds b" "target a = target b"
  then obtain r q where r: "gget m i = Some r" "a = f i r" and q: "gget m j = Some q" "b = f j q"
    by auto
  have "holds r" "holds q"
    using assms(3) [OF r(1)] assms(3) [OF q(1)] h(1,2) unfolding r(2) q(2) by simp_all
  moreover have "target r = target q"
    using assms(2) [OF r(1)] assms(2) [OF q(1)] h(3) unfolding r(2) q(2) by simp
  ultimately show "i = j" by (rule exclusiveD [OF assms(1) r(1) q(1)])
qed

lemma exclusive_count:
  assumes "exclusive target holds m" and "distinct (gkeys m)"
  shows "gcount (\<lambda>_ r. holds r \<and> target r = t) m \<le> 1"
proof -
  let ?hits = "filter (\<lambda>(k, r). holds r \<and> target r = t) m"
  have "k = k'" if "(k, r) \<in> set ?hits" and "(k', r') \<in> set ?hits" for k r k' r'
    using that exclusiveD [OF assms(1)] assms(2) by (auto dest!: map_of_is_SomeI [rotated])
  then have "a = b" if "a \<in> set (map fst ?hits)" and "b \<in> set (map fst ?hits)" for a b
    using that by fastforce
  moreover have "distinct (map fst ?hits)"
    using assms(2) by (rule distinct_map_filter)
  ultimately have "length (map fst ?hits) \<le> 1" by (rule distinct_same_length [rotated])
  then show ?thesis by (simp add: gcount_def)
qed

lemma holder_unique:
  "exclusive target holds m \<Longrightarrow> i \<in> holder_of target holds m t \<Longrightarrow>
   j \<in> holder_of target holds m t \<Longrightarrow> i = j"
  unfolding holder_of_def by (auto dest: exclusiveD)

end

section \<open>Systems with an invariant\<close>

text \<open>
  The contract between a component and the properties that speak of all its runs: an initial
  state, a step relation, and an invariant that the initial state has and every step keeps.
\<close>

locale invariant_system =
  fixes start :: "'s"
    and step :: "'s \<Rightarrow> 's \<Rightarrow> bool"
    and inv :: "'s \<Rightarrow> bool"
  assumes start_inv: "inv start"
    and step_inv: "step s t \<Longrightarrow> inv s \<Longrightarrow> inv t"
begin

lemma steps_inv: "step\<^sup>*\<^sup>* s t \<Longrightarrow> inv s \<Longrightarrow> inv t"
  by (induction rule: rtranclp_induct) (auto intro: step_inv)

lemma reachable_inv: "step\<^sup>*\<^sup>* start s \<Longrightarrow> inv s"
  using steps_inv start_inv by blast

lemma steps_keep:
  assumes "step\<^sup>*\<^sup>* s t" and "inv s" and "P s"
    and keep: "\<And>a b. step a b \<Longrightarrow> inv a \<Longrightarrow> P a \<Longrightarrow> P b"
  shows "P t"
  using assms(1)
proof (induction rule: rtranclp_induct)
  case base
  show ?case by (rule assms(3))
next
  case (step y z)
  from step.hyps(1) assms(2) have "inv y" by (rule steps_inv)
  with step.hyps(2) step.IH show ?case by (blast intro: keep)
qed

end

section \<open>Rules on the calls of a run\<close>

text \<open>
  A run is the list of its calls with their answers. A rule says of a call whether it may follow
  the calls before it; a run obeys a rule when each of its calls may.
\<close>

definition obeys :: "('e list \<Rightarrow> 'e \<Rightarrow> bool) \<Rightarrow> 'e list \<Rightarrow> bool" where
  "obeys R h \<longleftrightarrow> (\<forall>pre call post. h = pre @ call # post \<longrightarrow> R pre call)"

lemma obeys_Nil [simp]: "obeys R []"
  by (simp add: obeys_def)

lemma obeys_snoc [simp]: "obeys R (h @ [c]) \<longleftrightarrow> obeys R h \<and> R h c"
proof
  assume all: "obeys R (h @ [c])"
  have "R pre d" if "h = pre @ d # post" for pre d post
  proof -
    have "h @ [c] = pre @ d # (post @ [c])" using that by simp
    with all show ?thesis unfolding obeys_def by blast
  qed
  moreover have "R h c" using all unfolding obeys_def by blast
  ultimately show "obeys R h \<and> R h c" unfolding obeys_def by blast
next
  assume "obeys R h \<and> R h c"
  then show "obeys R (h @ [c])"
    by (auto simp: obeys_def append_eq_append_conv2 append_eq_Cons_conv Cons_eq_append_conv)
qed

end
