(* ===== verification/Execution_Lease.thy ===== *)
theory Execution_Lease
  imports Aiops_Prelude
begin

text \<open>
  The package \<^verbatim>\<open>internal/executionlease\<close>: the lease data model (lease.go) and the
  process-local repository (memory.go) that queues executions, leases them to runners under a
  fencing token, and keeps one target from being worked on twice.

  A call is a function of the repository state, of what the call reads from outside
  (\<open>lease_env\<close>: the context's error, the clock, the token source) and of its request. It
  returns the new state and either an error or the execution, because several calls change the
  state and still fail (\<open>Claim\<close> expires leases before it finds nothing to claim). The mutex of
  the repository makes each call atomic, so a run is a sequence of calls. SHA-256 is the
  parameter \<open>sha\<close>: no property here depends on what it computes.
\<close>

section \<open>The data model\<close>

datatype lease_error =
    ErrAlreadyExists | ErrNotFound | ErrNoLeaseAvailable | ErrStaleLease | ErrInvalidTransition
  | ErrCompletionConflict | ErrReconciliationConflict | ErrClaimBlocked | ErrInvalidRequest
  | LeaseCtx ctx_error | TokenSourceFailed

text \<open>
  \<^verbatim>\<open>Pool\<close> and \<^verbatim>\<open>Status\<close> are strings with named constants; the last
  constructor is every other string, the empty one being Go's zero value.
\<close>

datatype Pool = PoolRead | PoolWrite | PoolRaw string

datatype Status =
    StatusQueued | StatusLeased | StatusRunning | StatusFinalizing
  | StatusSucceeded | StatusFailed | StatusCancelled | StatusUncertain | StatusRaw string

record Execution =
  ex_ExecutionID :: string
  ex_TargetKey :: string
  ex_Pool :: Pool
  ex_Production :: bool
  ex_Status :: Status
  ex_CompletionStatus :: Status
  ex_RunnerID :: string
  ex_RunnerTenantID :: string
  ex_RunnerWorkspaceID :: string
  ex_RunnerEnvironmentID :: string
  ex_ScopeRevision :: int
  ex_LeaseToken :: string
  ex_LeaseEpoch :: int
  ex_LeaseExpiresAt :: time
  ex_LeaseAcquiredAt :: time
  ex_LastHeartbeatAt :: time
  ex_HeartbeatSeq :: int
  ex_CancelRequestedAt :: time
  ex_CancelReasonHash :: string
  ex_StartedAt :: time
  ex_CompletedAt :: time
  ex_ResultHash :: string
  ex_ReconciliationResultHash :: string
  ex_ReconciliationID :: string
  ex_ReconciliationActor :: string
  ex_ReconciledAt :: time
  ex_CreatedAt :: time
  ex_UpdatedAt :: time

definition zero_Execution :: Execution where
  "zero_Execution = \<lparr>
     ex_ExecutionID = '''', ex_TargetKey = '''', ex_Pool = PoolRaw '''', ex_Production = False,
     ex_Status = StatusRaw '''', ex_CompletionStatus = StatusRaw '''', ex_RunnerID = '''',
     ex_RunnerTenantID = '''', ex_RunnerWorkspaceID = '''', ex_RunnerEnvironmentID = '''',
     ex_ScopeRevision = 0, ex_LeaseToken = '''', ex_LeaseEpoch = 0, ex_LeaseExpiresAt = 0,
     ex_LeaseAcquiredAt = 0, ex_LastHeartbeatAt = 0, ex_HeartbeatSeq = 0,
     ex_CancelRequestedAt = 0, ex_CancelReasonHash = '''', ex_StartedAt = 0, ex_CompletedAt = 0,
     ex_ResultHash = '''', ex_ReconciliationResultHash = '''', ex_ReconciliationID = '''',
     ex_ReconciliationActor = '''', ex_ReconciledAt = 0, ex_CreatedAt = 0, ex_UpdatedAt = 0\<rparr>"

record LeaseIdentity =
  li_ExecutionID :: string
  li_RunnerID :: string
  li_Token :: string
  li_Epoch :: int

record EnqueueRequest =
  eq_ExecutionID :: string
  eq_TargetKey :: string
  eq_Pool :: Pool
  eq_Production :: bool

record ClaimRequest =
  cq_Pool :: Pool
  cq_RunnerID :: string
  cq_LeaseDuration :: duration
  cq_ClaimsEnabled :: bool

record HeartbeatRequest =
  hq_Lease :: LeaseIdentity
  hq_Extension :: duration

record CompleteRequest =
  pq_Lease :: LeaseIdentity
  pq_Status :: Status
  pq_ResultHash :: string

record ReconcileRequest =
  rq_ExecutionID :: string
  rq_ReconciliationID :: string
  rq_ActorID :: string
  rq_Status :: Status
  rq_ResultHash :: string

definition Fence :: "Execution \<Rightarrow> LeaseIdentity" where
  "Fence x = \<lparr>li_ExecutionID = ex_ExecutionID x, li_RunnerID = ex_RunnerID x,
     li_Token = ex_LeaseToken x, li_Epoch = ex_LeaseEpoch x\<rparr>"

definition terminalStatus :: "Status \<Rightarrow> bool" where
  "terminalStatus s \<longleftrightarrow>
     s = StatusSucceeded \<or> s = StatusFailed \<or> s = StatusCancelled \<or> s = StatusUncertain"

definition Terminal :: "Execution \<Rightarrow> bool" where
  "Terminal x = terminalStatus (ex_Status x)"

section \<open>The in-memory repository\<close>

definition minLeaseDuration :: duration where "minLeaseDuration = Second"
definition maxLeaseDuration :: duration where "maxLeaseDuration = 30 * Minute"

definition resultHashPattern :: "string \<Rightarrow> bool" where
  "resultHashPattern s = match_hex 64 s"

record leaseFence =
  lf_runnerID :: string
  lf_epoch :: int
  lf_tokenSHA256 :: string

record MemoryRepository =
  mr_executions :: "Execution gomap"
  mr_leaseFences :: "leaseFence gomap"
  mr_order :: "string list"

record lease_env =
  le_ctx :: "ctx_error option"
  le_clock :: time
  le_token :: "string option"

definition NewMemory :: "time \<Rightarrow> lease_error + MemoryRepository" where
  "NewMemory clock =
     (if IsZero clock then Inl ErrInvalidRequest
      else Inr \<lparr>mr_executions = [], mr_leaseFences = [], mr_order = []\<rparr>)"

definition validPool :: "Pool \<Rightarrow> bool" where
  "validPool p \<longleftrightarrow> p = PoolRead \<or> p = PoolWrite"

definition validIdentifier :: "string \<Rightarrow> nat \<Rightarrow> bool" where
  "validIdentifier value maxBytes \<longleftrightarrow> length value \<le> maxBytes \<and> match_identifier value"

definition validLease :: "LeaseIdentity \<Rightarrow> bool" where
  "validLease l \<longleftrightarrow> validIdentifier (li_ExecutionID l) 256 \<and> validIdentifier (li_RunnerID l) 256 \<and>
     validIdentifier (li_Token l) 256 \<and> 0 < li_Epoch l"

definition now :: "lease_env \<Rightarrow> lease_error + time" where
  "now e = (if IsZero (le_clock e) then Inl ErrInvalidRequest else Inr (le_clock e))"

definition tokenDigestMatches :: "(string \<Rightarrow> string) \<Rightarrow> string \<Rightarrow> string \<Rightarrow> bool" where
  "tokenDigestMatches sha expected token \<longleftrightarrow> expected = sha token"

definition matches :: "(string \<Rightarrow> string) \<Rightarrow> leaseFence \<Rightarrow> LeaseIdentity \<Rightarrow> bool" where
  "matches sha f l \<longleftrightarrow> lf_runnerID f = li_RunnerID l \<and> lf_epoch f = li_Epoch l \<and>
     tokenDigestMatches sha (lf_tokenSHA256 f) (li_Token l)"

text \<open>The pair \<^verbatim>\<open>fence, fenceExists\<close> is the option a map read returns.\<close>

definition currentLease ::
  "(string \<Rightarrow> string) \<Rightarrow> Execution \<Rightarrow> leaseFence option \<Rightarrow> LeaseIdentity \<Rightarrow> time \<Rightarrow> bool" where
  "currentLease sha x f l t \<longleftrightarrow>
     li_ExecutionID l = ex_ExecutionID x \<and> li_RunnerID l = ex_RunnerID x \<and>
     (case f of None \<Rightarrow> False | Some f' \<Rightarrow> matches sha f' l) \<and>
     0 < li_Epoch l \<and> li_Epoch l = ex_LeaseEpoch x \<and>
     (ex_Status x = StatusLeased \<or> ex_Status x = StatusRunning) \<and> Before t (ex_LeaseExpiresAt x)"

definition redactedExecution :: "Execution \<Rightarrow> Execution" where
  "redactedExecution x = x\<lparr>ex_LeaseToken := ''''\<rparr>"

text \<open>
  \<^verbatim>\<open>expireLeases\<close> visits every execution once and writes back only that entry and its
  fence, so the loop is one pass over each of the two maps.
\<close>

definition lease_expired :: "time \<Rightarrow> Execution \<Rightarrow> bool" where
  "lease_expired t x \<longleftrightarrow> \<not> (IsZero (ex_LeaseExpiresAt x) \<or> Before t (ex_LeaseExpiresAt x)) \<and>
     (ex_Status x = StatusLeased \<or> ex_Status x = StatusRunning)"

definition expire_one :: "time \<Rightarrow> Execution \<Rightarrow> Execution" where
  "expire_one t x =
     (if IsZero (ex_LeaseExpiresAt x) \<or> Before t (ex_LeaseExpiresAt x) then x
      else if ex_Status x = StatusLeased then
        x\<lparr>ex_Status := StatusQueued, ex_RunnerID := '''', ex_LeaseToken := '''',
          ex_LeaseAcquiredAt := 0, ex_LastHeartbeatAt := 0, ex_LeaseExpiresAt := 0,
          ex_UpdatedAt := t\<rparr>
      else if ex_Status x = StatusRunning then
        x\<lparr>ex_Status := StatusUncertain, ex_LeaseToken := '''', ex_LeaseExpiresAt := 0,
          ex_CompletedAt := t, ex_UpdatedAt := t\<rparr>
      else x)"

definition expireLeases :: "time \<Rightarrow> MemoryRepository \<Rightarrow> MemoryRepository" where
  "expireLeases t s = s\<lparr>
     mr_executions := gupdate_all (\<lambda>_. expire_one t) (mr_executions s),
     mr_leaseFences := gdelete_all
       (\<lambda>i. case gget (mr_executions s) i of None \<Rightarrow> False | Some x \<Rightarrow> lease_expired t x)
       (mr_leaseFences s)\<rparr>"

definition holds_target :: "Execution \<Rightarrow> bool" where
  "holds_target x \<longleftrightarrow>
     ex_Status x = StatusLeased \<or> ex_Status x = StatusRunning \<or> ex_Status x = StatusUncertain"

definition targetUnavailable :: "MemoryRepository \<Rightarrow> string \<Rightarrow> string \<Rightarrow> bool" where
  "targetUnavailable s targetKey candidateID =
     gany (\<lambda>i x. \<not> (i = candidateID \<or> ex_TargetKey x \<noteq> targetKey) \<and> holds_target x)
       (mr_executions s)"

subsection \<open>Operations\<close>

definition Enqueue ::
  "lease_env \<Rightarrow> EnqueueRequest \<Rightarrow> MemoryRepository \<Rightarrow> MemoryRepository \<times> (lease_error + Execution)"
where
  "Enqueue e q s =
     (case le_ctx e of Some c \<Rightarrow> (s, Inl (LeaseCtx c)) | None \<Rightarrow>
      if \<not> validIdentifier (eq_ExecutionID q) 256 \<or> \<not> validIdentifier (eq_TargetKey q) 512 \<or>
         \<not> validPool (eq_Pool q) then (s, Inl ErrInvalidRequest)
      else case now e of Inl err \<Rightarrow> (s, Inl err) | Inr t \<Rightarrow>
      if gget (mr_executions s) (eq_ExecutionID q) \<noteq> None then (s, Inl ErrAlreadyExists)
      else let x = zero_Execution\<lparr>ex_ExecutionID := eq_ExecutionID q,
                     ex_TargetKey := eq_TargetKey q, ex_Pool := eq_Pool q,
                     ex_Production := eq_Production q, ex_Status := StatusQueued,
                     ex_CreatedAt := t, ex_UpdatedAt := t\<rparr>
           in (s\<lparr>mr_executions := gset (ex_ExecutionID x) x (mr_executions s),
                 mr_order := mr_order s @ [ex_ExecutionID x]\<rparr>, Inr x))"

text \<open>The body of the claim loop for the execution it grants.\<close>

definition grant_lease ::
  "(string \<Rightarrow> string) \<Rightarrow> ClaimRequest \<Rightarrow> time \<Rightarrow> string \<Rightarrow> string \<Rightarrow> Execution \<Rightarrow>
   MemoryRepository \<Rightarrow> MemoryRepository \<times> Execution" where
  "grant_lease sha q t i token x s =
     (let x' = x\<lparr>ex_Status := StatusLeased, ex_RunnerID := cq_RunnerID q, ex_LeaseToken := '''',
                 ex_LeaseEpoch := wrap64 (ex_LeaseEpoch x + 1), ex_LeaseAcquiredAt := t,
                 ex_LastHeartbeatAt := t, ex_LeaseExpiresAt := t + cq_LeaseDuration q,
                 ex_UpdatedAt := t\<rparr>
      in (s\<lparr>mr_leaseFences := gset i \<lparr>lf_runnerID = cq_RunnerID q, lf_epoch = ex_LeaseEpoch x',
              lf_tokenSHA256 = sha token\<rparr> (mr_leaseFences s),
            mr_executions := gset i x' (mr_executions s)\<rparr>,
          x'\<lparr>ex_LeaseToken := token\<rparr>))"

fun claim_loop ::
  "(string \<Rightarrow> string) \<Rightarrow> lease_env \<Rightarrow> ClaimRequest \<Rightarrow> time \<Rightarrow> string list \<Rightarrow> MemoryRepository \<Rightarrow>
   MemoryRepository \<times> (lease_error + Execution)" where
  "claim_loop sha e q t [] s = (s, Inl ErrNoLeaseAvailable)"
| "claim_loop sha e q t (i # is) s =
     (let x = (case gget (mr_executions s) i of Some x \<Rightarrow> x | None \<Rightarrow> zero_Execution) in
      if ex_Status x \<noteq> StatusQueued \<or> ex_Pool x \<noteq> cq_Pool q then claim_loop sha e q t is s
      else if targetUnavailable s (ex_TargetKey x) (ex_ExecutionID x) then claim_loop sha e q t is s
      else if ex_Pool x = PoolWrite \<and> ex_Production x then claim_loop sha e q t is s
      else if ex_LeaseEpoch x = MaxInt64 then (s, Inl ErrInvalidTransition)
      else case le_token e of None \<Rightarrow> (s, Inl TokenSourceFailed) | Some token \<Rightarrow>
      if \<not> validIdentifier token 256 then (s, Inl ErrInvalidRequest)
      else (let r = grant_lease sha q t i token x s in (fst r, Inr (snd r))))"

definition Claim ::
  "(string \<Rightarrow> string) \<Rightarrow> lease_env \<Rightarrow> ClaimRequest \<Rightarrow> MemoryRepository \<Rightarrow>
   MemoryRepository \<times> (lease_error + Execution)" where
  "Claim sha e q s =
     (case le_ctx e of Some c \<Rightarrow> (s, Inl (LeaseCtx c)) | None \<Rightarrow>
      if \<not> validPool (cq_Pool q) \<or> \<not> validIdentifier (cq_RunnerID q) 256 \<or>
         cq_LeaseDuration q < minLeaseDuration \<or> maxLeaseDuration < cq_LeaseDuration q
      then (s, Inl ErrInvalidRequest)
      else case now e of Inl err \<Rightarrow> (s, Inl err) | Inr t \<Rightarrow>
      let s' = expireLeases t s in
      if \<not> cq_ClaimsEnabled q then (s', Inl ErrClaimBlocked)
      else claim_loop sha e q t (mr_order s') s')"

definition Start ::
  "(string \<Rightarrow> string) \<Rightarrow> lease_env \<Rightarrow> LeaseIdentity \<Rightarrow> MemoryRepository \<Rightarrow>
   MemoryRepository \<times> (lease_error + Execution)" where
  "Start sha e l s =
     (case le_ctx e of Some c \<Rightarrow> (s, Inl (LeaseCtx c)) | None \<Rightarrow>
      if \<not> validLease l then (s, Inl ErrInvalidRequest)
      else case now e of Inl err \<Rightarrow> (s, Inl err) | Inr t \<Rightarrow>
      case gget (mr_executions s) (li_ExecutionID l) of None \<Rightarrow> (s, Inl ErrNotFound) | Some x \<Rightarrow>
      if \<not> currentLease sha x (gget (mr_leaseFences s) (ex_ExecutionID x)) l t
      then (s, Inl ErrStaleLease)
      else if ex_Status x = StatusLeased then
        (let x' = x\<lparr>ex_Status := StatusRunning, ex_StartedAt := t, ex_UpdatedAt := t\<rparr>
         in (s\<lparr>mr_executions := gset (ex_ExecutionID x') x' (mr_executions s)\<rparr>,
             Inr (redactedExecution x')))
      else if ex_Status x = StatusRunning then (s, Inr (redactedExecution x))
      else (s, Inl ErrInvalidTransition))"

definition Heartbeat ::
  "(string \<Rightarrow> string) \<Rightarrow> lease_env \<Rightarrow> HeartbeatRequest \<Rightarrow> MemoryRepository \<Rightarrow>
   MemoryRepository \<times> (lease_error + Execution)" where
  "Heartbeat sha e q s =
     (case le_ctx e of Some c \<Rightarrow> (s, Inl (LeaseCtx c)) | None \<Rightarrow>
      if \<not> validLease (hq_Lease q) \<or> hq_Extension q < minLeaseDuration \<or>
         maxLeaseDuration < hq_Extension q then (s, Inl ErrInvalidRequest)
      else case now e of Inl err \<Rightarrow> (s, Inl err) | Inr t \<Rightarrow>
      case gget (mr_executions s) (li_ExecutionID (hq_Lease q)) of
        None \<Rightarrow> (s, Inl ErrNotFound) | Some x \<Rightarrow>
      if \<not> currentLease sha x (gget (mr_leaseFences s) (ex_ExecutionID x)) (hq_Lease q) t
      then (s, Inl ErrStaleLease)
      else (let x' = x\<lparr>ex_LeaseExpiresAt := t + hq_Extension q, ex_LastHeartbeatAt := t,
                       ex_UpdatedAt := t\<rparr>
            in (s\<lparr>mr_executions := gset (ex_ExecutionID x') x' (mr_executions s)\<rparr>,
                Inr (redactedExecution x'))))"

definition Complete ::
  "(string \<Rightarrow> string) \<Rightarrow> lease_env \<Rightarrow> CompleteRequest \<Rightarrow> MemoryRepository \<Rightarrow>
   MemoryRepository \<times> (lease_error + Execution)" where
  "Complete sha e q s =
     (case le_ctx e of Some c \<Rightarrow> (s, Inl (LeaseCtx c)) | None \<Rightarrow>
      if \<not> validLease (pq_Lease q) \<or>
         (pq_Status q \<noteq> StatusSucceeded \<and> pq_Status q \<noteq> StatusFailed \<and>
          pq_Status q \<noteq> StatusUncertain) \<or> \<not> resultHashPattern (pq_ResultHash q)
      then (s, Inl ErrInvalidRequest)
      else case now e of Inl err \<Rightarrow> (s, Inl err) | Inr t \<Rightarrow>
      case gget (mr_executions s) (li_ExecutionID (pq_Lease q)) of
        None \<Rightarrow> (s, Inl ErrNotFound) | Some x \<Rightarrow>
      if terminalStatus (ex_Status x) then
        (if ex_ReconciliationID x \<noteq> '''' then (s, Inl ErrStaleLease)
         else if (case gget (mr_leaseFences s) (ex_ExecutionID x) of
                    None \<Rightarrow> True | Some f \<Rightarrow> \<not> matches sha f (pq_Lease q))
              then (s, Inl ErrStaleLease)
         else if ex_Status x = pq_Status q \<and> ex_ResultHash x = pq_ResultHash q
              then (s, Inr (redactedExecution x))
         else (s, Inl ErrCompletionConflict))
      else if \<not> currentLease sha x (gget (mr_leaseFences s) (ex_ExecutionID x)) (pq_Lease q) t
      then (s, Inl ErrStaleLease)
      else if ex_Status x \<noteq> StatusRunning then (s, Inl ErrInvalidTransition)
      else (let x' = x\<lparr>ex_Status := pq_Status q, ex_ResultHash := pq_ResultHash q,
                       ex_CompletedAt := t, ex_LeaseExpiresAt := 0, ex_UpdatedAt := t,
                       ex_LeaseToken := ''''\<rparr>
            in (s\<lparr>mr_executions := gset (ex_ExecutionID x') x' (mr_executions s)\<rparr>,
                Inr (redactedExecution x'))))"

definition Reconcile ::
  "lease_env \<Rightarrow> ReconcileRequest \<Rightarrow> MemoryRepository \<Rightarrow>
   MemoryRepository \<times> (lease_error + Execution)" where
  "Reconcile e q s0 =
     (case le_ctx e of Some c \<Rightarrow> (s0, Inl (LeaseCtx c)) | None \<Rightarrow>
      if \<not> validIdentifier (rq_ExecutionID q) 256 \<or> \<not> validIdentifier (rq_ReconciliationID q) 256 \<or>
         \<not> validIdentifier (rq_ActorID q) 256 \<or>
         (rq_Status q \<noteq> StatusSucceeded \<and> rq_Status q \<noteq> StatusFailed) \<or>
         \<not> resultHashPattern (rq_ResultHash q) then (s0, Inl ErrInvalidRequest)
      else case now e of Inl err \<Rightarrow> (s0, Inl err) | Inr t \<Rightarrow>
      let s = expireLeases t s0 in
      case gget (mr_executions s) (rq_ExecutionID q) of None \<Rightarrow> (s, Inl ErrNotFound) | Some x \<Rightarrow>
      if ex_ReconciliationID x \<noteq> '''' then
        (if ex_ReconciliationID x = rq_ReconciliationID q \<and> ex_ReconciliationActor x = rq_ActorID q \<and>
            ex_Status x = rq_Status q \<and> ex_ReconciliationResultHash x = rq_ResultHash q
         then (s\<lparr>mr_leaseFences := gdel (ex_ExecutionID x) (mr_leaseFences s)\<rparr>,
               Inr (redactedExecution x))
         else (s, Inl ErrReconciliationConflict))
      else if ex_Status x \<noteq> StatusUncertain then (s, Inl ErrInvalidTransition)
      else if gany (\<lambda>i y. i \<noteq> ex_ExecutionID x \<and> ex_ReconciliationID y = rq_ReconciliationID q)
                (mr_executions s) then (s, Inl ErrReconciliationConflict)
      else (let x' = x\<lparr>ex_Status := rq_Status q, ex_ReconciliationResultHash := rq_ResultHash q,
                       ex_ReconciliationID := rq_ReconciliationID q,
                       ex_ReconciliationActor := rq_ActorID q, ex_ReconciledAt := t,
                       ex_UpdatedAt := t\<rparr>
            in (s\<lparr>mr_leaseFences := gdel (ex_ExecutionID x') (mr_leaseFences s),
                  mr_executions := gset (ex_ExecutionID x') x' (mr_executions s)\<rparr>,
                Inr (redactedExecution x'))))"

definition SweepExpired ::
  "lease_env \<Rightarrow> MemoryRepository \<Rightarrow> MemoryRepository \<times> (lease_error + unit)" where
  "SweepExpired e s =
     (case le_ctx e of Some c \<Rightarrow> (s, Inl (LeaseCtx c)) | None \<Rightarrow>
      case now e of Inl err \<Rightarrow> (s, Inl err) | Inr t \<Rightarrow> (expireLeases t s, Inr ()))"

definition Cancel ::
  "lease_env \<Rightarrow> string \<Rightarrow> MemoryRepository \<Rightarrow> MemoryRepository \<times> (lease_error + Execution)" where
  "Cancel e executionID s =
     (case le_ctx e of Some c \<Rightarrow> (s, Inl (LeaseCtx c)) | None \<Rightarrow>
      if \<not> validIdentifier executionID 256 then (s, Inl ErrInvalidRequest)
      else case now e of Inl err \<Rightarrow> (s, Inl err) | Inr t \<Rightarrow>
      case gget (mr_executions s) executionID of None \<Rightarrow> (s, Inl ErrNotFound) | Some x \<Rightarrow>
      if terminalStatus (ex_Status x) then (s, Inr (redactedExecution x))
      else (let x1 = (if ex_Status x = StatusRunning then x\<lparr>ex_Status := StatusUncertain\<rparr>
                      else x\<lparr>ex_Status := StatusCancelled, ex_RunnerID := ''''\<rparr>);
                x' = x1\<lparr>ex_LeaseToken := '''', ex_LeaseExpiresAt := 0, ex_CompletedAt := t,
                        ex_UpdatedAt := t\<rparr>
            in (s\<lparr>mr_leaseFences := gdel (ex_ExecutionID x') (mr_leaseFences s),
                  mr_executions := gset (ex_ExecutionID x') x' (mr_executions s)\<rparr>,
                Inr (redactedExecution x'))))"

definition Get ::
  "lease_env \<Rightarrow> string \<Rightarrow> MemoryRepository \<Rightarrow> MemoryRepository \<times> (lease_error + Execution)" where
  "Get e executionID s =
     (case le_ctx e of Some c \<Rightarrow> (s, Inl (LeaseCtx c)) | None \<Rightarrow>
      if \<not> validIdentifier executionID 256 then (s, Inl ErrInvalidRequest)
      else case now e of Inl err \<Rightarrow> (s, Inl err) | Inr t \<Rightarrow>
      let s' = expireLeases t s in
      case gget (mr_executions s') executionID of
        None \<Rightarrow> (s', Inl ErrNotFound) | Some x \<Rightarrow> (s', Inr (redactedExecution x)))"

text \<open>One call of the repository, with any environment and any request.\<close>

inductive lease_step :: "(string \<Rightarrow> string) \<Rightarrow> MemoryRepository \<Rightarrow> MemoryRepository \<Rightarrow> bool"
  for sha where
  step_Enqueue: "lease_step sha s (fst (Enqueue e eq s))"
| step_Claim: "lease_step sha s (fst (Claim sha e cq s))"
| step_Start: "lease_step sha s (fst (Start sha e l s))"
| step_Heartbeat: "lease_step sha s (fst (Heartbeat sha e hq s))"
| step_Complete: "lease_step sha s (fst (Complete sha e pq s))"
| step_Reconcile: "lease_step sha s (fst (Reconcile e rq s))"
| step_Sweep: "lease_step sha s (fst (SweepExpired e s))"
| step_Cancel: "lease_step sha s (fst (Cancel e i s))"
| step_Get: "lease_step sha s (fst (Get e i s))"

section \<open>Effects\<close>

text \<open>
  What a call does to the repository is a sequence of at most two elementary effects. The
  invariants below are proved once per effect; a call has them because it is such a sequence.
\<close>

definition lease_move :: "Execution \<Rightarrow> Execution \<Rightarrow> bool" where
  "lease_move x x' \<longleftrightarrow>
     ex_ExecutionID x' = ex_ExecutionID x \<and> ex_TargetKey x' = ex_TargetKey x \<and>
     ex_Pool x' = ex_Pool x \<and> ex_Production x' = ex_Production x \<and>
     ex_LeaseEpoch x' = ex_LeaseEpoch x \<and> (ex_LeaseToken x = '''' \<longrightarrow> ex_LeaseToken x' = '''') \<and>
     ex_ReconciliationID x' = ex_ReconciliationID x \<and>
     (ex_Status x' = ex_Status x \<and> ex_RunnerID x' = ex_RunnerID x \<or>
      ex_Status x = StatusLeased \<and> ex_Status x' = StatusRunning \<and> ex_RunnerID x' = ex_RunnerID x \<or>
      ex_Status x = StatusRunning \<and> ex_RunnerID x' = ex_RunnerID x \<and>
        ex_Status x' \<in> {StatusSucceeded, StatusFailed, StatusUncertain} \<or>
      \<not> terminalStatus (ex_Status x) \<and> ex_Status x' = StatusCancelled)"

definition reconcile_move :: "string \<Rightarrow> Execution \<Rightarrow> Execution \<Rightarrow> bool" where
  "reconcile_move r x x' \<longleftrightarrow>
     ex_ExecutionID x' = ex_ExecutionID x \<and> ex_TargetKey x' = ex_TargetKey x \<and>
     ex_Pool x' = ex_Pool x \<and> ex_Production x' = ex_Production x \<and>
     ex_LeaseEpoch x' = ex_LeaseEpoch x \<and> (ex_LeaseToken x = '''' \<longrightarrow> ex_LeaseToken x' = '''') \<and>
     ex_Status x = StatusUncertain \<and> ex_Status x' \<in> {StatusSucceeded, StatusFailed} \<and>
     ex_ReconciliationID x' = r"

inductive lease_effect :: "(string \<Rightarrow> string) \<Rightarrow> MemoryRepository \<Rightarrow> MemoryRepository \<Rightarrow> bool"
  for sha where
  eff_expire: "lease_effect sha s (expireLeases t s)"
| eff_insert: "gget (mr_executions s) i = None \<Longrightarrow> ex_ExecutionID x = i \<Longrightarrow>
    ex_Status x = StatusQueued \<Longrightarrow> ex_LeaseToken x = '''' \<Longrightarrow> ex_LeaseEpoch x = 0 \<Longrightarrow>
    ex_ReconciliationID x = '''' \<Longrightarrow>
    lease_effect sha s (s\<lparr>mr_executions := gset i x (mr_executions s),
      mr_order := mr_order s @ [i]\<rparr>)"
| eff_grant: "gget (mr_executions s) i = Some x \<Longrightarrow> ex_Status x = StatusQueued \<Longrightarrow>
    \<not> targetUnavailable s (ex_TargetKey x) (ex_ExecutionID x) \<Longrightarrow>
    \<not> (ex_Pool x = PoolWrite \<and> ex_Production x) \<Longrightarrow> ex_LeaseEpoch x \<noteq> MaxInt64 \<Longrightarrow>
    lease_effect sha s (fst (grant_lease sha q t i token x s))"
| eff_put: "gget (mr_executions s) i = Some x \<Longrightarrow> ex_Status x' \<noteq> StatusCancelled \<Longrightarrow>
    lease_move x x' \<Longrightarrow>
    lease_effect sha s (s\<lparr>mr_executions := gset (ex_ExecutionID x) x' (mr_executions s)\<rparr>)"
| eff_drop: "gget (mr_executions s) i = Some x \<Longrightarrow> lease_move x x' \<Longrightarrow>
    lease_effect sha s (s\<lparr>mr_leaseFences := gdel (ex_ExecutionID x) (mr_leaseFences s),
      mr_executions := gset (ex_ExecutionID x) x' (mr_executions s)\<rparr>)"
| eff_reconcile: "gget (mr_executions s) i = Some x \<Longrightarrow> reconcile_move r x x' \<Longrightarrow>
    \<not> gany (\<lambda>j y. j \<noteq> ex_ExecutionID x \<and> ex_ReconciliationID y = r) (mr_executions s) \<Longrightarrow>
    lease_effect sha s (s\<lparr>mr_leaseFences := gdel (ex_ExecutionID x) (mr_leaseFences s),
      mr_executions := gset (ex_ExecutionID x) x' (mr_executions s)\<rparr>)"
| eff_unfence: "lease_effect sha s (s\<lparr>mr_leaseFences := gdel i (mr_leaseFences s)\<rparr>)"

lemmas eff_step = r_into_rtranclp [where r = "lease_effect sha" for sha]

lemma effects_expire: "(lease_effect sha)\<^sup>*\<^sup>* s (expireLeases t s)"
  by (rule eff_step) (rule eff_expire)

lemma effects_expire_then:
  "(lease_effect sha)\<^sup>*\<^sup>* (expireLeases t s) u \<Longrightarrow> (lease_effect sha)\<^sup>*\<^sup>* s u"
  using effects_expire by (rule rtranclp_trans)

lemma Enqueue_effects: "(lease_effect sha)\<^sup>*\<^sup>* s (fst (Enqueue e q s))"
  by (auto simp: Enqueue_def Let_def zero_Execution_def
      intro!: eff_step eff_insert split: option.splits sum.splits)

lemma claim_loop_effects: "(lease_effect sha)\<^sup>*\<^sup>* s (fst (claim_loop sha e q t is s))"
proof (induction "is")
  case Nil
  show ?case by simp
next
  case (Cons i "is")
  show ?case
  proof (cases "gget (mr_executions s) i")
    case None
    then show ?thesis using Cons.IH by (simp add: zero_Execution_def)
  next
    case (Some x)
    show ?thesis
      using Cons.IH Some
      by (auto simp: Let_def intro: eff_step [OF eff_grant] split: option.splits)
  qed
qed

lemma Claim_effects: "(lease_effect sha)\<^sup>*\<^sup>* s (fst (Claim sha e q s))"
  by (auto simp: Claim_def Let_def intro: effects_expire effects_expire_then claim_loop_effects
      split: option.splits sum.splits)

lemma currentLease_status:
  "currentLease sha x f l t \<Longrightarrow> ex_Status x = StatusLeased \<or> ex_Status x = StatusRunning"
  by (simp add: currentLease_def)

lemma Start_effects: "(lease_effect sha)\<^sup>*\<^sup>* s (fst (Start sha e l s))"
  by (auto simp: Start_def Let_def lease_move_def intro!: eff_step eff_put
      split: option.splits sum.splits)

lemma Heartbeat_effects: "(lease_effect sha)\<^sup>*\<^sup>* s (fst (Heartbeat sha e q s))"
  by (auto simp: Heartbeat_def Let_def lease_move_def intro!: eff_step eff_put
      dest!: currentLease_status split: option.splits sum.splits)

lemma Complete_effects: "(lease_effect sha)\<^sup>*\<^sup>* s (fst (Complete sha e q s))"
  by (auto simp: Complete_def Let_def lease_move_def intro!: eff_step eff_put
      split: option.splits sum.splits)

lemmas effects_expire_reconcile = effects_expire_then [OF eff_step [OF eff_reconcile]]
lemmas effects_expire_unfence = effects_expire_then [OF eff_step [OF eff_unfence]]

lemma Reconcile_effects: "(lease_effect sha)\<^sup>*\<^sup>* s (fst (Reconcile e q s))"
  by (auto simp: Reconcile_def Let_def reconcile_move_def
      intro!: effects_expire effects_expire_reconcile effects_expire_unfence
      split: option.splits sum.splits)

lemma Sweep_effects: "(lease_effect sha)\<^sup>*\<^sup>* s (fst (SweepExpired e s))"
  by (auto simp: SweepExpired_def intro: effects_expire split: option.splits sum.splits)

lemma Cancel_effects: "(lease_effect sha)\<^sup>*\<^sup>* s (fst (Cancel e i s))"
  by (auto simp: Cancel_def Let_def lease_move_def terminalStatus_def intro!: eff_step eff_drop
      split: option.splits sum.splits)

lemma Get_effects: "(lease_effect sha)\<^sup>*\<^sup>* s (fst (Get e i s))"
  by (auto simp: Get_def Let_def intro: effects_expire split: option.splits sum.splits)

lemma lease_step_effects: "lease_step sha s t \<Longrightarrow> (lease_effect sha)\<^sup>*\<^sup>* s t"
  by (induction rule: lease_step.induct)
    (rule Enqueue_effects Claim_effects Start_effects Heartbeat_effects Complete_effects
      Reconcile_effects Sweep_effects Cancel_effects Get_effects)+

section \<open>The invariant\<close>

definition lease_record_ok :: "string \<Rightarrow> Execution \<Rightarrow> bool" where
  "lease_record_ok i x \<longleftrightarrow> ex_ExecutionID x = i \<and> ex_LeaseToken x = '''' \<and>
     0 \<le> ex_LeaseEpoch x \<and> ex_LeaseEpoch x \<le> MaxInt64 \<and>
     (ex_Pool x = PoolWrite \<and> ex_Production x \<longrightarrow> ex_Status x \<in> {StatusQueued, StatusCancelled}) \<and>
     (ex_ReconciliationID x \<noteq> '''' \<longrightarrow> ex_Status x \<in> {StatusSucceeded, StatusFailed})"

definition lease_fence_ok :: "Execution gomap \<Rightarrow> string \<Rightarrow> leaseFence \<Rightarrow> bool" where
  "lease_fence_ok m i f \<longleftrightarrow>
     (\<exists>x. gget m i = Some x \<and> lf_epoch f = ex_LeaseEpoch x \<and> lf_runnerID f = ex_RunnerID x \<and>
        ex_Status x \<noteq> StatusQueued)"

definition reconciled :: "Execution \<Rightarrow> bool" where
  "reconciled x \<longleftrightarrow> ex_ReconciliationID x \<noteq> ''''"

definition lease_inv :: "MemoryRepository \<Rightarrow> bool" where
  "lease_inv s \<longleftrightarrow>
     distinct (gkeys (mr_executions s)) \<and> distinct (mr_order s) \<and>
     set (mr_order s) = set (gkeys (mr_executions s)) \<and>
     (\<forall>i x. gget (mr_executions s) i = Some x \<longrightarrow> lease_record_ok i x) \<and>
     (\<forall>i f. gget (mr_leaseFences s) i = Some f \<longrightarrow> lease_fence_ok (mr_executions s) i f) \<and>
     exclusive ex_TargetKey holds_target (mr_executions s) \<and>
     exclusive ex_ReconciliationID reconciled (mr_executions s)"

definition empty_repository :: MemoryRepository where
  "empty_repository = \<lparr>mr_executions = [], mr_leaseFences = [], mr_order = []\<rparr>"

interpretation lease_lock: lock_table ex_TargetKey holds_target .

interpretation lease_decision: lock_table ex_ReconciliationID reconciled .

lemma lease_invD:
  assumes "lease_inv s"
  shows "distinct (gkeys (mr_executions s))" and "distinct (mr_order s)"
    and "set (mr_order s) = set (gkeys (mr_executions s))"
    and "gget (mr_executions s) i = Some x \<Longrightarrow> lease_record_ok i x"
    and "gget (mr_leaseFences s) i = Some f \<Longrightarrow> lease_fence_ok (mr_executions s) i f"
    and "exclusive ex_TargetKey holds_target (mr_executions s)"
    and "exclusive ex_ReconciliationID reconciled (mr_executions s)"
  using assms unfolding lease_inv_def by blast+

lemma lease_inv_empty: "lease_inv empty_repository"
  by (simp add: lease_inv_def empty_repository_def lease_lock.exclusive_empty
      lease_decision.exclusive_empty)

lemma expire_one_frame [simp]:
  "ex_ExecutionID (expire_one t x) = ex_ExecutionID x"
  "ex_TargetKey (expire_one t x) = ex_TargetKey x"
  "ex_Pool (expire_one t x) = ex_Pool x"
  "ex_Production (expire_one t x) = ex_Production x"
  "ex_LeaseEpoch (expire_one t x) = ex_LeaseEpoch x"
  "ex_ReconciliationID (expire_one t x) = ex_ReconciliationID x"
  "reconciled (expire_one t x) = reconciled x"
  unfolding reconciled_def by (simp_all add: expire_one_def)

lemma expire_one_holds: "holds_target (expire_one t x) \<Longrightarrow> holds_target x"
  by (auto simp: expire_one_def holds_target_def split: if_splits)

lemma expire_one_record_ok: "lease_record_ok i x \<Longrightarrow> lease_record_ok i (expire_one t x)"
  by (auto simp: expire_one_def lease_record_ok_def)

lemma expire_one_same: "\<not> lease_expired t x \<Longrightarrow> expire_one t x = x"
  by (auto simp: expire_one_def lease_expired_def)

lemma lease_inv_expire:
  assumes "lease_inv s"
  shows "lease_inv (expireLeases t s)"
proof -
  note inv = lease_invD [OF assms]
  have fences: "lease_fence_ok (mr_executions (expireLeases t s)) i f"
    if "gget (mr_leaseFences (expireLeases t s)) i = Some f" for i f
  proof -
    from that have f: "gget (mr_leaseFences s) i = Some f"
      and live: "\<And>x. gget (mr_executions s) i = Some x \<Longrightarrow> \<not> lease_expired t x"
      by (auto simp: expireLeases_def gomap_simps split: if_splits)
    from inv(5) [OF f] live show ?thesis
      by (fastforce simp: lease_fence_ok_def expireLeases_def gomap_simps expire_one_same)
  qed
  have "exclusive ex_TargetKey holds_target (mr_executions (expireLeases t s))"
    unfolding expireLeases_def
    by simp (rule lease_lock.exclusive_update_all [OF inv(6)]; simp add: expire_one_holds)
  moreover have "exclusive ex_ReconciliationID reconciled (mr_executions (expireLeases t s))"
    unfolding expireLeases_def
    by simp (rule lease_decision.exclusive_update_all [OF inv(7)]; simp)
  ultimately show ?thesis
    using inv(1-4) fences
    by (auto simp: lease_inv_def expireLeases_def gomap_simps expire_one_record_ok)
qed

lemma lease_inv_insert:
  assumes "lease_inv s" and "gget (mr_executions s) i = None" and "ex_ExecutionID x = i"
    and "ex_Status x = StatusQueued" and "ex_LeaseToken x = ''''" and "ex_LeaseEpoch x = 0"
    and "ex_ReconciliationID x = ''''"
  shows "lease_inv (s\<lparr>mr_executions := gset i x (mr_executions s), mr_order := mr_order s @ [i]\<rparr>)"
proof -
  note inv = lease_invD [OF assms(1)]
  have "exclusive ex_TargetKey holds_target (gset i x (mr_executions s))"
    by (rule lease_lock.exclusive_insert_free [OF inv(6)]) (simp add: holds_target_def assms)
  moreover have "exclusive ex_ReconciliationID reconciled (gset i x (mr_executions s))"
    by (rule lease_decision.exclusive_insert_free [OF inv(7)]) (simp add: reconciled_def assms)
  moreover have "lease_fence_ok (gset i x (mr_executions s)) j f"
    if "gget (mr_leaseFences s) j = Some f" for j f
    using inv(5) [OF that] assms(2) by (auto simp: lease_fence_ok_def gomap_simps)
  moreover have "i \<notin> set (mr_order s)"
    using inv(3) assms(2) by (simp add: gkeys_gget)
  ultimately show ?thesis
    using inv assms
    by (auto simp: lease_inv_def gomap_simps distinct_gset gkeys_gset lease_record_ok_def
        MaxInt64_def split: if_splits)
qed

text \<open>A move keeps the record's part of the invariant and never takes a target.\<close>

lemma lease_move_record_ok: "lease_move x x' \<Longrightarrow> lease_record_ok i x \<Longrightarrow> lease_record_ok i x'"
  by (auto simp: lease_move_def lease_record_ok_def terminalStatus_def)

lemma lease_move_holds: "lease_move x x' \<Longrightarrow> holds_target x' \<Longrightarrow> holds_target x"
  by (auto simp: lease_move_def holds_target_def)

text \<open>
  Writing one record back: the two exclusions are what the caller has to show.
\<close>

lemma lease_inv_put:
  assumes "lease_inv s" and x: "gget (mr_executions s) i = Some x" and ok: "lease_record_ok i x'"
    and lock: "exclusive ex_TargetKey holds_target (gset i x' (mr_executions s))"
    and dec: "exclusive ex_ReconciliationID reconciled (gset i x' (mr_executions s))"
    and fences: "\<And>j f. gget fs j = Some f \<Longrightarrow> lease_fence_ok (gset i x' (mr_executions s)) j f"
  shows "lease_inv (s\<lparr>mr_leaseFences := fs,
           mr_executions := gset (ex_ExecutionID x) x' (mr_executions s)\<rparr>)"
proof -
  note inv = lease_invD [OF assms(1)]
  from inv(4) [OF x] have i: "ex_ExecutionID x = i" by (simp add: lease_record_ok_def)
  have "i \<in> fst ` set (mr_executions s)"
    using x by (simp add: gkeys_gget)
  then show ?thesis
    using inv ok lock dec fences
    by (auto simp: lease_inv_def gomap_simps distinct_gset gkeys_gset i insert_absorb)
qed

lemma lease_move_exclusive:
  assumes "lease_inv s" and x: "gget (mr_executions s) i = Some x" and move: "lease_move x x'"
  shows "lease_record_ok i x'"
    and "exclusive ex_TargetKey holds_target (gset i x' (mr_executions s))"
    and "exclusive ex_ReconciliationID reconciled (gset i x' (mr_executions s))"
proof -
  note inv = lease_invD [OF assms(1)]
  show "lease_record_ok i x'" by (rule lease_move_record_ok [OF move inv(4) [OF x]])
  show "exclusive ex_TargetKey holds_target (gset i x' (mr_executions s))"
    using move by (intro lease_lock.exclusive_keep [OF inv(6) x])
      (auto simp: lease_move_def dest: lease_move_holds [OF move])
  show "exclusive ex_ReconciliationID reconciled (gset i x' (mr_executions s))"
    using move by (intro lease_decision.exclusive_keep [OF inv(7) x])
      (auto simp: lease_move_def reconciled_def)
qed

lemma lease_reconcile_exclusive:
  assumes "lease_inv s" and x: "gget (mr_executions s) i = Some x"
    and move: "reconcile_move r x x'"
    and fresh: "\<not> gany (\<lambda>j y. j \<noteq> ex_ExecutionID x \<and> ex_ReconciliationID y = r) (mr_executions s)"
  shows "lease_record_ok i x'"
    and "exclusive ex_TargetKey holds_target (gset i x' (mr_executions s))"
    and "exclusive ex_ReconciliationID reconciled (gset i x' (mr_executions s))"
proof -
  note inv = lease_invD [OF assms(1)]
  from inv(4) [OF x] have i: "ex_ExecutionID x = i" by (simp add: lease_record_ok_def)
  show "lease_record_ok i x'"
    using move inv(4) [OF x] by (auto simp: lease_record_ok_def reconcile_move_def)
  show "exclusive ex_TargetKey holds_target (gset i x' (mr_executions s))"
    using move by (intro lease_lock.exclusive_insert_free [OF inv(6)])
      (auto simp: reconcile_move_def holds_target_def)
  show "exclusive ex_ReconciliationID reconciled (gset i x' (mr_executions s))"
  proof (rule lease_decision.exclusive_gset [OF inv(7)])
    fix j y
    assume "gget (mr_executions s) j = Some y" and "j \<noteq> i"
    then show "ex_ReconciliationID y \<noteq> ex_ReconciliationID x'"
      using fresh move gany_witness [of "mr_executions s" j y]
      by (fastforce simp: i reconcile_move_def)
  qed
qed

lemma lease_fence_keep:
  assumes "lease_fence_ok m j f" and "gget m i = Some x" and "lease_move x x'"
    and "j = i \<Longrightarrow> ex_Status x' \<noteq> StatusCancelled"
  shows "lease_fence_ok (gset i x' m) j f"
  using assms by (auto simp: lease_fence_ok_def gomap_simps lease_move_def)

lemma lease_inv_grant:
  assumes "lease_inv s" and x: "gget (mr_executions s) i = Some x"
    and "ex_Status x = StatusQueued"
    and free: "\<not> targetUnavailable s (ex_TargetKey x) (ex_ExecutionID x)"
    and "\<not> (ex_Pool x = PoolWrite \<and> ex_Production x)" and "ex_LeaseEpoch x \<noteq> MaxInt64"
  shows "lease_inv (fst (grant_lease sha q t i token x s))"
proof -
  note inv = lease_invD [OF assms(1)]
  define x' where "x' = x\<lparr>ex_Status := StatusLeased, ex_RunnerID := cq_RunnerID q,
    ex_LeaseToken := '''', ex_LeaseEpoch := wrap64 (ex_LeaseEpoch x + 1), ex_LeaseAcquiredAt := t,
    ex_LastHeartbeatAt := t, ex_LeaseExpiresAt := t + cq_LeaseDuration q, ex_UpdatedAt := t\<rparr>"
  from inv(4) [OF x] have ok: "lease_record_ok i x" .
  then have epoch: "wrap64 (ex_LeaseEpoch x + 1) = ex_LeaseEpoch x + 1"
    using assms(6) by (intro wrap64_inc) (auto simp: lease_record_ok_def go_defs)
  have ok': "lease_record_ok i x'"
    using ok assms(3,5,6) by (auto simp: lease_record_ok_def x'_def epoch go_defs)
  have "exclusive ex_TargetKey holds_target (gset i x' (mr_executions s))"
  proof (rule lease_lock.exclusive_gset [OF inv(6)])
    fix j y
    assume y: "gget (mr_executions s) j = Some y" "j \<noteq> i" "holds_target y"
    show "ex_TargetKey y \<noteq> ex_TargetKey x'"
    proof
      assume "ex_TargetKey y = ex_TargetKey x'"
      with y ok have "targetUnavailable s (ex_TargetKey x) (ex_ExecutionID x)"
        unfolding targetUnavailable_def
        by (intro gany_witness [OF y(1)]) (simp add: lease_record_ok_def x'_def)
      with free show False ..
    qed
  qed
  moreover have "exclusive ex_ReconciliationID reconciled (gset i x' (mr_executions s))"
    by (rule lease_decision.exclusive_keep [OF inv(7) x]) (simp_all add: x'_def reconciled_def)
  moreover have "i \<in> fst ` set (mr_executions s)"
    using x by (simp add: gkeys_gget)
  moreover have "lease_fence_ok (gset i x' (mr_executions s)) j f"
    if "gget (gset i \<lparr>lf_runnerID = cq_RunnerID q, lf_epoch = ex_LeaseEpoch x',
      lf_tokenSHA256 = sha token\<rparr> (mr_leaseFences s)) j = Some f" for j f
    using that inv(5) [of j f]
    by (auto simp: gomap_simps lease_fence_ok_def x'_def split: if_splits)
  ultimately show ?thesis
    using inv ok'
    by (auto simp: lease_inv_def grant_lease_def Let_def x'_def [symmetric] gomap_simps
        distinct_gset gkeys_gset insert_absorb)
qed

lemma lease_effect_inv: "lease_effect sha s u \<Longrightarrow> lease_inv s \<Longrightarrow> lease_inv u"
proof (induction rule: lease_effect.induct)
  case (eff_expire s t)
  then show ?case by (rule lease_inv_expire)
next
  case (eff_insert s i x)
  then show ?case by (intro lease_inv_insert)
next
  case (eff_grant s i x q t token)
  then show ?case by (intro lease_inv_grant)
next
  case (eff_put s i x x')
  have "lease_fence_ok (gset i x' (mr_executions s)) j f"
    if "gget (mr_leaseFences s) j = Some f" for j f
    using lease_fence_keep lease_invD(5) [OF eff_put.prems that] eff_put.hyps by blast
  from lease_inv_put [OF eff_put.prems eff_put.hyps(1)
      lease_move_exclusive [OF eff_put.prems eff_put.hyps(1,3)], of "mr_leaseFences s", OF this]
  show ?case by simp
next
  case (eff_drop s i x x')
  have i: "ex_ExecutionID x = i"
    using lease_invD(4) [OF eff_drop.prems eff_drop.hyps(1)] by (simp add: lease_record_ok_def)
  have "lease_fence_ok (gset i x' (mr_executions s)) j f"
    if "gget (gdel (ex_ExecutionID x) (mr_leaseFences s)) j = Some f" for j f
    using that lease_fence_keep [OF lease_invD(5) [OF eff_drop.prems] eff_drop.hyps]
    by (auto simp: i gomap_simps split: if_splits)
  from lease_inv_put [OF eff_drop.prems eff_drop.hyps(1)
      lease_move_exclusive [OF eff_drop.prems eff_drop.hyps] this]
  show ?case by simp
next
  case (eff_reconcile s i x r x')
  have i: "ex_ExecutionID x = i"
    using lease_invD(4) [OF eff_reconcile.prems eff_reconcile.hyps(1)]
    by (simp add: lease_record_ok_def)
  have "lease_fence_ok (gset i x' (mr_executions s)) j f"
    if "gget (gdel (ex_ExecutionID x) (mr_leaseFences s)) j = Some f" for j f
    using that lease_invD(5) [OF eff_reconcile.prems, of j f]
    by (auto simp: i gomap_simps lease_fence_ok_def split: if_splits)
  from lease_inv_put [OF eff_reconcile.prems eff_reconcile.hyps(1)
      lease_reconcile_exclusive [OF eff_reconcile.prems eff_reconcile.hyps] this]
  show ?case by simp
next
  case (eff_unfence s i)
  then show ?case
    using lease_invD(5) [OF eff_unfence.prems]
    by (auto simp: lease_inv_def gomap_simps split: if_splits)
qed

interpretation lease_effects: invariant_system empty_repository "lease_effect sha" lease_inv
  by unfold_locales (rule lease_inv_empty, rule lease_effect_inv)

lemma lease_step_inv: "lease_step sha s t \<Longrightarrow> lease_inv s \<Longrightarrow> lease_inv t"
  using lease_step_effects lease_effects.steps_inv by blast

interpretation lease_calls: invariant_system empty_repository "lease_step sha" lease_inv
  by unfold_locales (rule lease_inv_empty, rule lease_step_inv)

section \<open>Fencing\<close>

text \<open>Epochs never go back, so a lease that was overtaken once stays overtaken.\<close>

definition epoch_at_least :: "int \<Rightarrow> string \<Rightarrow> MemoryRepository \<Rightarrow> bool" where
  "epoch_at_least n i s \<longleftrightarrow> (\<exists>x. gget (mr_executions s) i = Some x \<and> n \<le> ex_LeaseEpoch x)"

lemma lease_effect_epoch:
  assumes "lease_effect sha s u" and "lease_inv s" and "epoch_at_least n i s"
  shows "epoch_at_least n i u"
  using assms
proof (induction rule: lease_effect.induct)
  case (eff_grant s j x q t token)
  have "ex_ExecutionID x = j" and "wrap64 (ex_LeaseEpoch x + 1) = ex_LeaseEpoch x + 1"
    using lease_invD(4) [OF eff_grant.prems(1) eff_grant.hyps(1)] eff_grant.hyps(5)
    by (auto simp: lease_record_ok_def go_defs intro!: wrap64_inc)
  then show ?case
    using eff_grant.hyps eff_grant.prems(2)
    by (auto simp: epoch_at_least_def grant_lease_def Let_def gomap_simps)
qed (auto simp: epoch_at_least_def expireLeases_def gomap_simps lease_move_def reconcile_move_def
    lease_record_ok_def dest!: lease_invD(4))

lemma lease_steps_epoch:
  assumes "(lease_step sha)\<^sup>*\<^sup>* s u" and "lease_inv s" and "epoch_at_least n i s"
  shows "epoch_at_least n i u"
proof (rule lease_calls.steps_keep [where P = "epoch_at_least n i", OF assms])
  fix a b
  assume step: "lease_step sha a b" and inv: "lease_inv a" and ep: "epoch_at_least n i a"
  show "epoch_at_least n i b"
    using lease_effects.steps_keep [where P = "epoch_at_least n i",
        OF lease_step_effects [OF step] inv ep] lease_effect_epoch by blast
qed

lemma stale_lease_refused:
  assumes "lease_inv s" and "epoch_at_least n (li_ExecutionID l) s" and "li_Epoch l < n"
  shows "\<exists>err. Start sha e l s = (s, Inl err)"
    and "\<exists>err. Heartbeat sha e \<lparr>hq_Lease = l, hq_Extension = d\<rparr> s = (s, Inl err)"
    and "\<exists>err. Complete sha e \<lparr>pq_Lease = l, pq_Status = st, pq_ResultHash = h\<rparr> s = (s, Inl err)"
proof -
  obtain x where x: "gget (mr_executions s) (li_ExecutionID l) = Some x"
    and lt: "li_Epoch l < ex_LeaseEpoch x"
    using assms(2,3) by (auto simp: epoch_at_least_def)
  have "ex_ExecutionID x = li_ExecutionID l"
    using lease_invD(4) [OF assms(1) x] by (simp add: lease_record_ok_def)
  then have stale: "\<not> currentLease sha x f l t"
    and nomatch: "gget (mr_leaseFences s) (ex_ExecutionID x) = Some f' \<Longrightarrow> \<not> matches sha f' l"
    for f f' t
    using lt x lease_invD(5) [OF assms(1)]
    by (fastforce simp: currentLease_def matches_def lease_fence_ok_def)+
  show "\<exists>err. Start sha e l s = (s, Inl err)"
    using x stale by (auto simp: Start_def split: option.splits sum.splits)
  show "\<exists>err. Heartbeat sha e \<lparr>hq_Lease = l, hq_Extension = d\<rparr> s = (s, Inl err)"
    using x stale by (auto simp: Heartbeat_def split: option.splits sum.splits)
  show "\<exists>err. Complete sha e \<lparr>pq_Lease = l, pq_Status = st, pq_ResultHash = h\<rparr> s = (s, Inl err)"
    using x stale nomatch by (auto simp: Complete_def split: option.splits sum.splits)
qed

section \<open>Claims are granted in queue order\<close>

definition claimable :: "ClaimRequest \<Rightarrow> MemoryRepository \<Rightarrow> string \<Rightarrow> bool" where
  "claimable q s i \<longleftrightarrow> (case gget (mr_executions s) i of None \<Rightarrow> False | Some x \<Rightarrow>
     ex_Status x = StatusQueued \<and> ex_Pool x = cq_Pool q \<and>
     \<not> targetUnavailable s (ex_TargetKey x) (ex_ExecutionID x) \<and>
     \<not> (ex_Pool x = PoolWrite \<and> ex_Production x))"

lemma claim_loop_find:
  "claim_loop sha e q t is s =
     (case find (claimable q s) is of
        None \<Rightarrow> (s, Inl ErrNoLeaseAvailable)
      | Some i \<Rightarrow> (case gget (mr_executions s) i of None \<Rightarrow> (s, Inl ErrNoLeaseAvailable) | Some x \<Rightarrow>
          if ex_LeaseEpoch x = MaxInt64 then (s, Inl ErrInvalidTransition)
          else case le_token e of None \<Rightarrow> (s, Inl TokenSourceFailed) | Some token \<Rightarrow>
          if \<not> validIdentifier token 256 then (s, Inl ErrInvalidRequest)
          else (fst (grant_lease sha q t i token x s), Inr (snd (grant_lease sha q t i token x s)))))"
proof (induction "is")
  case Nil
  show ?case by simp
next
  case (Cons i "is")
  show ?case
  proof (cases "gget (mr_executions s) i")
    case None
    then show ?thesis using Cons.IH by (simp add: claimable_def zero_Execution_def)
  next
    case (Some x)
    then show ?thesis
      using Cons.IH by (auto simp: claimable_def Let_def split: option.splits)
  qed
qed

section \<open>A concrete run\<close>

definition demo_env :: lease_env where
  "demo_env = \<lparr>le_ctx = None, le_clock = 1000, le_token = Some ''tok-1''\<rparr>"

definition demo_late :: lease_env where
  "demo_late = \<lparr>le_ctx = None, le_clock = 5000000000000, le_token = Some ''tok-2''\<rparr>"

definition demo_enqueue :: "string \<Rightarrow> EnqueueRequest" where
  "demo_enqueue i = \<lparr>eq_ExecutionID = i, eq_TargetKey = ''svc/a'', eq_Pool = PoolRead,
     eq_Production = False\<rparr>"

definition demo_claim :: ClaimRequest where
  "demo_claim = \<lparr>cq_Pool = PoolRead, cq_RunnerID = ''runner-1'', cq_LeaseDuration = 60 * Second,
     cq_ClaimsEnabled = True\<rparr>"

definition demo_queued :: MemoryRepository where
  "demo_queued = fst (Enqueue demo_env (demo_enqueue ''e2'')
     (fst (Enqueue demo_env (demo_enqueue ''e1'') empty_repository)))"

definition demo_leased :: MemoryRepository where
  "demo_leased = fst (Claim id demo_env demo_claim demo_queued)"

definition demo_lease :: LeaseIdentity where
  "demo_lease = \<lparr>li_ExecutionID = ''e1'', li_RunnerID = ''runner-1'', li_Token = ''tok-1'',
     li_Epoch = 1\<rparr>"

definition demo_reclaimed :: MemoryRepository where
  "demo_reclaimed = fst (Claim id demo_late demo_claim demo_leased)"

definition demo_running :: MemoryRepository where
  "demo_running = fst (Start id demo_env demo_lease demo_leased)"

definition demo_complete :: CompleteRequest where
  "demo_complete = \<lparr>pq_Lease = demo_lease, pq_Status = StatusSucceeded,
     pq_ResultHash = replicate 64 (CHR ''a'')\<rparr>"

lemma lease_steps_Claim:
  "(lease_step sha)\<^sup>*\<^sup>* a s \<Longrightarrow> (lease_step sha)\<^sup>*\<^sup>* a (fst (Claim sha e q s))"
  by (auto intro: rtranclp.rtrancl_into_rtrancl step_Claim)

lemma lease_steps_Enqueue:
  "(lease_step sha)\<^sup>*\<^sup>* a s \<Longrightarrow> (lease_step sha)\<^sup>*\<^sup>* a (fst (Enqueue e q s))"
  by (auto intro: rtranclp.rtrancl_into_rtrancl step_Enqueue)

lemma demo_leased_steps: "(lease_step id)\<^sup>*\<^sup>* empty_repository demo_leased"
  unfolding demo_leased_def demo_queued_def
  by (intro lease_steps_Claim lease_steps_Enqueue rtranclp.rtrancl_refl)

lemma demo_reclaimed_steps: "(lease_step id)\<^sup>*\<^sup>* empty_repository demo_reclaimed"
  unfolding demo_reclaimed_def
  by (rule lease_steps_Claim [OF demo_leased_steps])

lemma demo_reclaimed_epoch:
  "map_option ex_LeaseEpoch (gget (mr_executions demo_reclaimed) ''e1'') = Some 2"
  by code_simp

section \<open>Properties\<close>

text \<open>
  C12. Target exclusion. In every state the repository can reach by any sequence of calls, at
  most one execution of a target is leased, running or of uncertain outcome.
\<close>

theorem lease_target_exclusive:
  assumes "(lease_step sha)\<^sup>*\<^sup>* empty_repository s"
  shows "gcount (\<lambda>_ x. holds_target x \<and> ex_TargetKey x = key) (mr_executions s) \<le> 1"
proof -
  have inv: "lease_inv s" by (rule lease_calls.reachable_inv [OF assms])
  show ?thesis
    by (rule lease_lock.exclusive_count [OF lease_invD(6) [OF inv] lease_invD(1) [OF inv]])
qed

theorem lease_target_exclusive_witness:
  "map (\<lambda>(i, x). (i, ex_Status x)) (mr_executions demo_leased) =
     [(''e1'', StatusLeased), (''e2'', StatusQueued)] \<and>
   gcount (\<lambda>_ x. holds_target x \<and> ex_TargetKey x = ''svc/a'') (mr_executions demo_leased) \<le> 1"
  by (intro conjI lease_target_exclusive [OF demo_leased_steps]) code_simp

text \<open>
  Fencing. Once an execution has been leased again (its epoch passed the one a runner
  holds), that runner's lease is refused by Start, Heartbeat and Complete in every later state,
  whatever token it presents, and the refused call changes nothing.
\<close>

theorem lease_overtaken_refused:
  assumes "(lease_step sha)\<^sup>*\<^sup>* empty_repository s"
    and "gget (mr_executions s) (li_ExecutionID l) = Some x" and "li_Epoch l < ex_LeaseEpoch x"
    and "(lease_step sha)\<^sup>*\<^sup>* s u"
  shows "(\<exists>err. Start sha e l u = (u, Inl err)) \<and>
    (\<exists>err. Heartbeat sha e \<lparr>hq_Lease = l, hq_Extension = d\<rparr> u = (u, Inl err)) \<and>
    (\<exists>err. Complete sha e \<lparr>pq_Lease = l, pq_Status = st, pq_ResultHash = h\<rparr> u = (u, Inl err))"
proof -
  have inv: "lease_inv s" by (rule lease_calls.reachable_inv [OF assms(1)])
  have "epoch_at_least (ex_LeaseEpoch x) (li_ExecutionID l) u"
    by (rule lease_steps_epoch [OF assms(4) inv]) (simp add: epoch_at_least_def assms(2))
  note refused = stale_lease_refused [OF lease_calls.steps_inv [OF assms(4) inv] this assms(3)]
  show ?thesis by (intro conjI refused)
qed

theorem lease_overtaken_refused_witness:
  "\<exists>err. Start id demo_late demo_lease demo_reclaimed = (demo_reclaimed, Inl err)"
proof -
  obtain x where "gget (mr_executions demo_reclaimed) (li_ExecutionID demo_lease) = Some x"
    and "li_Epoch demo_lease < ex_LeaseEpoch x"
    using demo_reclaimed_epoch by (auto simp: demo_lease_def)
  then show ?thesis
    using lease_overtaken_refused [OF demo_reclaimed_steps _ _ rtranclp.rtrancl_refl] by blast
qed

text \<open>
  What is stored. No stored execution ever carries a raw lease token, and an execution
  marked as a production write is never leased: it stays queued or becomes cancelled.
\<close>

theorem lease_storage_safe:
  assumes "(lease_step sha)\<^sup>*\<^sup>* empty_repository s" and "gget (mr_executions s) i = Some x"
  shows "ex_LeaseToken x = '''' \<and>
    (ex_Pool x = PoolWrite \<and> ex_Production x \<longrightarrow> ex_Status x \<in> {StatusQueued, StatusCancelled})"
  using lease_invD(4) [OF lease_calls.reachable_inv [OF assms(1)] assms(2)]
  by (simp add: lease_record_ok_def)

theorem lease_storage_safe_witness:
  "map_option ex_LeaseToken (gget (mr_executions demo_leased) ''e1'') = Some ''''"
proof -
  have "gget (mr_executions demo_leased) ''e1'' \<noteq> None" by code_simp
  then obtain x where x: "gget (mr_executions demo_leased) ''e1'' = Some x" by blast
  then show ?thesis using lease_storage_safe [OF demo_leased_steps x] by simp
qed

text \<open>
  C40. Claims are first come, first served. With claims enabled and a valid request, \<open>Claim\<close>
  first expires leases and then grants the first execution of the queue order that is queued in
  the requested pool, has a free target and is not a production write; it fails with
  ErrNoLeaseAvailable exactly when there is none. The granted lease names the runner, carries
  the fresh token, has the next epoch and ends after the requested duration.
\<close>

theorem lease_claim_in_order:
  assumes "(lease_step sha)\<^sup>*\<^sup>* empty_repository s"
    and "le_ctx e = None" and "\<not> IsZero (le_clock e)" and "validPool (cq_Pool q)"
    and "validIdentifier (cq_RunnerID q) 256" and "cq_ClaimsEnabled q"
    and "minLeaseDuration \<le> cq_LeaseDuration q" and "cq_LeaseDuration q \<le> maxLeaseDuration"
    and "le_token e = Some token" and "validIdentifier token 256"
    and s': "s' = expireLeases (le_clock e) s"
  shows "(case find (claimable q s') (mr_order s') of
      None \<Rightarrow> Claim sha e q s = (s', Inl ErrNoLeaseAvailable)
    | Some i \<Rightarrow> (\<exists>x. gget (mr_executions s') i = Some x \<and>
        (if ex_LeaseEpoch x = MaxInt64 then Claim sha e q s = (s', Inl ErrInvalidTransition)
         else \<exists>u y. Claim sha e q s = (u, Inr y) \<and>
           gget (mr_executions u) i = Some (y\<lparr>ex_LeaseToken := ''''\<rparr>) \<and>
           ex_ExecutionID y = i \<and> ex_Status y = StatusLeased \<and> ex_RunnerID y = cq_RunnerID q \<and>
           ex_LeaseToken y = token \<and> ex_LeaseEpoch y = ex_LeaseEpoch x + 1 \<and>
           ex_LeaseExpiresAt y = le_clock e + cq_LeaseDuration q)))"
proof -
  have inv: "lease_inv s'"
    unfolding s' by (rule lease_inv_expire) (rule lease_calls.reachable_inv [OF assms(1)])
  have claim: "Claim sha e q s = claim_loop sha e q (le_clock e) (mr_order s') s'"
    using assms by (simp add: Claim_def now_def Let_def)
  show ?thesis
  proof (cases "find (claimable q s') (mr_order s')")
    case None
    then show ?thesis by (simp add: claim claim_loop_find)
  next
    case (Some i)
    then have "claimable q s' i" by (auto simp: find_Some_iff)
    then obtain x where x: "gget (mr_executions s') i = Some x"
      by (auto simp: claimable_def split: option.splits)
    have ok: "lease_record_ok i x" by (rule lease_invD(4) [OF inv x])
    then have "wrap64 (ex_LeaseEpoch x + 1) = ex_LeaseEpoch x + 1" if "ex_LeaseEpoch x \<noteq> MaxInt64"
      using that by (intro wrap64_inc) (auto simp: lease_record_ok_def go_defs)
    with Some x ok assms(9,10) show ?thesis
      by (auto simp: claim claim_loop_find grant_lease_def Let_def gomap_simps lease_record_ok_def)
  qed
qed

theorem lease_claim_in_order_witness:
  "\<exists>u y. Claim id demo_env demo_claim demo_queued = (u, Inr y) \<and> ex_ExecutionID y = ''e1'' \<and>
     ex_LeaseToken y = ''tok-1'' \<and> ex_LeaseEpoch y = 1"
proof -
  have steps: "(lease_step id)\<^sup>*\<^sup>* empty_repository demo_queued"
    unfolding demo_queued_def by (intro lease_steps_Enqueue rtranclp.rtrancl_refl)
  have found: "find (claimable demo_claim (expireLeases (le_clock demo_env) demo_queued))
      (mr_order (expireLeases (le_clock demo_env) demo_queued)) = Some ''e1''"
    by code_simp
  have epoch: "map_option ex_LeaseEpoch
      (gget (mr_executions (expireLeases (le_clock demo_env) demo_queued)) ''e1'') = Some 0"
    by code_simp
  have pre: "le_ctx demo_env = None" "\<not> IsZero (le_clock demo_env)"
    "validPool (cq_Pool demo_claim)" "validIdentifier (cq_RunnerID demo_claim) 256"
    "cq_ClaimsEnabled demo_claim" "minLeaseDuration \<le> cq_LeaseDuration demo_claim"
    "cq_LeaseDuration demo_claim \<le> maxLeaseDuration" "le_token demo_env = Some ''tok-1''"
    "validIdentifier ''tok-1'' 256"
    by code_simp+
  show ?thesis
    using lease_claim_in_order [OF steps pre refl] epoch unfolding found
    by (auto simp: MaxInt64_def split: if_splits)
qed

text \<open>
  Completing twice. When Complete succeeds, sending the same request again returns the same
  execution and leaves the repository as it is, at any later time and without a live lease.
\<close>

theorem lease_complete_idempotent:
  assumes "(lease_step sha)\<^sup>*\<^sup>* empty_repository s" and first: "Complete sha e q s = (u, Inr y)"
    and "le_ctx e' = None" and "\<not> IsZero (le_clock e')"
  shows "Complete sha e' q u = (u, Inr y)"
proof -
  have inv: "lease_inv s" by (rule lease_calls.reachable_inv [OF assms(1)])
  have valid: "validLease (pq_Lease q)" "resultHashPattern (pq_ResultHash q)"
    "pq_Status q \<in> {StatusSucceeded, StatusFailed, StatusUncertain}"
    and "gget (mr_executions s) (li_ExecutionID (pq_Lease q)) \<noteq> None"
    using first by (auto simp: Complete_def split: option.splits sum.splits if_splits)
  then obtain x where x: "gget (mr_executions s) (li_ExecutionID (pq_Lease q)) = Some x" by blast
  have ok: "lease_record_ok (li_ExecutionID (pq_Lease q)) x" by (rule lease_invD(4) [OF inv x])
  show ?thesis
  proof (cases "terminalStatus (ex_Status x)")
    case True
    then show ?thesis
      using first x valid assms(3,4)
      by (auto simp: Complete_def now_def split: option.splits sum.splits if_splits)
  next
    case False
    have live: "currentLease sha x (gget (mr_leaseFences s) (ex_ExecutionID x)) (pq_Lease q)
        (le_clock e)" and "le_ctx e = None" and "\<not> IsZero (le_clock e)"
      and run: "ex_Status x = StatusRunning"
      using first x valid False
      by (auto simp: Complete_def now_def split: option.splits sum.splits if_splits)
    then obtain f where f: "gget (mr_leaseFences s) (ex_ExecutionID x) = Some f"
      and "matches sha f (pq_Lease q)"
      by (auto simp: currentLease_def split: option.splits)
    moreover have "ex_ReconciliationID x = ''''" and id: "li_ExecutionID (pq_Lease q) = ex_ExecutionID x"
      using ok run by (auto simp: lease_record_ok_def)
    moreover define x' where "x' = x\<lparr>ex_Status := pq_Status q, ex_ResultHash := pq_ResultHash q,
      ex_CompletedAt := le_clock e, ex_LeaseExpiresAt := 0, ex_UpdatedAt := le_clock e,
      ex_LeaseToken := ''''\<rparr>"
    moreover have "u = s\<lparr>mr_executions := gset (ex_ExecutionID x) x' (mr_executions s)\<rparr>"
      and "y = redactedExecution x'"
      using first x valid False live \<open>le_ctx e = None\<close> \<open>\<not> IsZero (le_clock e)\<close> run
      by (auto simp: Complete_def now_def Let_def x'_def)
    moreover have "terminalStatus (pq_Status q)" using valid(3) by (auto simp: terminalStatus_def)
    ultimately show ?thesis
      using valid assms(3,4) by (auto simp: Complete_def now_def gomap_simps x'_def)
  qed
qed

theorem lease_complete_idempotent_witness:
  "\<exists>u y. Complete id demo_env demo_complete demo_running = (u, Inr y) \<and>
     ex_Status y = StatusSucceeded \<and> Complete id demo_late demo_complete u = (u, Inr y)"
proof -
  have steps: "(lease_step id)\<^sup>*\<^sup>* empty_repository demo_running"
    unfolding demo_running_def
    using rtranclp.rtrancl_into_rtrancl [OF demo_leased_steps] step_Start by blast
  have ok: "map_sum (\<lambda>_. ()) ex_Status (snd (Complete id demo_env demo_complete demo_running)) =
      Inr StatusSucceeded"
    by code_simp
  then obtain u y where c: "Complete id demo_env demo_complete demo_running = (u, Inr y)"
    and "ex_Status y = StatusSucceeded"
    by (cases "Complete id demo_env demo_complete demo_running"; cases "snd (Complete id demo_env
      demo_complete demo_running)") auto
  moreover have "Complete id demo_late demo_complete u = (u, Inr y)"
    by (rule lease_complete_idempotent [OF steps c]) (simp_all add: demo_late_def)
  ultimately show ?thesis by blast
qed

end
