(* ===== verification/Go_Strings.thy ===== *)
theory Go_Strings
  imports Aiops_Prelude
begin

text \<open>
  The parts of Go's string, path and base64 packages that the modelled code calls, on byte
  strings: \<^verbatim>\<open>strings.TrimSpace\<close> (Unicode white space in UTF-8),
  \<^verbatim>\<open>unicode.IsControl\<close>, \<^verbatim>\<open>strings.Split\<close> at a slash,
  \<^verbatim>\<open>path.Clean\<close>, \<^verbatim>\<open>strings.EqualFold\<close> on ASCII and
  \<^verbatim>\<open>base64.RawURLEncoding\<close>. The round trip of base64 is proved here.
\<close>

section \<open>White space and control characters\<close>

text \<open>
  The UTF-8 encodings of the runes with \<^verbatim>\<open>unicode.IsSpace\<close>. A lead byte is never a
  continuation byte, so a rune of this list occurs in a string exactly where its bytes do.
\<close>

definition space_runes :: "string list" where
  "space_runes =
     [[CHR 0x09], [CHR 0x0A], [CHR 0x0B], [CHR 0x0C], [CHR 0x0D], [CHR 0x20],
      [CHR 0xC2, CHR 0x85], [CHR 0xC2, CHR 0xA0], [CHR 0xE1, CHR 0x9A, CHR 0x80],
      [CHR 0xE2, CHR 0x80, CHR 0x80], [CHR 0xE2, CHR 0x80, CHR 0x81], [CHR 0xE2, CHR 0x80, CHR 0x82],
      [CHR 0xE2, CHR 0x80, CHR 0x83], [CHR 0xE2, CHR 0x80, CHR 0x84], [CHR 0xE2, CHR 0x80, CHR 0x85],
      [CHR 0xE2, CHR 0x80, CHR 0x86], [CHR 0xE2, CHR 0x80, CHR 0x87], [CHR 0xE2, CHR 0x80, CHR 0x88],
      [CHR 0xE2, CHR 0x80, CHR 0x89], [CHR 0xE2, CHR 0x80, CHR 0x8A], [CHR 0xE2, CHR 0x80, CHR 0xA8],
      [CHR 0xE2, CHR 0x80, CHR 0xA9], [CHR 0xE2, CHR 0x80, CHR 0xAF], [CHR 0xE2, CHR 0x81, CHR 0x9F],
      [CHR 0xE3, CHR 0x80, CHR 0x80]]"

definition leading_space :: "string \<Rightarrow> string option" where
  "leading_space s = find (\<lambda>r. take (length r) s = r) space_runes"

lemma leading_space_shrinks: "leading_space s = Some r \<Longrightarrow> length (drop (length r) s) < length s"
proof -
  assume "leading_space s = Some r"
  then have r: "r \<in> set space_runes" and eq: "take (length r) s = r"
    by (auto simp: leading_space_def find_Some_iff)
  have "r \<noteq> []" using r by (auto simp: space_runes_def)
  with eq have "s \<noteq> []" by auto
  with \<open>r \<noteq> []\<close> show ?thesis by simp
qed

function trim_left :: "string \<Rightarrow> string" where
  "trim_left s = (case leading_space s of None \<Rightarrow> s | Some r \<Rightarrow> trim_left (drop (length r) s))"
  by pat_completeness auto
termination
  by (relation "measure length") (auto dest: leading_space_shrinks)

declare trim_left.simps [simp del]

definition trailing_space :: "string \<Rightarrow> bool" where
  "trailing_space s = list_ex (\<lambda>r. length r \<le> length s \<and> drop (length s - length r) s = r) space_runes"

definition ending_space :: "string \<Rightarrow> string option" where
  "ending_space s = find (\<lambda>r. length r \<le> length s \<and> drop (length s - length r) s = r) space_runes"

lemma ending_space_shrinks: "ending_space s = Some r \<Longrightarrow> length (take (length s - length r) s) < length s"
proof -
  assume "ending_space s = Some r"
  then have r: "r \<in> set space_runes" and "length r \<le> length s" by (auto simp: ending_space_def find_Some_iff)
  moreover have "r \<noteq> []" using r by (auto simp: space_runes_def)
  ultimately have "0 < length r" "length r \<le> length s" by simp_all
  then show ?thesis by (simp del: length_greater_0_conv)
qed

function trim_right :: "string \<Rightarrow> string" where
  "trim_right s = (case ending_space s of None \<Rightarrow> s | Some r \<Rightarrow> trim_right (take (length s - length r) s))"
  by pat_completeness auto
termination
  by (relation "measure length") (auto dest: ending_space_shrinks)

declare trim_right.simps [simp del]

definition TrimSpace :: "string \<Rightarrow> string" where
  "TrimSpace s = trim_right (trim_left s)"

text \<open>\<^verbatim>\<open>strings.ReplaceAll(s, "\r\n", "\n")\<close>.\<close>

fun unix_newlines :: "string \<Rightarrow> string" where
  "unix_newlines [] = []"
| "unix_newlines [c] = [c]"
| "unix_newlines (c # d # cs) =
     (if c = CHR 0x0D \<and> d = CHR 0x0A then CHR 0x0A # unix_newlines cs else c # unix_newlines (d # cs))"

text \<open>\<^verbatim>\<open>strings.TrimSpace(s) == ""\<close> and \<^verbatim>\<open>strings.TrimSpace(s) == s\<close>.\<close>

definition trims_to_empty :: "string \<Rightarrow> bool" where
  "trims_to_empty s \<longleftrightarrow> trim_left s = ''''"

definition is_trimmed :: "string \<Rightarrow> bool" where
  "is_trimmed s \<longleftrightarrow> leading_space s = None \<and> \<not> trailing_space s"

text \<open>
  \<^verbatim>\<open>strings.ContainsFunc(s, unicode.IsControl)\<close>: the controls are U+0000 to U+001F,
  U+007F and U+0080 to U+009F, the last group encoded as 0xC2 followed by the byte itself.
\<close>

fun contains_control :: "string \<Rightarrow> bool" where
  "contains_control [] = False"
| "contains_control (c # cs) =
     ((of_char c :: nat) < 32 \<or> (of_char c :: nat) = 127 \<or>
      (c = CHR 0xC2 \<and> (case cs of [] \<Rightarrow> False | d # _ \<Rightarrow> in_range (CHR 0x80) d (CHR 0x9F))) \<or>
      contains_control cs)"

section \<open>Splitting and cleaning slash paths\<close>

fun split_slash :: "string \<Rightarrow> string list" where
  "split_slash [] = [[]]"
| "split_slash (c # cs) =
     (if c = CHR ''/'' then [] # split_slash cs
      else (case split_slash cs of [] \<Rightarrow> [[c]] | w # ws \<Rightarrow> (c # w) # ws))"

fun join_slash :: "string list \<Rightarrow> string" where
  "join_slash [] = ''''"
| "join_slash [w] = w"
| "join_slash (w # ws) = w @ ''/'' @ join_slash ws"

text \<open>
  \<^verbatim>\<open>path.Clean\<close>: empty and \<^verbatim>\<open>.\<close> elements go away, \<^verbatim>\<open>..\<close>
  removes the element before it, and stays at the front of a relative path. The accumulator is
  the cleaned prefix, last element first.
\<close>

fun clean_segments :: "bool \<Rightarrow> string list \<Rightarrow> string list \<Rightarrow> string list" where
  "clean_segments rooted acc [] = rev acc"
| "clean_segments rooted acc (w # ws) =
     (if w = '''' \<or> w = ''.'' then clean_segments rooted acc ws
      else if w = ''..'' then
        (case acc of
           [] \<Rightarrow> clean_segments rooted (if rooted then [] else [''..'']) ws
         | a # as \<Rightarrow> if a = ''..'' then clean_segments rooted (''..'' # acc) ws
                     else clean_segments rooted as ws)
      else clean_segments rooted (w # acc) ws)"

definition path_Clean :: "string \<Rightarrow> string" where
  "path_Clean p =
     (if p = '''' then ''.''
      else let rooted = (hd p = CHR ''/'');
               body = join_slash (clean_segments rooted [] (split_slash p))
           in if rooted then ''/'' @ body else if body = '''' then ''.'' else body)"

definition ascii_lower :: "char \<Rightarrow> char" where
  "ascii_lower c = (if is_upper c then char_of (of_char c + 32 :: nat) else c)"

definition EqualFold :: "string \<Rightarrow> string \<Rightarrow> bool" where
  "EqualFold a b \<longleftrightarrow> map ascii_lower a = map ascii_lower b"

lemma EqualFold_refl [simp]: "EqualFold a a"
  by (simp add: EqualFold_def)

lemma ascii_lower_hex: "is_hex c \<Longrightarrow> ascii_lower c = c"
  by (auto simp: ascii_lower_def char_class_defs)

lemma EqualFold_hex:
  "list_all is_hex a \<Longrightarrow> list_all is_hex b \<Longrightarrow> EqualFold a b \<longleftrightarrow> a = b"
proof -
  assume "list_all is_hex a" and "list_all is_hex b"
  then have "map ascii_lower a = a" and "map ascii_lower b = b"
    by (simp_all add: list_all_iff map_idI ascii_lower_hex)
  then show ?thesis by (simp add: EqualFold_def)
qed

lemma split_slash_not_Nil [simp]: "split_slash s \<noteq> []"
  by (cases s) (auto split: list.splits)

lemma join_split_slash: "join_slash (split_slash s) = s"
proof (induction s)
  case Nil
  show ?case by simp
next
  case (Cons c s)
  obtain w ws where split: "split_slash s = w # ws"
    by (cases "split_slash s") auto
  then show ?case using Cons.IH by (cases ws) auto
qed

lemma clean_segments_plain:
  "list_all (\<lambda>w. w \<noteq> '''' \<and> w \<noteq> ''.'' \<and> w \<noteq> ''..'') ws \<Longrightarrow>
   clean_segments rooted acc ws = rev acc @ ws"
  by (induction ws arbitrary: acc) auto

section \<open>Base64, URL alphabet, no padding\<close>

definition b64_alphabet :: string where
  "b64_alphabet = ''ABCDEFGHIJKLMNOPQRSTUVWXYZabcdefghijklmnopqrstuvwxyz0123456789-_''"

definition b64_char :: "nat \<Rightarrow> char" where
  "b64_char n = b64_alphabet ! (n mod 64)"

fun index_of :: "char \<Rightarrow> string \<Rightarrow> nat option" where
  "index_of c [] = None"
| "index_of c (d # ds) = (if c = d then Some 0 else map_option Suc (index_of c ds))"

definition b64_value :: "char \<Rightarrow> nat option" where
  "b64_value c = index_of c b64_alphabet"

fun b64_encode :: "string \<Rightarrow> string" where
  "b64_encode [] = []"
| "b64_encode [a] = (let n = of_char a * 16 in [b64_char (n div 64), b64_char n])"
| "b64_encode [a, b] =
     (let n = (of_char a * 256 + of_char b) * 4
      in [b64_char (n div 4096), b64_char (n div 64), b64_char n])"
| "b64_encode (a # b # c # rest) =
     (let n = of_char a * 65536 + of_char b * 256 + of_char c
      in b64_char (n div 262144) # b64_char (n div 4096) # b64_char (n div 64) # b64_char n #
         b64_encode rest)"

text \<open>
  Decoding skips carriage returns and line feeds, refuses any other byte outside the alphabet
  and a last quantum of one character, and ignores the unused low bits of a short quantum.
\<close>

fun b64_quanta :: "nat list \<Rightarrow> string option" where
  "b64_quanta [] = Some []"
| "b64_quanta [x] = None"
| "b64_quanta [x, y] = Some [char_of ((x * 64 + y) div 16)]"
| "b64_quanta [x, y, z] =
     (let n = (x * 4096 + y * 64 + z) div 4 in Some [char_of (n div 256), char_of (n mod 256)])"
| "b64_quanta (x # y # z # w # rest) =
     (let n = x * 262144 + y * 4096 + z * 64 + w
      in map_option (\<lambda>bs. char_of (n div 65536) # char_of (n div 256 mod 256) # char_of (n mod 256) # bs)
           (b64_quanta rest))"

definition b64_decode :: "string \<Rightarrow> string option" where
  "b64_decode s =
     (let cs = filter (\<lambda>c. c \<noteq> CHR 0x0A \<and> c \<noteq> CHR 0x0D) s
      in if list_all (\<lambda>c. b64_value c \<noteq> None) cs
         then b64_quanta (map (\<lambda>c. the (b64_value c)) cs) else None)"

lemma b64_value_char: "b64_value (b64_char n) = Some (n mod 64)"
proof -
  have "list_all (\<lambda>k. index_of (b64_alphabet ! k) b64_alphabet = Some k) [0..<64]"
    by code_simp
  moreover have "n mod 64 \<in> set [0..<64]" by simp
  ultimately show ?thesis by (auto simp: list_all_iff b64_value_def b64_char_def)
qed

lemma b64_char_not_newline: "b64_char n \<noteq> CHR 0x0A" "b64_char n \<noteq> CHR 0x0D"
proof -
  have "b64_value (CHR 0x0A) = None" and "b64_value (CHR 0x0D) = None" by code_simp+
  then show "b64_char n \<noteq> CHR 0x0A" and "b64_char n \<noteq> CHR 0x0D"
    using b64_value_char [of n] by auto
qed

lemma b64_decode_map:
  "b64_decode (map b64_char ns) = b64_quanta (map (\<lambda>n. n mod 64) ns)"
proof -
  have "filter (\<lambda>c. c \<noteq> CHR 0x0A \<and> c \<noteq> CHR 0x0D) (map b64_char ns) = map b64_char ns"
    by (simp add: filter_map o_def b64_char_not_newline)
  then show ?thesis by (simp add: b64_decode_def b64_value_char list_all_iff o_def)
qed

text \<open>The encoder as a list of six-bit groups.\<close>

fun b64_groups :: "nat list \<Rightarrow> nat list" where
  "b64_groups [] = []"
| "b64_groups [a] = [a * 16 div 64, a * 16]"
| "b64_groups [a, b] = (let n = (a * 256 + b) * 4 in [n div 4096, n div 64, n])"
| "b64_groups (a # b # c # rest) =
     (let n = a * 65536 + b * 256 + c
      in n div 262144 # n div 4096 # n div 64 # n # b64_groups rest)"

lemma b64_encode_groups: "b64_encode s = map b64_char (b64_groups (map of_char s))"
  by (induction s rule: b64_encode.induct) (simp_all add: Let_def)

lemma of_char_less: "(of_char c :: nat) < 256"
  using of_char_mod_256 [of c, where ?'a = nat] by (metis mod_less_divisor zero_less_numeral)

text \<open>Six-bit groups put together again.\<close>

lemma regroup2: "(n :: nat) < 4096 \<Longrightarrow> n div 64 mod 64 * 64 + n mod 64 = n"
  using mod_mult2_eq [of n 64 64] by simp

lemma regroup3: "(n :: nat) < 262144 \<Longrightarrow>
  n div 4096 mod 64 * 4096 + n div 64 mod 64 * 64 + n mod 64 = n"
  using mod_mult2_eq [of n 64 64] mod_mult2_eq [of n 4096 64] by simp

lemma regroup4: "(n :: nat) < 16777216 \<Longrightarrow>
  n div 262144 mod 64 * 262144 + n div 4096 mod 64 * 4096 + n div 64 mod 64 * 64 + n mod 64 = n"
  using mod_mult2_eq [of n 64 64] mod_mult2_eq [of n 4096 64] mod_mult2_eq [of n 262144 64] by simp

lemma split_bytes:
  assumes "(b :: nat) < 256" and "c < 256"
  shows "(a * 65536 + b * 256 + c) div 65536 = a"
    and "(a * 65536 + b * 256 + c) div 256 mod 256 = b"
    and "(a * 65536 + b * 256 + c) mod 256 = c"
proof -
  have n: "a * 65536 + b * 256 + c = (a * 256 + b) * 256 + c" by simp
  have d: "(a * 65536 + b * 256 + c) div 256 = a * 256 + b"
    unfolding n using assms(2) by simp
  show "(a * 65536 + b * 256 + c) div 256 mod 256 = b" unfolding d using assms(1) by simp
  show "(a * 65536 + b * 256 + c) mod 256 = c"
    unfolding n by (simp only: mod_mult_self3 mod_less [OF assms(2)])
  have "(a * 65536 + b * 256 + c) div 65536 = (a * 65536 + b * 256 + c) div 256 div 256"
    by (simp add: div_mult2_eq [symmetric])
  then show "(a * 65536 + b * 256 + c) div 65536 = a" unfolding d using assms(1) by simp
qed

lemma b64_quanta_groups:
  "list_all (\<lambda>n. n < 256) bs \<Longrightarrow>
   b64_quanta (map (\<lambda>n. n mod 64) (b64_groups bs)) = Some (map char_of bs)"
proof (induction bs rule: b64_groups.induct)
  case 1
  show ?case by simp
next
  case (2 a)
  then have "a * 16 < 4096" by simp
  then have n: "a * 16 div 64 mod 64 * 64 + a * 16 mod 64 = a * 16" by (rule regroup2)
  show ?case
    by (simp only: b64_groups.simps list.map b64_quanta.simps mod_mod_trivial n) simp
next
  case (3 a b)
  let ?n = "(a * 256 + b) * 4"
  have "?n < 262144" using 3 by simp
  then have n: "?n div 4096 mod 64 * 4096 + ?n div 64 mod 64 * 64 + ?n mod 64 = ?n"
    by (rule regroup3)
  have "(a * 256 + b) div 256 = a" and "(a * 256 + b) mod 256 = b" using 3 by simp_all
  then show ?case
    by (simp only: b64_groups.simps Let_def list.map b64_quanta.simps mod_mod_trivial n) simp
next
  case (4 a b c rest)
  let ?n = "a * 65536 + b * 256 + c"
  have "?n < 16777216" using 4 by simp
  then have n: "?n div 262144 mod 64 * 262144 + ?n div 4096 mod 64 * 4096 + ?n div 64 mod 64 * 64 +
      ?n mod 64 = ?n"
    by (rule regroup4)
  have "b < 256" and "c < 256" using 4 by simp_all
  note bytes = split_bytes [OF this, of a]
  show ?case
    using "4.IH" "4.prems"
    by (simp only: b64_groups.simps Let_def list.map b64_quanta.simps mod_mod_trivial n bytes) simp
qed

lemma b64_roundtrip: "b64_decode (b64_encode s) = Some s"
proof -
  have "list_all (\<lambda>n. n < 256) (map (of_char :: char \<Rightarrow> nat) s)"
    using of_char_less by (simp add: list_all_iff)
  then show ?thesis
    by (simp add: b64_encode_groups b64_decode_map b64_quanta_groups o_def)
qed

lemma b64_encode_length: "length (b64_encode s) = (4 * length s + 2) div 3"
proof (induction s rule: b64_encode.induct)
  case (4 a b c rest)
  then show ?case by (simp add: Let_def)
qed (simp_all add: Let_def)

section \<open>JSON of flat structs\<close>

text \<open>
  What \<^verbatim>\<open>json.Marshal\<close> writes for a string, a boolean and a struct of these. Quotes,
  backslashes, control characters and the three characters that encoding/json escapes for HTML
  become escapes; a byte above 127 is copied, which is what Go does for valid UTF-8 other than
  U+2028 and U+2029. The strings the modelled code encodes this way have passed an ASCII pattern.
\<close>

definition hex_char :: "nat \<Rightarrow> char" where
  "hex_char n = (if n < 10 then char_of (48 + n) else char_of (87 + n))"

definition json_char :: "char \<Rightarrow> string" where
  "json_char c =
     (if c = CHR 0x22 then [CHR 0x5C, CHR 0x22]
      else if c = CHR 0x5C then [CHR 0x5C, CHR 0x5C]
      else if c = CHR 0x08 then [CHR 0x5C, CHR ''b'']
      else if c = CHR 0x0C then [CHR 0x5C, CHR ''f'']
      else if c = CHR 0x0A then [CHR 0x5C, CHR ''n'']
      else if c = CHR 0x0D then [CHR 0x5C, CHR ''r'']
      else if c = CHR 0x09 then [CHR 0x5C, CHR ''t'']
      else if (of_char c :: nat) < 32 \<or> c = CHR ''<'' \<or> c = CHR ''>'' \<or> c = CHR ''&''
        then [CHR 0x5C] @ ''u00'' @ [hex_char (of_char c div 16), hex_char (of_char c mod 16)]
      else [c])"

definition json_string :: "string \<Rightarrow> string" where
  "json_string s = [CHR 0x22] @ concat (map json_char s) @ [CHR 0x22]"

definition json_bool :: "bool \<Rightarrow> string" where
  "json_bool b = (if b then ''true'' else ''false'')"

fun json_members :: "(string \<times> string) list \<Rightarrow> string" where
  "json_members [] = ''''"
| "json_members [(k, v)] = json_string k @ '':'' @ v"
| "json_members ((k, v) # kv # kvs) = json_string k @ '':'' @ v @ '','' @ json_members (kv # kvs)"

definition json_object :: "(string \<times> string) list \<Rightarrow> string" where
  "json_object kvs = ''{'' @ json_members kvs @ ''}''"


section \<open>JSON strings can be read back\<close>

lemma hex_char_inj: "m < 16 \<Longrightarrow> n < 16 \<Longrightarrow> hex_char m = hex_char n \<Longrightarrow> m = n"
proof -
  assume mn: "m < 16" "n < 16" and eq: "hex_char m = hex_char n"
  have "(of_char (hex_char k) :: nat) = (if k < 10 then 48 + k else 87 + k)" if "k < 16" for k
    using that by (simp add: hex_char_def)
  with mn arg_cong [OF eq, of "of_char :: char \<Rightarrow> nat"] show ?thesis by (auto split: if_splits)
qed

lemma hex_pair_inj:
  assumes "hex_char (of_char c div 16) = hex_char (of_char d div 16)" and "hex_char (of_char c mod 16) = hex_char (of_char d mod 16)"
  shows "c = d"
proof -
  have "of_char c div 16 = (of_char d div 16 :: nat)"
    using assms(1) of_char_less [of c] of_char_less [of d] by (intro hex_char_inj) (simp_all add: less_mult_imp_div_less)
  moreover have "of_char c mod 16 = (of_char d mod 16 :: nat)" using assms(2) by (intro hex_char_inj) auto
  ultimately have "(of_char c :: nat) = of_char d" by (metis div_mult_mod_eq)
  then show ?thesis by simp
qed

lemma json_char_head: "\<exists>a r. json_char c = a # r \<and> a \<noteq> CHR 0x22"
  by (simp add: json_char_def)

lemma json_char_cases:
  obtains (short) e where "(c, e) \<in> set (zip [CHR 0x22, CHR 0x5C, CHR 0x08, CHR 0x0C, CHR 0x0A, CHR 0x0D, CHR 0x09]
        [CHR 0x22, CHR 0x5C, CHR ''b'', CHR ''f'', CHR ''n'', CHR ''r'', CHR ''t''])" "json_char c = [CHR 0x5C, e]"
  | (hex) "json_char c = [CHR 0x5C, CHR ''u'', CHR ''0'', CHR ''0'', hex_char (of_char c div 16), hex_char (of_char c mod 16)]"
  | (plain) "json_char c = [c]" "c \<noteq> CHR 0x5C"
proof (cases "c \<in> set [CHR 0x22, CHR 0x5C, CHR 0x08, CHR 0x0C, CHR 0x0A, CHR 0x0D, CHR 0x09]")
  case True
  then show ?thesis by (auto simp: json_char_def intro: short)
next
  case False
  show ?thesis
  proof (cases "(of_char c :: nat) < 32 \<or> c = CHR ''<'' \<or> c = CHR ''>'' \<or> c = CHR ''&''")
    case True
    with False show ?thesis by (intro hex) (auto simp: json_char_def)
  next
    case plain_c: False
    with False show ?thesis by (intro plain) (auto simp: json_char_def)
  qed
qed

lemma json_char_prefix:
  assumes "json_char c @ u = json_char d @ v"
  shows "c = d \<and> u = v"
proof (cases c rule: json_char_cases)
  case (short e)
  then show ?thesis using assms by (cases d rule: json_char_cases) auto
next
  case hex
  then show ?thesis using assms by (cases d rule: json_char_cases) (auto dest: hex_pair_inj)
next
  case plain
  then show ?thesis using assms by (cases d rule: json_char_cases) auto
qed

lemma json_string_prefix: "json_string s @ u = json_string t @ v \<Longrightarrow> s = t \<and> u = v"
proof -
  have "s = t \<and> u = v" if "concat (map json_char s) @ CHR 0x22 # u = concat (map json_char t) @ CHR 0x22 # v"
    using that
  proof (induction s arbitrary: t)
    case Nil
    then show ?case using json_char_head by (cases t) (auto, metis append_Cons list.inject)
  next
    case (Cons c s)
    show ?case
    proof (cases t)
      case Nil
      with Cons.prems json_char_head [of c] show ?thesis by auto
    next
      case (Cons d t')
      with Cons.prems have "c = d \<and> concat (map json_char s) @ CHR 0x22 # u = concat (map json_char t') @ CHR 0x22 # v"
        by (intro json_char_prefix) simp
      with Cons.IH Cons show ?thesis by blast
    qed
  qed
  then show "json_string s @ u = json_string t @ v \<Longrightarrow> s = t \<and> u = v" by (simp add: json_string_def)
qed

end
