(* ===== verification/Action_Envelope.thy ===== *)
theory Action_Envelope
  imports Go_Strings
begin

text \<open>
  The package \<^verbatim>\<open>internal/action\<close> (envelope.go): the signed action envelope, its
  validation, the signing key sets, sealing and verification.

  What the code takes from other packages is an argument of the definitions: \<open>canon\<close> is
  \<open>canonicalJSON\<close> (encoding/json followed by the third-party JCS canonicalizer; \<open>None\<close> is its
  error), \<open>sha\<close> is SHA-256 printed in hexadecimal, \<open>edverify\<close> and \<open>edsign\<close> are Ed25519.
  Validation errors are formatted messages in the code and constructors of \<open>fault\<close> here, one per
  check; a validation is the list of its checks and fails with the first one that does.
  An instant with a zone is its UTC instant and the zone's offset.
\<close>

section \<open>The data model\<close>

datatype ActionType =
    ActionKubernetesRolloutRestart | ActionKubernetesScale | ActionGitOpsRevert
  | ActionAWXServiceRestart | ActionRaw string

datatype fault =
    UnsupportedSchema | InvalidIdentity | InvalidTraceID | TimesRequired | TimesNotUTC
  | ValidityWindow | MappingNotExact | InvalidCredentialScope | CredentialTTL
  | InvalidVerificationPlan | InvalidCompensationPlan | InvalidRisk | RiskNotSorted
  | RiskReasonInvalid | InvalidPlanHash | InvalidSignatureMetadata | InvalidSignatureEncoding
  | NotOneTarget | InvalidTargetIds | NotOneParameterSet | NotOneObservedState
  | ParametersMismatch | UnsupportedAction | InvalidTarget | InvalidTargetName
  | InvalidParameters | ScaleOutOfRange | ScaleUnchecked | InvalidGeneration | InvalidObserved
  | ResourceVersionMismatch | InvalidPrecondition | HeadMismatch | InvalidVerificationMode
  | CredentialMismatch

datatype action_error =
    InvalidEnvelope fault | ErrPlanHashMismatch | ErrInvalidSignature | ErrEnvelopeExpired
  | ErrEnvelopeNotActive | ErrUnknownSigningKey | ErrSigningKeyRevoked | ErrSigningKeyInactive
  | ResolverRequired | CanonicalizationFailed | SignerRequired | RequesterMismatch | SigningFailed action_error
  | SignatureLength | InvalidKeyRecord | ActionCtx ctx_error

record zoned_time =
  zt_instant :: time
  zt_offset :: int

record KubernetesDeploymentTarget =
  kt_ClusterID :: string
  kt_Namespace :: string
  kt_Name :: string
  kt_UID :: string
  kt_ResourceVersion :: string

record GitOpsTarget =
  gt_RepositoryID :: string
  gt_Application :: string
  gt_Path :: string

record AWXTarget =
  at_InventoryID :: int
  at_HostIDs :: "int list"
  at_InventorySnapshotSHA256 :: string
  at_JobTemplateSnapshotSHA256 :: string

record TargetRef =
  tr_ServiceID :: string
  tr_EnvironmentID :: string
  tr_KubernetesDeployment :: "KubernetesDeploymentTarget option"
  tr_GitOpsApplication :: "GitOpsTarget option"
  tr_AWXHosts :: "AWXTarget option"

record KubernetesRolloutRestartParameters =
  krp_Reason :: string

record KubernetesScaleParameters =
  ksp_Replicas :: int
  ksp_Minimum :: int
  ksp_Maximum :: int
  ksp_HPAAbsent :: bool
  ksp_PDBChecked :: bool
  ksp_QuotaChecked :: bool

record GitOpsRevertParameters =
  grp_Provider :: string
  grp_BaseCommit :: string
  grp_HeadCommit :: string
  grp_RevertCommit :: string
  grp_DiffSHA256 :: string
  grp_TreeSHA256 :: string

record AWXServiceRestartParameters =
  arp_JobTemplateID :: int
  arp_ServiceName :: string
  arp_OSFamily :: string
  arp_Serial :: int

record ActionParameters =
  ap_KubernetesRolloutRestart :: "KubernetesRolloutRestartParameters option"
  ap_KubernetesScale :: "KubernetesScaleParameters option"
  ap_GitOpsRevert :: "GitOpsRevertParameters option"
  ap_AWXServiceRestart :: "AWXServiceRestartParameters option"

record KubernetesDeploymentObservedState =
  ko_Generation :: int
  ko_Replicas :: int
  ko_AvailableReplicas :: int
  ko_UpdatedReplicas :: int

record GitOpsObservedState =
  go_LiveRevision :: string
  go_DesiredRevision :: string
  go_HeadTreeSHA256 :: string
  go_SyncStatus :: string
  go_HealthStatus :: string

record AWXServiceObservedState =
  ao_HostCount :: int
  ao_ServiceState :: string
  ao_InventorySnapshotSHA256 :: string
  ao_ServiceStateSnapshotSHA256 :: string

record ObservedState =
  os_KubernetesDeployment :: "KubernetesDeploymentObservedState option"
  os_GitOpsApplication :: "GitOpsObservedState option"
  os_AWXService :: "AWXServiceObservedState option"

record Preconditions =
  pc_MappingResult :: string
  pc_ExpectedResourceVersion :: string
  pc_ExpectedGitHeadCommit :: string
  pc_RequireWhitelist :: bool

record VerificationPlan =
  vp_Mode :: string
  vp_TimeoutSeconds :: int

record CompensationPlan =
  cp_Mode :: string
  cp_Summary :: string

record RiskAssessment =
  ra_Level :: string
  ra_ReasonCodes :: "string list"

record CredentialScope =
  cs_ConnectorID :: string
  cs_Permission :: string
  cs_Resource :: string
  cs_TTLSeconds :: int

record Signature =
  sg_Algorithm :: string
  sg_KeyID :: string
  sg_Value :: string

record Envelope =
  en_SchemaVersion :: string
  en_ActionID :: string
  en_WorkspaceID :: string
  en_IncidentID :: string
  en_RequestedBy :: string
  en_ActionType :: ActionType
  en_Target :: TargetRef
  en_Parameters :: ActionParameters
  en_ObservedState :: ObservedState
  en_Preconditions :: Preconditions
  en_Verification :: VerificationPlan
  en_Compensation :: CompensationPlan
  en_Risk :: RiskAssessment
  en_PolicyVersion :: string
  en_PlanHash :: string
  en_CredentialScope :: CredentialScope
  en_IdempotencyKey :: string
  en_NotBefore :: zoned_time
  en_ExpiresAt :: zoned_time
  en_TraceID :: string
  en_Signature :: Signature

definition zero_Signature :: Signature where
  "zero_Signature = \<lparr>sg_Algorithm = '''', sg_KeyID = '''', sg_Value = ''''\<rparr>"

definition SchemaVersionV1 :: string where "SchemaVersionV1 = ''action-envelope.v1''"
definition SignatureEd25519 :: string where "SignatureEd25519 = ''Ed25519''"
definition MaxEnvelopeValidity :: duration where "MaxEnvelopeValidity = 30 * Minute"
definition MaxCredentialTTL :: duration where "MaxCredentialTTL = 15 * Minute"
definition MaxAWXHosts :: nat where "MaxAWXHosts = 10"
definition maxJCSSafeInteger :: int where "maxJCSSafeInteger = 9007199254740991"

section \<open>Patterns and small validators\<close>

definition fail_if :: "bool \<Rightarrow> 'e \<Rightarrow> 'e option" where
  "fail_if bad err = (if bad then Some err else None)"

fun first_error :: "'e option list \<Rightarrow> 'e option" where
  "first_error [] = None"
| "first_error (Some e # es) = Some e"
| "first_error (None # es) = first_error es"

lemma first_error_None: "first_error es = None \<longleftrightarrow> list_all (\<lambda>e. e = None) es"
  by (induction es rule: first_error.induct) auto

lemma fail_if_None [simp]: "fail_if bad err = None \<longleftrightarrow> \<not> bad"
  by (simp add: fail_if_def)

definition validToken :: "string \<Rightarrow> bool" where
  "validToken s \<longleftrightarrow> match_identifier s \<and> length s \<le> 256"

definition kubernetesPattern :: "string \<Rightarrow> bool" where
  "kubernetesPattern s \<longleftrightarrow> s \<noteq> '''' \<and> (is_lower (hd s) \<or> is_digit (hd s)) \<and>
     (is_lower (last s) \<or> is_digit (last s)) \<and>
     list_all (\<lambda>c. is_lower c \<or> is_digit c \<or> c = CHR ''-'' \<or> c = CHR ''.'') s"

definition serviceNamePattern :: "string \<Rightarrow> bool" where
  "serviceNamePattern s \<longleftrightarrow> s \<noteq> '''' \<and> length s \<le> 128 \<and> is_alnum (hd s) \<and>
     list_all (\<lambda>c. is_alnum c \<or> c \<in> set ''_.@-'') (tl s)"

definition gitOIDPattern :: "string \<Rightarrow> bool" where
  "gitOIDPattern s \<longleftrightarrow> match_hex 40 s \<or> match_hex 64 s"

definition repoPathPattern :: "string \<Rightarrow> bool" where
  "repoPathPattern s \<longleftrightarrow> s \<noteq> '''' \<and> list_all (\<lambda>c. is_alnum c \<or> c \<in> set ''._/-'') s"

definition oneOf :: "string \<Rightarrow> string list \<Rightarrow> bool" where
  "oneOf value allowed \<longleftrightarrow> value \<in> set allowed"

definition countNonNil :: "bool list \<Rightarrow> nat" where
  "countNonNil bs = length (filter id bs)"

definition safePositiveInteger :: "int \<Rightarrow> bool" where
  "safePositiveInteger v \<longleftrightarrow> 0 < v \<and> v \<le> maxJCSSafeInteger"

fun strictlyIncreasingPositive :: "int list \<Rightarrow> bool" where
  "strictlyIncreasingPositive [] = True"
| "strictlyIncreasingPositive [v] = safePositiveInteger v"
| "strictlyIncreasingPositive (v # w # vs) =
     (safePositiveInteger v \<and> v < w \<and> strictlyIncreasingPositive (w # vs))"

definition validRepositoryPath :: "string \<Rightarrow> bool" where
  "validRepositoryPath value \<longleftrightarrow>
     \<not> (value = '''' \<or> 512 < length value \<or> \<not> repoPathPattern value \<or> hd value = CHR ''/'' \<or>
        path_Clean value \<noteq> value \<or> value = ''.'') \<and>
     (let segments = split_slash value
      in take 1 (hd segments) \<noteq> ''-'' \<and>
         list_all (\<lambda>g. \<not> (g = '''' \<or> g = ''.'' \<or> g = ''..'' \<or> EqualFold g ''.git'')) segments)"

definition kubernetesCredentialResource :: "KubernetesDeploymentTarget \<Rightarrow> string" where
  "kubernetesCredentialResource t =
     kt_ClusterID t @ ''/'' @ kt_Namespace t @ ''/deployment/'' @ kt_Name t"

definition validateTimes :: "zoned_time \<Rightarrow> zoned_time \<Rightarrow> fault option" where
  "validateTimes notBefore expiresAt =
     (let validity = time_Sub (zt_instant expiresAt) (zt_instant notBefore) in first_error
      [fail_if (IsZero (zt_instant notBefore) \<or> IsZero (zt_instant expiresAt)) TimesRequired,
       fail_if (zt_offset notBefore \<noteq> 0 \<or> zt_offset expiresAt \<noteq> 0) TimesNotUTC,
       fail_if (validity \<le> 0 \<or> MaxEnvelopeValidity < validity) ValidityWindow])"

definition CredentialScope_validate :: "CredentialScope \<Rightarrow> duration \<Rightarrow> fault option" where
  "CredentialScope_validate c validity =
     (let ttl = cs_TTLSeconds c * Second in first_error
      [fail_if (\<not> validToken (cs_ConnectorID c) \<or> \<not> validToken (cs_Permission c) \<or>
         \<not> validToken (cs_Resource c)) InvalidCredentialScope,
       fail_if (ttl \<le> 0 \<or> MaxCredentialTTL < ttl \<or> validity < ttl) CredentialTTL])"

definition VerificationPlan_validate :: "VerificationPlan \<Rightarrow> fault option" where
  "VerificationPlan_validate p = fail_if
     (\<not> oneOf (vp_Mode p) [''KUBERNETES_ROLLOUT'', ''ARGO_CD_HEALTH'', ''AWX_SERVICE_HEALTH''] \<or>
      vp_TimeoutSeconds p \<le> 0 \<or> 900 < vp_TimeoutSeconds p) InvalidVerificationPlan"

definition CompensationPlan_validate :: "CompensationPlan \<Rightarrow> fault option" where
  "CompensationPlan_validate p = fail_if
     (\<not> oneOf (cp_Mode p) [''MANUAL_ONLY'', ''PROPOSE_ONLY''] \<or> trims_to_empty (cp_Summary p) \<or>
      1000 < length (cp_Summary p)) InvalidCompensationPlan"

fun reasons_ok :: "string option \<Rightarrow> string list \<Rightarrow> bool" where
  "reasons_ok prev [] = True"
| "reasons_ok prev (r # rs) = (validToken r \<and> prev \<noteq> Some r \<and> reasons_ok (Some r) rs)"

definition RiskAssessment_validate :: "RiskAssessment \<Rightarrow> fault option" where
  "RiskAssessment_validate r = first_error
     [fail_if (\<not> oneOf (ra_Level r) [''LOW'', ''MEDIUM'', ''HIGH''] \<or> ra_ReasonCodes r = [] \<or>
        16 < length (ra_ReasonCodes r)) InvalidRisk,
      fail_if (\<not> sorted (ra_ReasonCodes r)) RiskNotSorted,
      fail_if (\<not> reasons_ok None (ra_ReasonCodes r)) RiskReasonInvalid]"

definition Signature_validateOptional :: "Signature \<Rightarrow> fault option" where
  "Signature_validateOptional g =
     (if g = zero_Signature then None
      else first_error
        [fail_if (sg_Algorithm g \<noteq> SignatureEd25519 \<or> \<not> validToken (sg_KeyID g) \<or>
           sg_Value g = '''' \<or> 256 < length (sg_Value g)) InvalidSignatureMetadata,
         fail_if (case b64_decode (sg_Value g) of None \<Rightarrow> True | Some d \<Rightarrow> length d \<noteq> 64)
           InvalidSignatureEncoding])"

definition KubernetesDeploymentTarget_validate :: "KubernetesDeploymentTarget \<Rightarrow> fault option" where
  "KubernetesDeploymentTarget_validate t = first_error
     [fail_if (\<not> validToken (kt_ClusterID t) \<or> \<not> validToken (kt_UID t) \<or>
        \<not> validToken (kt_ResourceVersion t)) InvalidTarget,
      fail_if (63 < length (kt_Namespace t) \<or> 253 < length (kt_Name t) \<or>
        \<not> kubernetesPattern (kt_Namespace t) \<or> \<not> kubernetesPattern (kt_Name t)) InvalidTargetName]"

definition KubernetesDeploymentObservedState_validate ::
  "KubernetesDeploymentObservedState \<Rightarrow> fault option" where
  "KubernetesDeploymentObservedState_validate o1 = first_error
     [fail_if (\<not> safePositiveInteger (ko_Generation o1)) InvalidGeneration,
      fail_if (ko_Replicas o1 < 0 \<or> ko_AvailableReplicas o1 < 0 \<or> ko_UpdatedReplicas o1 < 0 \<or>
        ko_Replicas o1 < ko_AvailableReplicas o1 \<or> ko_Replicas o1 < ko_UpdatedReplicas o1)
        InvalidObserved]"

definition validateCredentialBinding :: "Envelope \<Rightarrow> string \<Rightarrow> string \<Rightarrow> fault option" where
  "validateCredentialBinding e permission resource = fail_if
     (cs_Permission (en_CredentialScope e) \<noteq> permission \<or>
      cs_Resource (en_CredentialScope e) \<noteq> resource) CredentialMismatch"

section \<open>Validation\<close>

definition validateKubernetesRestart ::
  "Envelope \<Rightarrow> KubernetesDeploymentTarget \<Rightarrow> KubernetesRolloutRestartParameters \<Rightarrow>
   KubernetesDeploymentObservedState \<Rightarrow> fault option" where
  "validateKubernetesRestart e t p o1 = first_error
     [KubernetesDeploymentTarget_validate t,
      fail_if (trims_to_empty (krp_Reason p) \<or> 500 < length (krp_Reason p)) InvalidParameters,
      KubernetesDeploymentObservedState_validate o1,
      fail_if (pc_ExpectedResourceVersion (en_Preconditions e) \<noteq> kt_ResourceVersion t)
        ResourceVersionMismatch,
      fail_if (pc_ExpectedGitHeadCommit (en_Preconditions e) \<noteq> '''' \<or>
        vp_Mode (en_Verification e) \<noteq> ''KUBERNETES_ROLLOUT'') InvalidPrecondition,
      validateCredentialBinding e ''PATCH_DEPLOYMENT_RESTART'' (kubernetesCredentialResource t)]"

definition validateKubernetesScale ::
  "Envelope \<Rightarrow> KubernetesDeploymentTarget \<Rightarrow> KubernetesScaleParameters \<Rightarrow>
   KubernetesDeploymentObservedState \<Rightarrow> fault option" where
  "validateKubernetesScale e t p o1 = first_error
     [KubernetesDeploymentTarget_validate t,
      fail_if (ksp_Minimum p < 0 \<or> ksp_Maximum p < ksp_Minimum p \<or>
        ksp_Replicas p < ksp_Minimum p \<or> ksp_Maximum p < ksp_Replicas p) ScaleOutOfRange,
      fail_if (\<not> ksp_HPAAbsent p \<or> \<not> ksp_PDBChecked p \<or> \<not> ksp_QuotaChecked p) ScaleUnchecked,
      KubernetesDeploymentObservedState_validate o1,
      fail_if (pc_ExpectedResourceVersion (en_Preconditions e) \<noteq> kt_ResourceVersion t \<or>
        vp_Mode (en_Verification e) \<noteq> ''KUBERNETES_ROLLOUT'') InvalidPrecondition,
      validateCredentialBinding e ''PATCH_DEPLOYMENT_SCALE'' (kubernetesCredentialResource t)]"

definition validateGitOpsRevert ::
  "Envelope \<Rightarrow> GitOpsTarget \<Rightarrow> GitOpsRevertParameters \<Rightarrow> GitOpsObservedState \<Rightarrow> fault option" where
  "validateGitOpsRevert e t p o1 = first_error
     [fail_if (\<not> validToken (gt_RepositoryID t) \<or> \<not> validToken (gt_Application t) \<or>
        \<not> validRepositoryPath (gt_Path t)) InvalidTarget,
      fail_if (grp_Provider p \<noteq> ''GITLAB'' \<and> grp_Provider p \<noteq> ''GITHUB'') InvalidParameters,
      fail_if (\<not> gitOIDPattern (grp_BaseCommit p) \<or> \<not> gitOIDPattern (grp_HeadCommit p) \<or>
        \<not> gitOIDPattern (grp_RevertCommit p) \<or> \<not> match_hex 64 (grp_DiffSHA256 p) \<or>
        \<not> match_hex 64 (grp_TreeSHA256 p)) InvalidParameters,
      fail_if (\<not> gitOIDPattern (go_LiveRevision o1) \<or> \<not> gitOIDPattern (go_DesiredRevision o1) \<or>
        \<not> match_hex 64 (go_HeadTreeSHA256 o1) \<or>
        \<not> oneOf (go_SyncStatus o1) [''SYNCED'', ''OUT_OF_SYNC''] \<or>
        \<not> oneOf (go_HealthStatus o1)
            [''HEALTHY'', ''DEGRADED'', ''PROGRESSING'', ''MISSING'', ''UNKNOWN'']) InvalidObserved,
      fail_if (grp_HeadCommit p \<noteq> go_DesiredRevision o1 \<or>
        grp_HeadCommit p \<noteq> pc_ExpectedGitHeadCommit (en_Preconditions e) \<or>
        pc_ExpectedResourceVersion (en_Preconditions e) \<noteq> '''') HeadMismatch,
      fail_if (vp_Mode (en_Verification e) \<noteq> ''ARGO_CD_HEALTH'') InvalidVerificationMode,
      validateCredentialBinding e ''CREATE_REVERT_MR'' (gt_RepositoryID t)]"

definition validateAWXRestart ::
  "Envelope \<Rightarrow> AWXTarget \<Rightarrow> AWXServiceRestartParameters \<Rightarrow> AWXServiceObservedState \<Rightarrow>
   fault option" where
  "validateAWXRestart e t p o1 = first_error
     [fail_if (\<not> safePositiveInteger (at_InventoryID t) \<or> at_HostIDs t = [] \<or>
        MaxAWXHosts < length (at_HostIDs t) \<or> \<not> strictlyIncreasingPositive (at_HostIDs t) \<or>
        \<not> match_hex 64 (at_InventorySnapshotSHA256 t) \<or>
        \<not> match_hex 64 (at_JobTemplateSnapshotSHA256 t)) InvalidTarget,
      fail_if (\<not> safePositiveInteger (arp_JobTemplateID p) \<or> \<not> serviceNamePattern (arp_ServiceName p) \<or>
        \<not> oneOf (arp_OSFamily p) [''LINUX_SYSTEMD'', ''WINDOWS_SERVICE''] \<or> arp_Serial p \<noteq> 1)
        InvalidParameters,
      fail_if (ao_HostCount o1 \<noteq> int (length (at_HostIDs t)) \<or>
        \<not> oneOf (ao_ServiceState o1) [''RUNNING'', ''STOPPED'', ''DEGRADED'', ''UNKNOWN''] \<or>
        ao_InventorySnapshotSHA256 o1 \<noteq> at_InventorySnapshotSHA256 t \<or>
        \<not> match_hex 64 (ao_ServiceStateSnapshotSHA256 o1)) InvalidObserved,
      fail_if (pc_ExpectedResourceVersion (en_Preconditions e) \<noteq> '''' \<or>
        pc_ExpectedGitHeadCommit (en_Preconditions e) \<noteq> '''' \<or>
        vp_Mode (en_Verification e) \<noteq> ''AWX_SERVICE_HEALTH'') InvalidPrecondition,
      validateCredentialBinding e ''LAUNCH_SERVICE_RESTART_TEMPLATE''
        (''inventory/'' @ FormatInt (at_InventoryID t) @ ''/job-template/'' @
         FormatInt (arp_JobTemplateID p))]"

text \<open>
  The switch over the action type: the three members of the unions that belong to it must be
  present, and are handed to the validator of that type.
\<close>

definition validateAction :: "Envelope \<Rightarrow> fault option" where
  "validateAction e =
     (case en_ActionType e of
        ActionKubernetesRolloutRestart \<Rightarrow>
          (case (tr_KubernetesDeployment (en_Target e), ap_KubernetesRolloutRestart (en_Parameters e),
                 os_KubernetesDeployment (en_ObservedState e)) of
             (Some t, Some p, Some o1) \<Rightarrow> validateKubernetesRestart e t p o1
           | _ \<Rightarrow> Some ParametersMismatch)
      | ActionKubernetesScale \<Rightarrow>
          (case (tr_KubernetesDeployment (en_Target e), ap_KubernetesScale (en_Parameters e),
                 os_KubernetesDeployment (en_ObservedState e)) of
             (Some t, Some p, Some o1) \<Rightarrow> validateKubernetesScale e t p o1
           | _ \<Rightarrow> Some ParametersMismatch)
      | ActionGitOpsRevert \<Rightarrow>
          (case (tr_GitOpsApplication (en_Target e), ap_GitOpsRevert (en_Parameters e),
                 os_GitOpsApplication (en_ObservedState e)) of
             (Some t, Some p, Some o1) \<Rightarrow> validateGitOpsRevert e t p o1
           | _ \<Rightarrow> Some ParametersMismatch)
      | ActionAWXServiceRestart \<Rightarrow>
          (case (tr_AWXHosts (en_Target e), ap_AWXServiceRestart (en_Parameters e),
                 os_AWXService (en_ObservedState e)) of
             (Some t, Some p, Some o1) \<Rightarrow> validateAWXRestart e t p o1
           | _ \<Rightarrow> Some ParametersMismatch)
      | ActionRaw _ \<Rightarrow> Some UnsupportedAction)"

definition Validate :: "Envelope \<Rightarrow> fault option" where
  "Validate e = first_error
     [fail_if (en_SchemaVersion e \<noteq> SchemaVersionV1) UnsupportedSchema,
      fail_if (\<not> list_all validToken [en_ActionID e, en_WorkspaceID e, en_IncidentID e,
        en_RequestedBy e, en_PolicyVersion e, en_IdempotencyKey e]) InvalidIdentity,
      fail_if (\<not> match_hex 32 (en_TraceID e)) InvalidTraceID,
      validateTimes (en_NotBefore e) (en_ExpiresAt e),
      fail_if (pc_MappingResult (en_Preconditions e) \<noteq> ''EXACT'' \<or>
        \<not> pc_RequireWhitelist (en_Preconditions e)) MappingNotExact,
      CredentialScope_validate (en_CredentialScope e)
        (time_Sub (zt_instant (en_ExpiresAt e)) (zt_instant (en_NotBefore e))),
      VerificationPlan_validate (en_Verification e),
      CompensationPlan_validate (en_Compensation e),
      RiskAssessment_validate (en_Risk e),
      fail_if (en_PlanHash e \<noteq> '''' \<and> \<not> match_hex 64 (en_PlanHash e)) InvalidPlanHash,
      Signature_validateOptional (en_Signature e),
      fail_if (countNonNil [tr_KubernetesDeployment (en_Target e) \<noteq> None,
        tr_GitOpsApplication (en_Target e) \<noteq> None, tr_AWXHosts (en_Target e) \<noteq> None] \<noteq> 1)
        NotOneTarget,
      fail_if (\<not> validToken (tr_ServiceID (en_Target e)) \<or>
        \<not> validToken (tr_EnvironmentID (en_Target e))) InvalidTargetIds,
      fail_if (countNonNil [ap_KubernetesRolloutRestart (en_Parameters e) \<noteq> None,
        ap_KubernetesScale (en_Parameters e) \<noteq> None, ap_GitOpsRevert (en_Parameters e) \<noteq> None,
        ap_AWXServiceRestart (en_Parameters e) \<noteq> None] \<noteq> 1) NotOneParameterSet,
      fail_if (countNonNil [os_KubernetesDeployment (en_ObservedState e) \<noteq> None,
        os_GitOpsApplication (en_ObservedState e) \<noteq> None,
        os_AWXService (en_ObservedState e) \<noteq> None] \<noteq> 1) NotOneObservedState,
      validateAction e]"

definition ValidateAt :: "Envelope \<Rightarrow> time \<Rightarrow> action_error option" where
  "ValidateAt e t =
     (case Validate e of Some f \<Rightarrow> Some (InvalidEnvelope f) | None \<Rightarrow>
      if \<not> Before t (zt_instant (en_ExpiresAt e)) then Some ErrEnvelopeExpired
      else if Before t (zt_instant (en_NotBefore e)) then Some ErrEnvelopeNotActive
      else None)"

section \<open>Signing keys\<close>

record KeyRecord =
  kr_PublicKey :: string
  kr_Revoked :: bool
  kr_ActiveAt :: time
  kr_RetireAt :: time

record Signer =
  si_KeyID :: string
  si_Sign :: "ctx_error option \<Rightarrow> string \<Rightarrow> action_error + string"

definition Ed25519Signer_Sign ::
  "(string \<Rightarrow> string \<Rightarrow> string) \<Rightarrow> string \<Rightarrow> ctx_error option \<Rightarrow> string \<Rightarrow> action_error + string" where
  "Ed25519Signer_Sign edsign privateKey ctx message =
     (case ctx of Some c \<Rightarrow> Inl (ActionCtx c) | None \<Rightarrow> Inr (edsign privateKey message))"

definition NewEd25519Signer ::
  "(string \<Rightarrow> string \<Rightarrow> string) \<Rightarrow> string \<Rightarrow> string \<Rightarrow> action_error + Signer" where
  "NewEd25519Signer edsign keyID privateKey =
     (if \<not> validToken keyID \<or> length privateKey \<noteq> 64 then Inl SignerRequired
      else Inr \<lparr>si_KeyID = keyID, si_Sign = Ed25519Signer_Sign edsign privateKey\<rparr>)"

definition invalid_key_record :: "string \<Rightarrow> KeyRecord \<Rightarrow> bool" where
  "invalid_key_record keyID r \<longleftrightarrow> \<not> validToken keyID \<or> length (kr_PublicKey r) \<noteq> 32 \<or>
     (\<not> IsZero (kr_RetireAt r) \<and> \<not> IsZero (kr_ActiveAt r) \<and> \<not> Before (kr_ActiveAt r) (kr_RetireAt r))"

definition cloneKeyRecords :: "KeyRecord gomap \<Rightarrow> action_error + KeyRecord gomap" where
  "cloneKeyRecords records =
     (if gany invalid_key_record records then Inl InvalidKeyRecord else Inr records)"

text \<open>A static key set may be a nil pointer; a rotating one can be replaced.\<close>

definition NewStaticKeySet :: "KeyRecord gomap \<Rightarrow> action_error + KeyRecord gomap" where
  "NewStaticKeySet records = cloneKeyRecords records"

definition StaticKeySet_Resolve ::
  "ctx_error option \<Rightarrow> KeyRecord gomap option \<Rightarrow> string \<Rightarrow> action_error + KeyRecord" where
  "StaticKeySet_Resolve ctx keys keyID =
     (case ctx of Some c \<Rightarrow> Inl (ActionCtx c) | None \<Rightarrow>
      case keys of None \<Rightarrow> Inl ErrUnknownSigningKey | Some records \<Rightarrow>
      case gget records keyID of None \<Rightarrow> Inl ErrUnknownSigningKey | Some r \<Rightarrow> Inr r)"

definition NewRotatingKeySet :: "KeyRecord gomap \<Rightarrow> action_error + KeyRecord gomap" where
  "NewRotatingKeySet records = cloneKeyRecords records"

definition RotatingKeySet_Replace ::
  "KeyRecord gomap \<Rightarrow> KeyRecord gomap \<Rightarrow> KeyRecord gomap \<times> action_error option" where
  "RotatingKeySet_Replace records keys =
     (case cloneKeyRecords records of Inl err \<Rightarrow> (keys, Some err) | Inr cloned \<Rightarrow> (cloned, None))"

definition RotatingKeySet_Resolve ::
  "ctx_error option \<Rightarrow> KeyRecord gomap \<Rightarrow> string \<Rightarrow> action_error + KeyRecord" where
  "RotatingKeySet_Resolve ctx keys keyID =
     (case ctx of Some c \<Rightarrow> Inl (ActionCtx c) | None \<Rightarrow>
      case gget keys keyID of None \<Rightarrow> Inl ErrUnknownSigningKey | Some r \<Rightarrow> Inr r)"

section \<open>Sealing and verifying\<close>

definition calculatePlanHash ::
  "(Envelope \<Rightarrow> string option) \<Rightarrow> (string \<Rightarrow> string) \<Rightarrow> Envelope \<Rightarrow> action_error + string" where
  "calculatePlanHash canon sha e =
     (case canon (e\<lparr>en_PlanHash := '''', en_Signature := zero_Signature\<rparr>) of
        None \<Rightarrow> Inl CanonicalizationFailed | Some c \<Rightarrow> Inr (sha c))"

definition canonicalSigningMessage ::
  "(Envelope \<Rightarrow> string option) \<Rightarrow> Envelope \<Rightarrow> action_error + string" where
  "canonicalSigningMessage canon e =
     (case canon (e\<lparr>en_Signature := (en_Signature e)\<lparr>sg_Value := ''''\<rparr>\<rparr>) of
        None \<Rightarrow> Inl CanonicalizationFailed | Some c \<Rightarrow> Inr c)"

definition Seal ::
  "ctx_error option \<Rightarrow> (Envelope \<Rightarrow> string option) \<Rightarrow> (string \<Rightarrow> string) \<Rightarrow> Signer option \<Rightarrow> string \<Rightarrow> Envelope \<Rightarrow>
   action_error + Envelope" where
  "Seal ctx canon sha signer authenticatedRequester e0 =
     (case signer of None \<Rightarrow> Inl SignerRequired | Some sg \<Rightarrow>
      if \<not> validToken (si_KeyID sg) \<or> \<not> validToken authenticatedRequester then Inl SignerRequired
      else if en_RequestedBy e0 \<noteq> '''' \<and> en_RequestedBy e0 \<noteq> authenticatedRequester
      then Inl RequesterMismatch
      else let e1 = e0\<lparr>en_RequestedBy := authenticatedRequester, en_PlanHash := '''',
                       en_Signature := zero_Signature\<rparr>
      in case Validate e1 of Some f \<Rightarrow> Inl (InvalidEnvelope f) | None \<Rightarrow>
      case calculatePlanHash canon sha e1 of Inl err \<Rightarrow> Inl err | Inr planHash \<Rightarrow>
      let e2 = e1\<lparr>en_PlanHash := planHash,
                  en_Signature := zero_Signature\<lparr>sg_Algorithm := SignatureEd25519,
                    sg_KeyID := si_KeyID sg\<rparr>\<rparr>
      in case canonicalSigningMessage canon e2 of Inl err \<Rightarrow> Inl err | Inr message \<Rightarrow>
      case si_Sign sg ctx message of Inl err \<Rightarrow> Inl (SigningFailed err) | Inr signature \<Rightarrow>
      if length signature \<noteq> 64 then Inl SignatureLength
      else Inr (e2\<lparr>en_Signature := (en_Signature e2)\<lparr>sg_Value := b64_encode signature\<rparr>\<rparr>))"

definition Verify ::
  "(Envelope \<Rightarrow> string option) \<Rightarrow> (string \<Rightarrow> string) \<Rightarrow> (string \<Rightarrow> string \<Rightarrow> string \<Rightarrow> bool) \<Rightarrow>
   (string \<Rightarrow> action_error + KeyRecord) option \<Rightarrow> Envelope \<Rightarrow> time \<Rightarrow> action_error option" where
  "Verify canon sha edverify resolver e t =
     (case resolver of None \<Rightarrow> Some ResolverRequired | Some resolve \<Rightarrow>
      case Validate e of Some f \<Rightarrow> Some (InvalidEnvelope f) | None \<Rightarrow>
      if \<not> Before t (zt_instant (en_ExpiresAt e)) then Some ErrEnvelopeExpired
      else if Before t (zt_instant (en_NotBefore e)) then Some ErrEnvelopeNotActive
      else if en_PlanHash e = '''' \<or> en_Signature e = zero_Signature then Some ErrInvalidSignature
      else case Signature_validateOptional (en_Signature e) of
        Some f \<Rightarrow> Some (InvalidEnvelope f) | None \<Rightarrow>
      case calculatePlanHash canon sha e of Inl err \<Rightarrow> Some err | Inr expectedHash \<Rightarrow>
      if \<not> EqualFold expectedHash (en_PlanHash e) then Some ErrPlanHashMismatch
      else case resolve (sg_KeyID (en_Signature e)) of Inl err \<Rightarrow> Some err | Inr r \<Rightarrow>
      if kr_Revoked r then Some ErrSigningKeyRevoked
      else if (\<not> IsZero (kr_ActiveAt r) \<and> Before t (kr_ActiveAt r)) \<or>
              (\<not> IsZero (kr_RetireAt r) \<and> \<not> Before t (kr_RetireAt r)) then Some ErrSigningKeyInactive
      else if length (kr_PublicKey r) \<noteq> 32 then Some ErrUnknownSigningKey
      else case canonicalSigningMessage canon e of Inl err \<Rightarrow> Some err | Inr message \<Rightarrow>
      case b64_decode (sg_Value (en_Signature e)) of None \<Rightarrow> Some ErrInvalidSignature | Some signature \<Rightarrow>
      if \<not> edverify (kr_PublicKey r) message signature then Some ErrInvalidSignature
      else None)"


section \<open>What validation guarantees\<close>

lemma first_error_cons [simp]: "first_error (x # xs) = None \<longleftrightarrow> x = None \<and> first_error xs = None"
  by (cases x) auto

lemma Validate_None:
  assumes "Validate e = None"
  shows "validateTimes (en_NotBefore e) (en_ExpiresAt e) = None"
    and "CredentialScope_validate (en_CredentialScope e)
      (time_Sub (zt_instant (en_ExpiresAt e)) (zt_instant (en_NotBefore e))) = None"
    and "VerificationPlan_validate (en_Verification e) = None"
    and "RiskAssessment_validate (en_Risk e) = None"
    and "en_PlanHash e = '''' \<or> match_hex 64 (en_PlanHash e)"
    and "Signature_validateOptional (en_Signature e) = None"
    and "validateAction e = None"
    and "validToken (en_RequestedBy e)" and "validToken (en_ActionID e)"
  using assms by (auto simp: Validate_def)











text \<open>A concrete plan, the key that signs it, and stand-ins for the digest and the signature scheme.\<close>

definition demo_plan :: Envelope where
  "demo_plan = \<lparr>
     en_SchemaVersion = ''action-envelope.v1'', en_ActionID = ''act-1'', en_WorkspaceID = ''ws-1'',
     en_IncidentID = ''inc-1'', en_RequestedBy = ''alice'', en_ActionType = ActionKubernetesScale,
     en_Target = \<lparr>tr_ServiceID = ''svc-1'', tr_EnvironmentID = ''env-1'',
       tr_KubernetesDeployment = Some \<lparr>kt_ClusterID = ''c1'', kt_Namespace = ''pay'', kt_Name = ''api'',
         kt_UID = ''u1'', kt_ResourceVersion = ''42''\<rparr>,
       tr_GitOpsApplication = None, tr_AWXHosts = None\<rparr>,
     en_Parameters = \<lparr>ap_KubernetesRolloutRestart = None,
       ap_KubernetesScale = Some \<lparr>ksp_Replicas = 3, ksp_Minimum = 1, ksp_Maximum = 5,
         ksp_HPAAbsent = True, ksp_PDBChecked = True, ksp_QuotaChecked = True\<rparr>,
       ap_GitOpsRevert = None, ap_AWXServiceRestart = None\<rparr>,
     en_ObservedState = \<lparr>os_KubernetesDeployment = Some \<lparr>ko_Generation = 7, ko_Replicas = 2,
         ko_AvailableReplicas = 2, ko_UpdatedReplicas = 2\<rparr>,
       os_GitOpsApplication = None, os_AWXService = None\<rparr>,
     en_Preconditions = \<lparr>pc_MappingResult = ''EXACT'', pc_ExpectedResourceVersion = ''42'',
       pc_ExpectedGitHeadCommit = '''', pc_RequireWhitelist = True\<rparr>,
     en_Verification = \<lparr>vp_Mode = ''KUBERNETES_ROLLOUT'', vp_TimeoutSeconds = 300\<rparr>,
     en_Compensation = \<lparr>cp_Mode = ''MANUAL_ONLY'', cp_Summary = ''scale back''\<rparr>,
     en_Risk = \<lparr>ra_Level = ''LOW'', ra_ReasonCodes = [''bounded'']\<rparr>,
     en_PolicyVersion = ''p1'', en_PlanHash = '''',
     en_CredentialScope = \<lparr>cs_ConnectorID = ''k8s'', cs_Permission = ''PATCH_DEPLOYMENT_SCALE'',
       cs_Resource = ''c1/pay/deployment/api'', cs_TTLSeconds = 600\<rparr>,
     en_IdempotencyKey = ''idem-1'', en_NotBefore = \<lparr>zt_instant = 1000, zt_offset = 0\<rparr>,
     en_ExpiresAt = \<lparr>zt_instant = 1000 + 20 * Minute, zt_offset = 0\<rparr>,
     en_TraceID = replicate 32 (CHR ''a''), en_Signature = zero_Signature\<rparr>"

definition demo_hash :: string where "demo_hash = replicate 64 (CHR ''d'')"

definition demo_signed :: "string \<Rightarrow> Envelope" where
  "demo_signed v = demo_plan\<lparr>en_PlanHash := demo_hash, en_Signature :=
     \<lparr>sg_Algorithm = SignatureEd25519, sg_KeyID = ''k1'', sg_Value = v\<rparr>\<rparr>"

definition demo_canon :: "Envelope \<Rightarrow> string option" where
  "demo_canon e = (if e = demo_plan then Some ''plan''
     else if e = demo_signed '''' then Some ''message'' else None)"

definition demo_sign :: "string \<Rightarrow> string \<Rightarrow> string" where
  "demo_sign privateKey m = take 64 (m @ replicate 64 (CHR ''s''))"

definition demo_record :: KeyRecord where
  "demo_record = \<lparr>kr_PublicKey = replicate 32 (CHR ''p''), kr_Revoked = False, kr_ActiveAt = 0, kr_RetireAt = 0\<rparr>"

definition demo_sealed :: Envelope where
  "demo_sealed = demo_signed (b64_encode (demo_sign '''' ''message''))"

lemma demo_valid: "Validate demo_plan = None"
  by code_simp

lemma demo_match: "match_hex 64 demo_hash"
  by code_simp



section \<open>Paths of a reverted application\<close>

text \<open>
  Following a slash-separated path from a directory, as a file system does: \<open>..\<close> leaves a
  directory, the empty segment and \<open>.\<close> stay. \<open>None\<close> is a path that climbs above where it started.
\<close>

fun walk :: "string list \<Rightarrow> string list \<Rightarrow> string list option" where
  "walk below [] = Some below"
| "walk below (g # gs) =
     (if g = '''' \<or> g = ''.'' then walk below gs
      else if g = ''..'' then (if below = [] then None else walk (butlast below) gs)
      else walk (below @ [g]) gs)"

lemma walk_plain:
  "list_all (\<lambda>g. g \<noteq> '''' \<and> g \<noteq> ''.'' \<and> g \<noteq> ''..'') gs \<Longrightarrow> walk below gs = Some (below @ gs)"
  by (induction gs arbitrary: below) auto

text \<open>
  A repository path that is accepted stays inside the repository: followed from the root it
  descends through exactly its own segments, it does not start with a slash, no segment is a
  \<open>.git\<close> in any letter case, its first segment cannot be read as an option, and rejoining the
  segments gives the path back.
\<close>

theorem repository_path_confined:
  assumes "validRepositoryPath p"
  shows "walk [] (split_slash p) = Some (split_slash p) \<and> join_slash (split_slash p) = p \<and>
    hd p \<noteq> CHR ''/'' \<and> hd p \<noteq> CHR ''-'' \<and>
    (\<forall>g \<in> set (split_slash p). map ascii_lower g \<noteq> ''.git'')"
proof -
  let ?plain = "\<lambda>g. \<not> (g = '''' \<or> g = ''.'' \<or> g = ''..'' \<or> EqualFold g ''.git'')"
  from assms have ne: "p \<noteq> ''''" and slash: "hd p \<noteq> CHR ''/''"
    and dash: "take 1 (hd (split_slash p)) \<noteq> ''-''" and plain: "list_all ?plain (split_slash p)"
    by (auto simp: validRepositoryPath_def Let_def)
  have "walk [] (split_slash p) = Some ([] @ split_slash p)"
    by (rule walk_plain) (use plain in \<open>auto simp: list_all_iff\<close>)
  moreover have "hd p \<noteq> CHR ''-''"
    using ne slash dash by (cases p) (auto split: list.splits)
  moreover have "\<forall>g \<in> set (split_slash p). map ascii_lower g \<noteq> ''.git''"
  proof
    fix g assume "g \<in> set (split_slash p)"
    with plain have "\<not> EqualFold g ''.git''" by (auto simp: list_all_iff)
    then show "map ascii_lower g \<noteq> ''.git''"
      by (simp add: EqualFold_def ascii_lower_def char_class_defs)
  qed
  ultimately show ?thesis using slash by (simp add: join_split_slash)
qed

theorem repository_path_confined_witness:
  "validRepositoryPath ''apps/payments/v2.1'' \<and>
   walk [] (split_slash ''apps/payments/v2.1'') = Some [''apps'', ''payments'', ''v2.1''] \<and>
   \<not> validRepositoryPath ''apps/../.git'' \<and> \<not> validRepositoryPath ''apps/.GIT/hooks''"
proof -
  have ok: "validRepositoryPath ''apps/payments/v2.1''" by code_simp
  moreover have "split_slash ''apps/payments/v2.1'' = [''apps'', ''payments'', ''v2.1'']" by code_simp
  moreover have "\<not> validRepositoryPath ''apps/../.git'' \<and> \<not> validRepositoryPath ''apps/.GIT/hooks''"
    by code_simp
  ultimately show ?thesis using repository_path_confined [OF ok] by simp
qed


section \<open>Sealing and verification\<close>

text \<open>Validation reads the plan hash and the signature in one check each, and nowhere else.\<close>

lemma Validate_sealed:
  assumes "Validate (e\<lparr>en_PlanHash := h0, en_Signature := g0\<rparr>) = None"
    and "h = '''' \<or> match_hex 64 h" and "Signature_validateOptional g = None"
  shows "Validate (e\<lparr>en_PlanHash := h, en_Signature := g\<rparr>) = None"
proof -
  have same: "validateAction (e\<lparr>en_PlanHash := h, en_Signature := g\<rparr>) =
    validateAction (e\<lparr>en_PlanHash := h0, en_Signature := g0\<rparr>)" for h g h0 g0
    by (simp add: validateAction_def validateCredentialBinding_def validateKubernetesRestart_def
        validateKubernetesScale_def validateGitOpsRevert_def validateAWXRestart_def
        split: ActionType.split option.split)
  show ?thesis using assms by (simp add: Validate_def same [where h = h and g = g and ?h0.0 = h0 and ?g0.0 = g0])
qed

lemma Signature_sealed:
  "validToken k \<Longrightarrow> length s = 64 \<Longrightarrow>
   Signature_validateOptional \<lparr>sg_Algorithm = SignatureEd25519, sg_KeyID = k, sg_Value = b64_encode s\<rparr> = None"
  using b64_encode_length [of s]
  by (auto simp: Signature_validateOptional_def zero_Signature_def SignatureEd25519_def b64_roundtrip)

lemma Seal_Inr:
  assumes "Seal ctx canon sha (Some sg) who e0 = Inr e"
  obtains c message s e1 where "validToken (si_KeyID sg)"
    and "e1 = e0\<lparr>en_RequestedBy := who, en_PlanHash := '''', en_Signature := zero_Signature\<rparr>"
    and "Validate e1 = None" and "canon e1 = Some c"
    and "canon (e1\<lparr>en_PlanHash := sha c, en_Signature :=
          \<lparr>sg_Algorithm = SignatureEd25519, sg_KeyID = si_KeyID sg, sg_Value = ''''\<rparr>\<rparr>) = Some message"
    and "si_Sign sg ctx message = Inr s" and "length s = 64"
    and "e = e1\<lparr>en_PlanHash := sha c, en_Signature :=
          \<lparr>sg_Algorithm = SignatureEd25519, sg_KeyID = si_KeyID sg, sg_Value = b64_encode s\<rparr>\<rparr>"
  using assms
  by (auto simp: Seal_def Let_def calculatePlanHash_def canonicalSigningMessage_def zero_Signature_def
      split: option.splits sum.splits if_splits)

text \<open>What an accepted envelope has, one conjunct per check of \<open>Verify\<close>.\<close>

definition key_usable :: "KeyRecord \<Rightarrow> time \<Rightarrow> bool" where
  "key_usable r t \<longleftrightarrow> \<not> kr_Revoked r \<and> (kr_ActiveAt r = 0 \<or> kr_ActiveAt r \<le> t) \<and>
     (kr_RetireAt r = 0 \<or> t < kr_RetireAt r) \<and> length (kr_PublicKey r) = 32"

definition signed_by ::
  "(Envelope \<Rightarrow> string option) \<Rightarrow> (string \<Rightarrow> string \<Rightarrow> string \<Rightarrow> bool) \<Rightarrow> string \<Rightarrow> Envelope \<Rightarrow> bool" where
  "signed_by canon edverify publicKey e \<longleftrightarrow>
     (\<exists>message s. canon (e\<lparr>en_Signature := (en_Signature e)\<lparr>sg_Value := ''''\<rparr>\<rparr>) = Some message \<and>
        b64_decode (sg_Value (en_Signature e)) = Some s \<and> edverify publicKey message s)"

definition plan_hash_of :: "(Envelope \<Rightarrow> string option) \<Rightarrow> (string \<Rightarrow> string) \<Rightarrow> Envelope \<Rightarrow> string option" where
  "plan_hash_of canon sha e =
     map_option sha (canon (e\<lparr>en_PlanHash := '''', en_Signature := zero_Signature\<rparr>))"

lemma plan_hash_hex: "Validate e = None \<Longrightarrow> en_PlanHash e \<noteq> '''' \<Longrightarrow> list_all is_hex (en_PlanHash e)"
  using Validate_None(5) [of e] by (auto simp: match_hex_def)

lemma verify_accepts_characterized:
  assumes hex: "\<And>m. match_hex 64 (sha m)"
  shows "Verify canon sha edverify (Some resolve) e t = None \<longleftrightarrow>
    Validate e = None \<and> zt_instant (en_NotBefore e) \<le> t \<and> t < zt_instant (en_ExpiresAt e) \<and>
    en_Signature e \<noteq> zero_Signature \<and> plan_hash_of canon sha e = Some (en_PlanHash e) \<and>
    (\<exists>r. resolve (sg_KeyID (en_Signature e)) = Inr r \<and> key_usable r t \<and>
       signed_by canon edverify (kr_PublicKey r) e)"
proof -
  have fold: "EqualFold (sha m) (en_PlanHash e) \<longleftrightarrow> sha m = en_PlanHash e"
    if "Validate e = None" and "en_PlanHash e \<noteq> ''''" for m
    using that hex [of m] plan_hash_hex [OF that] by (intro EqualFold_hex) (auto simp: match_hex_def)
  have nonempty: "sha m \<noteq> ''''" for m using hex [of m] by (auto simp: match_hex_def)
  show ?thesis
    using Validate_None(6) [of e]
    by (auto simp: Verify_def calculatePlanHash_def canonicalSigningMessage_def plan_hash_of_def
        signed_by_def key_usable_def fold nonempty not_less
        split: option.splits sum.splits if_splits)
qed


text \<open>
  C10. \<open>Verify\<close> accepts an envelope at an instant exactly when it is valid, the instant lies in its
  window, its plan hash is the digest of its canonical plan, and the verifier's key set has a
  record for its key that is not revoked, is active then, and under which the signature over the canonical envelope
  verifies. (The digest is printed in lower-case hexadecimal.)
\<close>

theorem verify_accepts_iff:
  assumes hex: "\<And>m. match_hex 64 (sha m)" and keys: "NewRotatingKeySet records = Inr keys"
  shows "Verify canon sha edverify (Some (RotatingKeySet_Resolve None keys)) e t = None \<longleftrightarrow>
    Validate e = None \<and> zt_instant (en_NotBefore e) \<le> t \<and> t < zt_instant (en_ExpiresAt e) \<and>
    en_Signature e \<noteq> zero_Signature \<and> plan_hash_of canon sha e = Some (en_PlanHash e) \<and>
    (\<exists>r. gget records (sg_KeyID (en_Signature e)) = Some r \<and> \<not> kr_Revoked r \<and>
       (kr_ActiveAt r = 0 \<or> kr_ActiveAt r \<le> t) \<and> (kr_RetireAt r = 0 \<or> t < kr_RetireAt r) \<and>
       signed_by canon edverify (kr_PublicKey r) e)"
proof -
  from keys have same: "keys = records" and good: "\<not> gany invalid_key_record records"
    by (auto simp: NewRotatingKeySet_def cloneKeyRecords_def split: if_splits)
  have "length (kr_PublicKey r) = 32" if "gget records k = Some r" for k r
    using gany_witness [OF that, of invalid_key_record] good by (auto simp: invalid_key_record_def)
  then show ?thesis
    unfolding verify_accepts_characterized [OF hex] same
    by (auto simp: RotatingKeySet_Resolve_def key_usable_def split: option.splits)
qed

lemma demo_plan_normal:
  "demo_plan\<lparr>en_PlanHash := '''', en_Signature := zero_Signature\<rparr> = demo_plan"
  "demo_plan\<lparr>en_RequestedBy := ''alice'', en_PlanHash := '''', en_Signature := zero_Signature\<rparr> = demo_plan"
  "en_RequestedBy demo_plan = ''alice''"
  by (simp_all add: demo_plan_def)

lemma demo_canon_values:
  "demo_canon demo_plan = Some ''plan''" "demo_canon (demo_signed '''') = Some ''message''"
  by code_simp+

lemma demo_sign_length: "length (demo_sign k m) = 64"
  by (simp add: demo_sign_def)

lemma demo_tokens: "validToken ''k1''" "validToken ''alice''"
  by code_simp+

lemma demo_seal:
  "Seal None demo_canon (\<lambda>_. demo_hash)
     (Some \<lparr>si_KeyID = ''k1'', si_Sign = Ed25519Signer_Sign demo_sign (replicate 64 (CHR ''q''))\<rparr>)
     ''alice'' demo_plan = Inr demo_sealed"
proof -
  have blank: "zero_Signature\<lparr>sg_Algorithm := a, sg_KeyID := k\<rparr> =
    \<lparr>sg_Algorithm = a, sg_KeyID = k, sg_Value = ''''\<rparr>" for a k
    by (simp add: zero_Signature_def)
  have key: "demo_sign (replicate 64 (CHR ''q'')) m = demo_sign '''' m" for m
    by (simp only: demo_sign_def)
  show ?thesis
    using demo_canon_values(2)
    by (simp add: Seal_def Let_def demo_tokens demo_plan_normal demo_valid demo_canon_values(1)
        calculatePlanHash_def canonicalSigningMessage_def Ed25519Signer_Sign_def demo_sealed_def
        demo_signed_def demo_sign_length blank key)
qed

lemma demo_sealed_plan:
  "demo_sealed\<lparr>en_PlanHash := '''', en_Signature := zero_Signature\<rparr> = demo_plan"
  by (simp add: demo_sealed_def demo_signed_def demo_plan_normal)

lemma demo_sealed_valid: "Validate demo_sealed = None"
  unfolding demo_sealed_def demo_signed_def
  by (rule Validate_sealed [where ?h0.0 = "''''" and ?g0.0 = zero_Signature])
    (simp_all only: demo_plan_normal demo_valid demo_match simp_thms
      Signature_sealed [OF demo_tokens(1) demo_sign_length])

lemma demo_accepted:
  "Verify demo_canon (\<lambda>_. demo_hash) (\<lambda>_ m s. s = demo_sign '''' m)
     (Some (RotatingKeySet_Resolve None [(''k1'', demo_record)])) demo_sealed 5000 = None"
proof -
  have "plan_hash_of demo_canon (\<lambda>_. demo_hash) demo_sealed = Some (en_PlanHash demo_sealed)"
    by (simp add: plan_hash_of_def demo_sealed_plan demo_canon_values)
      (simp add: demo_sealed_def demo_signed_def)
  moreover have "signed_by demo_canon (\<lambda>_ m s. s = demo_sign '''' m) (kr_PublicKey demo_record) demo_sealed"
    using demo_canon_values(2)
    by (simp add: signed_by_def demo_sealed_def demo_signed_def b64_roundtrip)
  moreover have "key_usable demo_record 5000" by code_simp
  moreover have "en_Signature demo_sealed \<noteq> zero_Signature"
    and "zt_instant (en_NotBefore demo_sealed) = 1000"
    and "zt_instant (en_ExpiresAt demo_sealed) = 1000 + 20 * Minute"
    and "sg_KeyID (en_Signature demo_sealed) = ''k1''"
    by (simp_all add: demo_sealed_def demo_signed_def demo_plan_def zero_Signature_def SignatureEd25519_def)
  ultimately show ?thesis
    unfolding verify_accepts_characterized [OF demo_match]
    by (simp add: demo_sealed_valid RotatingKeySet_Resolve_def)
qed

theorem verify_accepts_iff_witness:
  "Verify demo_canon (\<lambda>_. demo_hash) (\<lambda>_ m s. s = demo_sign '''' m)
     (Some (RotatingKeySet_Resolve None [(''k1'', demo_record)])) demo_sealed 5000 = None \<and>
   plan_hash_of demo_canon (\<lambda>_. demo_hash) demo_sealed = Some (en_PlanHash demo_sealed)"
proof -
  have keys: "NewRotatingKeySet [(''k1'', demo_record)] = Inr [(''k1'', demo_record)]" by code_simp
  show ?thesis
    using verify_accepts_iff [OF demo_match keys, where canon = demo_canon and e = demo_sealed
        and t = 5000 and edverify = "\<lambda>_ m s. s = demo_sign '''' m"] demo_accepted
    by blast
qed

text \<open>
  C25. An envelope sealed by an Ed25519 signer is accepted by \<open>Verify\<close> at every instant of its
  window, as long as the verifier's key set maps the signer's key to a usable record whose public
  key belongs to the private one. The sealed envelope differs from the one handed in only in the
  requester, which is the authenticated one, the plan hash and the signature.
\<close>

theorem seal_then_verify:
  assumes hex: "\<And>m. match_hex 64 (sha m)"
    and pair: "\<And>m. edverify (kr_PublicKey r) m (edsign privateKey m)"
    and signer: "NewEd25519Signer edsign keyID privateKey = Inr signer"
    and sealed: "Seal ctx canon sha (Some signer) who e0 = Inr e"
    and key: "gget keys keyID = Some r" "key_usable r t"
    and window: "zt_instant (en_NotBefore e0) \<le> t" "t < zt_instant (en_ExpiresAt e0)"
  shows "Verify canon sha edverify (Some (RotatingKeySet_Resolve None keys)) e t = None \<and>
    en_RequestedBy e = who \<and>
    e0 = e\<lparr>en_RequestedBy := en_RequestedBy e0, en_PlanHash := en_PlanHash e0,
           en_Signature := en_Signature e0\<rparr>"
proof -
  from signer have id: "si_KeyID signer = keyID"
    and sign: "si_Sign signer = Ed25519Signer_Sign edsign privateKey"
    by (auto simp: NewEd25519Signer_def split: if_splits)
  obtain c message s e1 where tok: "validToken keyID"
    and e1: "e1 = e0\<lparr>en_RequestedBy := who, en_PlanHash := '''', en_Signature := zero_Signature\<rparr>"
    and ok: "Validate e1 = None" and c: "canon e1 = Some c"
    and message: "canon (e1\<lparr>en_PlanHash := sha c, en_Signature :=
          \<lparr>sg_Algorithm = SignatureEd25519, sg_KeyID = keyID, sg_Value = ''''\<rparr>\<rparr>) = Some message"
    and s: "si_Sign signer ctx message = Inr s" and len: "length s = 64"
    and e: "e = e1\<lparr>en_PlanHash := sha c, en_Signature :=
          \<lparr>sg_Algorithm = SignatureEd25519, sg_KeyID = keyID, sg_Value = b64_encode s\<rparr>\<rparr>"
    by (rule Seal_Inr [OF sealed, unfolded id])
  from s have s: "s = edsign privateKey message"
    by (simp add: sign Ed25519Signer_Sign_def split: option.splits)
  have "Validate (e1\<lparr>en_PlanHash := '''', en_Signature := zero_Signature\<rparr>) = None"
    using ok by (simp add: e1)
  then have "Validate e = None"
    unfolding e by (rule Validate_sealed) (simp_all only: hex Signature_sealed [OF tok len] simp_thms)
  moreover have "plan_hash_of canon sha e = Some (en_PlanHash e)"
    using c by (simp add: plan_hash_of_def e e1)
  moreover have "signed_by canon edverify (kr_PublicKey r) e"
    using message pair by (simp add: signed_by_def e s b64_roundtrip)
  moreover have "en_Signature e \<noteq> zero_Signature"
    by (simp add: e zero_Signature_def SignatureEd25519_def)
  moreover have "RotatingKeySet_Resolve None keys (sg_KeyID (en_Signature e)) = Inr r"
    using key(1) by (simp add: RotatingKeySet_Resolve_def e)
  moreover have "en_NotBefore e = en_NotBefore e0" "en_ExpiresAt e = en_ExpiresAt e0"
    by (simp_all add: e e1)
  ultimately have "Verify canon sha edverify (Some (RotatingKeySet_Resolve None keys)) e t = None"
    using window key(2) unfolding verify_accepts_characterized [OF hex] by auto
  then show ?thesis by (simp add: e e1)
qed

theorem seal_then_verify_witness:
  "Verify demo_canon (\<lambda>_. demo_hash) (\<lambda>_ m s. s = demo_sign (replicate 64 (CHR ''q'')) m)
     (Some (RotatingKeySet_Resolve None [(''k1'', demo_record)])) demo_sealed 5000 = None"
proof -
  have signer: "NewEd25519Signer demo_sign ''k1'' (replicate 64 (CHR ''q'')) =
    Inr \<lparr>si_KeyID = ''k1'', si_Sign = Ed25519Signer_Sign demo_sign (replicate 64 (CHR ''q''))\<rparr>"
    by (simp add: NewEd25519Signer_def) code_simp
  have key: "gget [(''k1'', demo_record)] ''k1'' = Some demo_record" by simp
  have usable: "key_usable demo_record 5000"
    and window: "zt_instant (en_NotBefore demo_plan) \<le> 5000" "5000 < zt_instant (en_ExpiresAt demo_plan)"
    by code_simp+
  show ?thesis
    using seal_then_verify [where edverify = "\<lambda>_ m s. s = demo_sign (replicate 64 (CHR ''q'')) m",
        OF demo_match refl signer demo_seal key usable window]
    by blast
qed

text \<open>
  C26. Two accepted envelopes with the same plan hash are the same plan, whatever their
  signatures: they agree in every field but the signature, unless the digest collides or the
  canonical form is ambiguous on these two plans.
\<close>

theorem verify_plan_binding:
  assumes hex: "\<And>m. match_hex 64 (sha m)"
    and collision_free: "sha m = sha m' \<Longrightarrow> m = m'"
    and unambiguous: "\<And>a b. canon a = Some m \<Longrightarrow> canon b = Some m \<Longrightarrow> a = b"
    and e: "Verify canon sha edverify (Some resolve) e t = None"
    and e': "Verify canon sha edverify (Some resolve') e' t' = None"
    and plans: "canon (e\<lparr>en_PlanHash := '''', en_Signature := zero_Signature\<rparr>) = Some m"
      "canon (e'\<lparr>en_PlanHash := '''', en_Signature := zero_Signature\<rparr>) = Some m'"
    and same: "en_PlanHash e = en_PlanHash e'"
  shows "e = e'\<lparr>en_Signature := en_Signature e\<rparr>"
proof -
  have "plan_hash_of canon sha e = Some (en_PlanHash e)"
    using e unfolding verify_accepts_characterized [OF hex] by blast
  moreover have "plan_hash_of canon sha e' = Some (en_PlanHash e')"
    using e' unfolding verify_accepts_characterized [OF hex] by blast
  ultimately have "sha m = sha m'"
    using same unfolding plan_hash_of_def plans by simp
  with collision_free plans unambiguous have "e\<lparr>en_PlanHash := '''', en_Signature := zero_Signature\<rparr> =
    e'\<lparr>en_PlanHash := '''', en_Signature := zero_Signature\<rparr>" by blast
  with same show ?thesis by (cases e; cases e') simp
qed

theorem verify_plan_binding_witness:
  "demo_sealed = (demo_signed (b64_encode (demo_sign '''' ''message'')))
     \<lparr>en_Signature := en_Signature demo_sealed\<rparr>"
proof (rule verify_plan_binding)
  show "match_hex 64 ((\<lambda>_. demo_hash) m)" for m by (rule demo_match)
  show "demo_canon a = Some ''plan'' \<Longrightarrow> demo_canon b = Some ''plan'' \<Longrightarrow> a = b" for a b
    by (simp add: demo_canon_def split: if_splits)
  show "demo_canon (demo_sealed\<lparr>en_PlanHash := '''', en_Signature := zero_Signature\<rparr>) = Some ''plan''"
    by (simp only: demo_sealed_plan demo_canon_values)
  then show "demo_canon ((demo_signed (b64_encode (demo_sign '''' ''message'')))
      \<lparr>en_PlanHash := '''', en_Signature := zero_Signature\<rparr>) = Some ''plan''"
    by (simp only: demo_sealed_def)
qed (use demo_accepted in \<open>simp_all only: demo_sealed_def\<close>)

text \<open>
  Rotation is immediate and all or nothing: a replacement with one bad record is refused and
  leaves the key set as it was; after one that is accepted, an envelope whose key is missing from
  the new records or revoked in them is refused at every instant.
\<close>

theorem rotation_cuts_off:
  "case RotatingKeySet_Replace records keys of
     (keys', Some err) \<Rightarrow> keys' = keys \<and> gany invalid_key_record records
   | (keys', None) \<Rightarrow>
       (\<forall>e t. (\<forall>r. gget records (sg_KeyID (en_Signature e)) = Some r \<longrightarrow> kr_Revoked r) \<longrightarrow>
          Verify canon sha edverify (Some (RotatingKeySet_Resolve ctx keys')) e t \<noteq> None)"
  by (auto simp: RotatingKeySet_Replace_def cloneKeyRecords_def Verify_def RotatingKeySet_Resolve_def
      split: option.splits sum.splits if_splits)


theorem rotation_cuts_off_witness:
  "Verify demo_canon (\<lambda>_. demo_hash) (\<lambda>_ m s. s = demo_sign '''' m)
     (Some (RotatingKeySet_Resolve None [(''k2'', demo_record)])) demo_sealed 5000 \<noteq> None"
proof -
  have "RotatingKeySet_Replace [(''k2'', demo_record)] [(''k1'', demo_record)] = ([(''k2'', demo_record)], None)"
    by code_simp
  moreover have "sg_KeyID (en_Signature demo_sealed) = ''k1''"
    by (simp add: demo_sealed_def demo_signed_def)
  ultimately show ?thesis
    using rotation_cuts_off [where records = "[(''k2'', demo_record)]" and keys = "[(''k1'', demo_record)]"
        and canon = demo_canon and sha = "\<lambda>_. demo_hash" and ctx = None
        and edverify = "\<lambda>_ m s. s = demo_sign '''' m"]
    by simp
qed

end
