(* ===== verification/Action_Queue.thy ===== *)
theory Action_Queue
  imports Execution_Lease Action_Envelope
begin

text \<open>
  The process-local action queue of \<^verbatim>\<open>internal/execution/action_queue.go\<close>, with the
  result types of service.go it stores: runner scopes, submissions, claims, the lease life cycle
  and the gate that keeps a target locked until its write credential is gone.

  A call is a function of the queue, its request and of what it reads from outside
  (\<open>queue_env\<close>): the context's error, the clock, and for \<open>Claim\<close> one token draw and one more
  clock reading per candidate it tries. The credential gate is called under the queue lock, first
  while leases expire and then for the record of the call; a gate answer is \<open>Some (present, terminal)\<close>
  or \<open>None\<close> for an error, and it may differ between the two phases. SHA-256, the JCS
  canonicalizer and the canonical JSON of a request are the functions of \<open>queue_ext\<close>.
\<close>

section \<open>The data model\<close>

datatype exec_error =
    LeaseErr lease_error | ErrInvalidAction action_error | ErrEnvironmentUnavailable
  | ErrEnvironmentDrift | ErrEnvironmentNotAllowed | ErrClaimsDisabled | ErrCredentialDenied
  | ErrPreExecutionDenied | ErrExecutionFailed | ErrExecutionUncertain | ErrJobNotFound
  | ErrJobConflict | ErrIdempotencyConflict | ErrHeartbeatSequence | ErrCredentialCleanupPending
  | HashingFailed | ClockZero

datatype ExecutorOutcome =
    ExecutorSucceeded | ExecutorFailed | ExecutorUncertain | ExecutorRaw string

datatype Verification =
    VerificationPassed | VerificationFailed | VerificationUnknown | VerificationRaw string

record ExecutorResult =
  er_Outcome :: ExecutorOutcome
  er_Code :: string
  er_Verification :: Verification
  er_Changed :: bool
  er_ExternalOperationRefHash :: string

record ActionSubmission =
  as_Envelope :: Envelope
  as_PlanHash :: string
  as_TargetKey :: string
  as_EnvironmentRevision :: string
  as_Production :: bool
  as_Pool :: Pool

record RunnerScopeBinding =
  rb_WorkspaceID :: string
  rb_EnvironmentID :: string

record RunnerRegistration =
  rr_RunnerID :: string
  rr_TenantID :: string
  rr_Pool :: Pool
  rr_Enabled :: bool
  rr_ScopeRevision :: int
  rr_MaxConcurrency :: int
  rr_ScopeBindings :: "RunnerScopeBinding list"

record RunnerScope =
  rs_runnerID :: string
  rs_tenantID :: string
  rs_pool :: Pool
  rs_scopeRevision :: int
  rs_maxConcurrency :: int
  rs_bindings :: "RunnerScopeBinding list"

record ActionClaimRequest =
  acq_Scope :: RunnerScope
  acq_LeaseDuration :: duration

record ClaimedAction =
  ca_Execution :: Execution
  ca_Envelope :: Envelope
  ca_PlanHash :: string
  ca_TargetKey :: string
  ca_EnvironmentRevision :: string
  ca_Production :: bool

record ActionQueueReason =
  qr_Code :: string
  qr_DetailHash :: string

record ActionRejectRequest =
  rj_Lease :: LeaseIdentity
  rj_Reason :: ActionQueueReason

record ActionNackRequest =
  nk_Lease :: LeaseIdentity
  nk_Reason :: ActionQueueReason
  nk_RetryAfter :: duration

datatype HeartbeatDirective = HeartbeatContinue | HeartbeatTerminate

record ActionHeartbeatRequest =
  ah_Lease :: LeaseIdentity
  ah_Sequence :: int
  ah_Extension :: duration

record ActionHeartbeatResult =
  ahr_Execution :: Execution
  ahr_Directive :: HeartbeatDirective

record ActionCompleteRequest =
  ac_Lease :: LeaseIdentity
  ac_Summary :: ExecutorResult

record RunnerResultReceipt =
  rc_ActionID :: string
  rc_TenantID :: string
  rc_WorkspaceID :: string
  rc_EnvironmentID :: string
  rc_PlanHash :: string
  rc_RunnerID :: string
  rc_LeaseEpoch :: int
  rc_ScopeRevision :: int
  rc_CertificateSHA256 :: string
  rc_CompletionStatus :: Status
  rc_Summary :: ExecutorResult
  rc_ResultHash :: string
  rc_ReceivedAt :: time

record memoryActionRecord =
  ma_submission :: ActionSubmission
  ma_requestHash :: string
  ma_receipt :: "RunnerResultReceipt option"
  ma_completedTokenHash :: string
  ma_completedEpoch :: int
  ma_execution :: Execution
  ma_notBefore :: time
  ma_lastNackHash :: string

record MemoryActionQueue =
  mq_records :: "memoryActionRecord gomap"
  mq_idempotency :: "string gomap"
  mq_order :: "string list"

text \<open>The anonymous struct whose canonical JSON is hashed as the semantics of a request.\<close>

record action_request =
  aq_SchemaVersion :: string
  aq_Envelope :: Envelope
  aq_TargetKey :: string
  aq_EnvironmentRevision :: string
  aq_Production :: bool
  aq_Pool :: Pool

record queue_ext =
  qx_sha :: "string \<Rightarrow> string"
  qx_jcs :: "string \<Rightarrow> string option"
  qx_request :: "action_request \<Rightarrow> string option"

datatype gate_phase = WhileExpiring | InCall

type_synonym credential_gate_answers = "gate_phase \<Rightarrow> string \<Rightarrow> int \<Rightarrow> (bool \<times> bool) option"

record queue_env =
  qe_ctx :: "ctx_error option"
  qe_clock :: time
  qe_token :: "nat \<Rightarrow> string option"
  qe_reclock :: "nat \<Rightarrow> time"
  qe_gate :: "credential_gate_answers option"

definition minimumActionLease :: duration where "minimumActionLease = Second"
definition maximumActionLease :: duration where "maximumActionLease = 30 * Minute"

section \<open>Results, receipts and hashes\<close>

definition resultCodePattern :: "string \<Rightarrow> bool" where
  "resultCodePattern s \<longleftrightarrow> s \<noteq> '''' \<and> length s \<le> 64 \<and> is_upper (hd s) \<and>
     list_all (\<lambda>c. is_upper c \<or> is_digit c \<or> c = CHR ''_'') (tl s)"

definition validExecutorResult :: "ExecutorResult \<Rightarrow> bool" where
  "validExecutorResult r \<longleftrightarrow>
     \<not> (\<not> resultCodePattern (er_Code r) \<or>
        (er_ExternalOperationRefHash r \<noteq> '''' \<and> \<not> match_hex 64 (er_ExternalOperationRefHash r))) \<and>
     (case er_Outcome r of
        ExecutorSucceeded \<Rightarrow> er_Verification r = VerificationPassed
      | ExecutorFailed \<Rightarrow> er_Verification r = VerificationFailed
      | ExecutorUncertain \<Rightarrow> er_Verification r = VerificationUnknown
      | ExecutorRaw _ \<Rightarrow> False)"

definition ResultSummaryStatus :: "ExecutorResult \<Rightarrow> lease_error + Status" where
  "ResultSummaryStatus summary =
     (if \<not> validExecutorResult summary then Inl ErrInvalidRequest
      else case er_Outcome summary of
        ExecutorSucceeded \<Rightarrow> Inr StatusSucceeded
      | ExecutorFailed \<Rightarrow> Inr StatusFailed
      | ExecutorUncertain \<Rightarrow> Inr StatusUncertain
      | ExecutorRaw _ \<Rightarrow> Inl ErrInvalidRequest)"

definition validActionQueueReason :: "ActionQueueReason \<Rightarrow> bool" where
  "validActionQueueReason r \<longleftrightarrow> resultCodePattern (qr_Code r) \<and> match_hex 64 (qr_DetailHash r)"

definition hashActionQueueReason :: "queue_ext \<Rightarrow> ActionQueueReason \<Rightarrow> string" where
  "hashActionQueueReason x r = qx_sha x (json_object
     [(''schema_version'', json_string ''action-queue-reason.v1''),
      (''code'', json_string (qr_Code r)), (''detail_hash'', json_string (qr_DetailHash r))])"

definition expiredRunningResultHash :: "queue_ext \<Rightarrow> string" where
  "expiredRunningResultHash x = hashActionQueueReason x
     \<lparr>qr_Code = ''RUNNING_LEASE_EXPIRED'', qr_DetailHash = replicate 64 (CHR ''0'')\<rparr>"

definition CancellationIntentHash :: "queue_ext \<Rightarrow> string" where
  "CancellationIntentHash x = qx_sha x (''action-queue-cancel-intent.v1'' @ [CHR 0x00] @ ''REQUESTED'')"

definition hashLeaseToken :: "queue_ext \<Rightarrow> string \<Rightarrow> string" where
  "hashLeaseToken x token = qx_sha x token"

definition RequestSemanticHash :: "queue_ext \<Rightarrow> ActionSubmission \<Rightarrow> exec_error + string" where
  "RequestSemanticHash x s =
     (case qx_request x \<lparr>aq_SchemaVersion = ''action-request.v1'',
          aq_Envelope = (as_Envelope s)\<lparr>en_ActionID := '''', en_PlanHash := '''', en_TraceID := '''',
            en_Signature := zero_Signature\<rparr>,
          aq_TargetKey = as_TargetKey s, aq_EnvironmentRevision = as_EnvironmentRevision s,
          aq_Production = as_Production s, aq_Pool = as_Pool s\<rparr> of
        None \<Rightarrow> Inl HashingFailed | Some canonical \<Rightarrow> Inr (qx_sha x canonical))"

fun Status_string :: "Status \<Rightarrow> string" where
  "Status_string StatusQueued = ''QUEUED''"
| "Status_string StatusLeased = ''LEASED''"
| "Status_string StatusRunning = ''RUNNING''"
| "Status_string StatusFinalizing = ''FINALIZING''"
| "Status_string StatusSucceeded = ''SUCCEEDED''"
| "Status_string StatusFailed = ''FAILED''"
| "Status_string StatusCancelled = ''CANCELLED''"
| "Status_string StatusUncertain = ''UNCERTAIN''"
| "Status_string (StatusRaw s) = s"

fun ExecutorOutcome_string :: "ExecutorOutcome \<Rightarrow> string" where
  "ExecutorOutcome_string ExecutorSucceeded = ''SUCCEEDED''"
| "ExecutorOutcome_string ExecutorFailed = ''FAILED''"
| "ExecutorOutcome_string ExecutorUncertain = ''UNCERTAIN''"
| "ExecutorOutcome_string (ExecutorRaw s) = s"

fun Verification_string :: "Verification \<Rightarrow> string" where
  "Verification_string VerificationPassed = ''PASSED''"
| "Verification_string VerificationFailed = ''FAILED''"
| "Verification_string VerificationUnknown = ''UNKNOWN''"
| "Verification_string (VerificationRaw s) = s"

text \<open>The JSON of a receipt; a field marked \<^verbatim>\<open>omitempty\<close> is left out when it is empty.\<close>

definition receipt_json :: "string \<Rightarrow> RunnerResultReceipt \<Rightarrow> string" where
  "receipt_json schemaVersion r =
     (let optional = (\<lambda>name value. if value = '''' then [] else [(name, json_string value)]) in
      json_object (
       [(''schema_version'', json_string schemaVersion), (''action_id'', json_string (rc_ActionID r)),
        (''tenant_id'', json_string (rc_TenantID r)), (''workspace_id'', json_string (rc_WorkspaceID r)),
        (''environment_id'', json_string (rc_EnvironmentID r)), (''plan_hash'', json_string (rc_PlanHash r)),
        (''runner_id'', json_string (rc_RunnerID r)),
        (''lease_epoch'', json_string (FormatInt (rc_LeaseEpoch r))),
        (''scope_revision'', json_string (FormatInt (rc_ScopeRevision r)))] @
       optional ''certificate_sha256'' (rc_CertificateSHA256 r) @
       [(''completion_status'', json_string (Status_string (rc_CompletionStatus r))),
        (''outcome'', json_string (ExecutorOutcome_string (er_Outcome (rc_Summary r)))),
        (''code'', json_string (er_Code (rc_Summary r))),
        (''verification'', json_string (Verification_string (er_Verification (rc_Summary r)))),
        (''changed'', json_bool (er_Changed (rc_Summary r)))] @
       optional ''external_operation_ref_hash'' (er_ExternalOperationRefHash (rc_Summary r))))"

definition buildRunnerResultReceipt ::
  "queue_ext \<Rightarrow> ClaimedAction \<Rightarrow> ActionCompleteRequest \<Rightarrow> Status \<Rightarrow> string \<Rightarrow> string \<Rightarrow> time \<Rightarrow>
   exec_error + RunnerResultReceipt" where
  "buildRunnerResultReceipt x claimed request completionStatus schemaVersion certificateSHA256 receivedAt =
     (let receipt = \<lparr>rc_ActionID = ex_ExecutionID (ca_Execution claimed),
            rc_TenantID = ex_RunnerTenantID (ca_Execution claimed),
            rc_WorkspaceID = ex_RunnerWorkspaceID (ca_Execution claimed),
            rc_EnvironmentID = ex_RunnerEnvironmentID (ca_Execution claimed),
            rc_PlanHash = ca_PlanHash claimed, rc_RunnerID = li_RunnerID (ac_Lease request),
            rc_LeaseEpoch = li_Epoch (ac_Lease request),
            rc_ScopeRevision = ex_ScopeRevision (ca_Execution claimed),
            rc_CertificateSHA256 = certificateSHA256, rc_CompletionStatus = completionStatus,
            rc_Summary = ac_Summary request, rc_ResultHash = '''', rc_ReceivedAt = receivedAt\<rparr>;
          encoded = receipt_json schemaVersion receipt
      in if 16384 < length encoded then Inl (LeaseErr ErrInvalidRequest)
         else case qx_jcs x encoded of None \<Rightarrow> Inl HashingFailed | Some canonical \<Rightarrow>
         Inr (receipt\<lparr>rc_ResultHash := qx_sha x (schemaVersion @ [CHR 0x00] @ canonical)\<rparr>))"

definition BuildRunnerResultReceipt ::
  "queue_ext \<Rightarrow> ClaimedAction \<Rightarrow> ActionCompleteRequest \<Rightarrow> Status \<Rightarrow> time \<Rightarrow>
   exec_error + RunnerResultReceipt" where
  "BuildRunnerResultReceipt x claimed request completionStatus receivedAt =
     buildRunnerResultReceipt x claimed request completionStatus ''runner-result.v1'' '''' receivedAt"

definition BuildRunnerResultReceiptV2 ::
  "queue_ext \<Rightarrow> ClaimedAction \<Rightarrow> ActionCompleteRequest \<Rightarrow> Status \<Rightarrow> string \<Rightarrow> time \<Rightarrow>
   exec_error + RunnerResultReceipt" where
  "BuildRunnerResultReceiptV2 x claimed request completionStatus certificateSHA256 receivedAt =
     (if \<not> match_hex 64 certificateSHA256 then Inl (LeaseErr ErrInvalidRequest)
      else buildRunnerResultReceipt x claimed request completionStatus ''runner-result.v2''
             certificateSHA256 receivedAt)"


section \<open>Runner scopes\<close>

definition scopeBindingKey :: "string \<Rightarrow> string \<Rightarrow> string" where
  "scopeBindingKey workspaceID environmentID = workspaceID @ CHR 0x00 # environmentID"

definition binding_key :: "RunnerScopeBinding \<Rightarrow> string" where
  "binding_key b = scopeBindingKey (rb_WorkspaceID b) (rb_EnvironmentID b)"

text \<open>
  The loop both validators share: every binding is a pair of identifiers, and no key was seen
  before.
\<close>

fun bindings_ok :: "string list \<Rightarrow> RunnerScopeBinding list \<Rightarrow> bool" where
  "bindings_ok seen [] = True"
| "bindings_ok seen (b # bs) =
     (if \<not> validIdentifier (rb_WorkspaceID b) 256 \<or> \<not> validIdentifier (rb_EnvironmentID b) 256 then False
      else if binding_key b \<in> set seen then False
      else bindings_ok (binding_key b # seen) bs)"

definition Scope :: "RunnerRegistration \<Rightarrow> lease_error + RunnerScope" where
  "Scope r =
     (if \<not> rr_Enabled r \<or> \<not> validIdentifier (rr_RunnerID r) 256 \<or> \<not> validIdentifier (rr_TenantID r) 256 \<or>
         (rr_Pool r \<noteq> PoolRead \<and> rr_Pool r \<noteq> PoolWrite) \<or> rr_ScopeRevision r \<le> 0 \<or>
         rr_MaxConcurrency r < 1 \<or> 1024 < rr_MaxConcurrency r \<or> rr_ScopeBindings r = []
      then Inl ErrInvalidRequest
      else if \<not> bindings_ok [] (rr_ScopeBindings r) then Inl ErrInvalidRequest
      else Inr \<lparr>rs_runnerID = rr_RunnerID r, rs_tenantID = rr_TenantID r, rs_pool = rr_Pool r,
                rs_scopeRevision = rr_ScopeRevision r, rs_maxConcurrency = rr_MaxConcurrency r,
                rs_bindings = rr_ScopeBindings r\<rparr>)"

definition allows :: "RunnerScope \<Rightarrow> string \<Rightarrow> string \<Rightarrow> bool" where
  "allows scope workspaceID environmentID =
     list_ex (\<lambda>b. rb_WorkspaceID b = workspaceID \<and> rb_EnvironmentID b = environmentID) (rs_bindings scope)"

definition validateRunnerScope :: "ActionClaimRequest \<Rightarrow> lease_error option" where
  "validateRunnerScope q =
     (let scope = acq_Scope q in
      if \<not> validIdentifier (rs_runnerID scope) 256 \<or> \<not> validIdentifier (rs_tenantID scope) 256 \<or>
         (rs_pool scope \<noteq> PoolRead \<and> rs_pool scope \<noteq> PoolWrite) \<or> rs_scopeRevision scope \<le> 0 \<or>
         rs_bindings scope = [] \<or> acq_LeaseDuration q < minimumActionLease \<or>
         maximumActionLease < acq_LeaseDuration q then Some ErrInvalidRequest
      else if \<not> bindings_ok [] (rs_bindings scope) then Some ErrInvalidRequest
      else None)"

section \<open>Validation and fences\<close>

definition validateActionSubmission :: "ActionSubmission \<Rightarrow> exec_error option" where
  "validateActionSubmission s =
     (case Validate (as_Envelope s) of Some f \<Rightarrow> Some (ErrInvalidAction (InvalidEnvelope f)) | None \<Rightarrow>
      if as_PlanHash s = '''' \<or> as_PlanHash s \<noteq> en_PlanHash (as_Envelope s) \<or>
         \<not> validIdentifier (as_TargetKey s) 512 \<or> \<not> validIdentifier (as_EnvironmentRevision s) 256 \<or>
         (as_Pool s \<noteq> PoolRead \<and> as_Pool s \<noteq> PoolWrite)
      then Some (LeaseErr ErrInvalidRequest) else None)"

definition validActionFence :: "LeaseIdentity \<Rightarrow> bool" where
  "validActionFence f \<longleftrightarrow> validIdentifier (li_ExecutionID f) 256 \<and> validIdentifier (li_RunnerID f) 256 \<and>
     validIdentifier (li_Token f) 256 \<and> 0 < li_Epoch f"

definition sameActionFence :: "Execution \<Rightarrow> LeaseIdentity \<Rightarrow> bool" where
  "sameActionFence x f \<longleftrightarrow> ex_ExecutionID x = li_ExecutionID f \<and> ex_RunnerID x = li_RunnerID f \<and>
     ex_LeaseToken x = li_Token f \<and> ex_LeaseEpoch x = li_Epoch f"

definition currentActionFence :: "Execution \<Rightarrow> LeaseIdentity \<Rightarrow> time \<Rightarrow> bool" where
  "currentActionFence x f t \<longleftrightarrow> sameActionFence x f \<and> After (ex_LeaseExpiresAt x) t"

definition redactActionExecution :: "Execution \<Rightarrow> Execution" where
  "redactActionExecution x = x\<lparr>ex_LeaseToken := ''''\<rparr>"

definition claimedAction :: "memoryActionRecord \<Rightarrow> ClaimedAction" where
  "claimedAction r = \<lparr>ca_Execution = ma_execution r, ca_Envelope = as_Envelope (ma_submission r),
     ca_PlanHash = as_PlanHash (ma_submission r), ca_TargetKey = as_TargetKey (ma_submission r),
     ca_EnvironmentRevision = as_EnvironmentRevision (ma_submission r),
     ca_Production = as_Production (ma_submission r)\<rparr>"

definition actionLeaseActive :: "Status \<Rightarrow> bool" where
  "actionLeaseActive s \<longleftrightarrow> s = StatusLeased \<or> s = StatusRunning \<or> s = StatusFinalizing \<or> s = StatusUncertain"

definition releasesTargetLock :: "Status \<Rightarrow> bool" where
  "releasesTargetLock s \<longleftrightarrow> s = StatusSucceeded \<or> s = StatusFailed \<or> s = StatusCancelled \<or> s = StatusQueued"

definition targetActive :: "MemoryActionQueue \<Rightarrow> string \<Rightarrow> string \<Rightarrow> bool" where
  "targetActive s targetKey excludingID =
     gany (\<lambda>i r. i \<noteq> excludingID \<and> ex_TargetKey (ma_execution r) = targetKey \<and>
        actionLeaseActive (ex_Status (ma_execution r))) (mq_records s)"

definition runnerActive :: "MemoryActionQueue \<Rightarrow> string \<Rightarrow> int" where
  "runnerActive s runnerID =
     int (gcount (\<lambda>_ r. ex_RunnerID (ma_execution r) = runnerID \<and>
       actionLeaseActive (ex_Status (ma_execution r))) (mq_records s))"

definition queue_now :: "time \<Rightarrow> exec_error + time" where
  "queue_now clock = (if IsZero clock then Inl ClockZero else Inr clock)"

text \<open>The instant at which the envelope of a record expires.\<close>

definition envelope_end :: "memoryActionRecord \<Rightarrow> time" where
  "envelope_end r = zt_instant (en_ExpiresAt (as_Envelope (ma_submission r)))"

section \<open>The credential gate and expiry\<close>

definition requireCredentialTerminal ::
  "queue_env \<Rightarrow> gate_phase \<Rightarrow> memoryActionRecord \<Rightarrow> bool \<Rightarrow> exec_error option" where
  "requireCredentialTerminal e phase r allowMissing =
     (if ex_Pool (ma_execution r) \<noteq> PoolWrite then None
      else case qe_gate e of None \<Rightarrow> Some ErrCredentialCleanupPending | Some gate \<Rightarrow>
      case gate phase (ex_ExecutionID (ma_execution r)) (ex_LeaseEpoch (ma_execution r)) of
        None \<Rightarrow> Some ErrCredentialCleanupPending
      | Some (present, terminal) \<Rightarrow>
          if (present \<and> \<not> terminal) \<or> (\<not> present \<and> \<not> allowMissing)
          then Some ErrCredentialCleanupPending else None)"

definition settle :: "time \<Rightarrow> memoryActionRecord \<Rightarrow> memoryActionRecord" where
  "settle t r = r\<lparr>ma_execution := (ma_execution r)\<lparr>
     ex_Status := ex_CompletionStatus (ma_execution r), ex_CompletedAt := t, ex_UpdatedAt := t\<rparr>\<rparr>"

text \<open>One turn of the loop of \<^verbatim>\<open>expireLocked\<close>.\<close>

definition expire_action ::
  "queue_ext \<Rightarrow> queue_env \<Rightarrow> time \<Rightarrow> memoryActionRecord \<Rightarrow> memoryActionRecord" where
  "expire_action x e t r =
     (let ex = ma_execution r in
      if ex_Status ex = StatusFinalizing then
        (case ma_receipt r of None \<Rightarrow> r | Some receipt \<Rightarrow>
         if After (envelope_end r) t \<or> ex_CompletionStatus ex \<noteq> rc_CompletionStatus receipt then r
         else if releasesTargetLock (ex_CompletionStatus ex) \<and>
                 requireCredentialTerminal e WhileExpiring r False \<noteq> None then r
         else settle t r)
      else if IsZero (ex_LeaseExpiresAt ex) \<or> After (ex_LeaseExpiresAt ex) t then r
      else if ex_Status ex = StatusLeased then
        (if requireCredentialTerminal e WhileExpiring r True \<noteq> None then r
         else r\<lparr>ma_execution := ex\<lparr>ex_Status := StatusQueued, ex_RunnerID := '''',
                  ex_RunnerTenantID := '''', ex_RunnerWorkspaceID := '''', ex_RunnerEnvironmentID := '''',
                  ex_ScopeRevision := 0, ex_LeaseToken := '''', ex_HeartbeatSeq := 0,
                  ex_CancelRequestedAt := 0, ex_CancelReasonHash := '''', ex_LeaseExpiresAt := 0,
                  ex_LeaseAcquiredAt := 0, ex_LastHeartbeatAt := 0, ex_UpdatedAt := t\<rparr>,
                ma_notBefore := 0\<rparr>)
      else if ex_Status ex = StatusRunning then
        r\<lparr>ma_execution := ex\<lparr>ex_Status := StatusUncertain, ex_CompletionStatus := StatusUncertain,
            ex_ResultHash := expiredRunningResultHash x, ex_CompletedAt := t, ex_LeaseToken := '''',
            ex_LeaseExpiresAt := 0, ex_UpdatedAt := t\<rparr>\<rparr>
      else r)"

definition expireLocked ::
  "queue_ext \<Rightarrow> queue_env \<Rightarrow> time \<Rightarrow> MemoryActionQueue \<Rightarrow> MemoryActionQueue" where
  "expireLocked x e t s = s\<lparr>mq_records := gupdate_all (\<lambda>_. expire_action x e t) (mq_records s)\<rparr>"

section \<open>Operations\<close>

definition NewMemoryActionQueue :: "time \<Rightarrow> exec_error + MemoryActionQueue" where
  "NewMemoryActionQueue clock =
     (if IsZero clock then Inl ClockZero
      else Inr \<lparr>mq_records = [], mq_idempotency = [], mq_order = []\<rparr>)"

text \<open>
  A key of the idempotency index always names a record (\<open>queue_inv\<close> below), so the branch for a
  missing one is never taken; in the code it would compare the empty request hash.
\<close>

definition Queue_Submit ::
  "queue_ext \<Rightarrow> queue_env \<Rightarrow> ActionSubmission \<Rightarrow> MemoryActionQueue \<Rightarrow>
   MemoryActionQueue \<times> (exec_error + Execution)" where
  "Queue_Submit x e submission s =
     (case qe_ctx e of Some c \<Rightarrow> (s, Inl (LeaseErr (LeaseCtx c))) | None \<Rightarrow>
      case validateActionSubmission submission of Some err \<Rightarrow> (s, Inl err) | None \<Rightarrow>
      case queue_now (qe_clock e) of Inl err \<Rightarrow> (s, Inl err) | Inr t \<Rightarrow>
      case RequestSemanticHash x submission of Inl err \<Rightarrow> (s, Inl err) | Inr requestHash \<Rightarrow>
      let actionID = en_ActionID (as_Envelope submission);
          idempotencyKey = scopeBindingKey (en_WorkspaceID (as_Envelope submission))
            (en_IdempotencyKey (as_Envelope submission))
      in case gget (mq_records s) actionID of
        Some existing \<Rightarrow>
          if ma_requestHash existing = requestHash
          then (s, Inr (redactActionExecution (ma_execution existing))) else (s, Inl ErrJobConflict)
      | None \<Rightarrow>
      case gget (mq_idempotency s) idempotencyKey of
        Some existingID \<Rightarrow>
          (case gget (mq_records s) existingID of
             Some existing \<Rightarrow>
               if ma_requestHash existing = requestHash
               then (s, Inr (redactActionExecution (ma_execution existing)))
               else (s, Inl ErrIdempotencyConflict)
           | None \<Rightarrow> (s, Inl ErrIdempotencyConflict))
      | None \<Rightarrow>
      let ex = zero_Execution\<lparr>ex_ExecutionID := actionID, ex_TargetKey := as_TargetKey submission,
                 ex_Pool := as_Pool submission, ex_Production := as_Production submission,
                 ex_Status := StatusQueued, ex_CreatedAt := t, ex_UpdatedAt := t\<rparr>
      in (s\<lparr>mq_records := gset (ex_ExecutionID ex)
                \<lparr>ma_submission = submission, ma_requestHash = requestHash, ma_receipt = None,
                 ma_completedTokenHash = '''', ma_completedEpoch = 0, ma_execution = ex,
                 ma_notBefore = 0, ma_lastNackHash = ''''\<rparr> (mq_records s),
            mq_idempotency := gset idempotencyKey (ex_ExecutionID ex) (mq_idempotency s),
            mq_order := mq_order s @ [ex_ExecutionID ex]\<rparr>, Inr ex))"

text \<open>The record the claim loop stores for the action it grants.\<close>

definition grant_action ::
  "ActionClaimRequest \<Rightarrow> time \<Rightarrow> string \<Rightarrow> memoryActionRecord \<Rightarrow> memoryActionRecord" where
  "grant_action q t token r =
     (let scope = acq_Scope q; env = as_Envelope (ma_submission r); ex = ma_execution r;
          until = t + acq_LeaseDuration q
      in r\<lparr>ma_execution := ex\<lparr>ex_Status := StatusLeased, ex_RunnerID := rs_runnerID scope,
             ex_RunnerTenantID := rs_tenantID scope, ex_RunnerWorkspaceID := en_WorkspaceID env,
             ex_RunnerEnvironmentID := tr_EnvironmentID (en_Target env),
             ex_ScopeRevision := rs_scopeRevision scope, ex_LeaseToken := token,
             ex_LeaseEpoch := wrap64 (ex_LeaseEpoch ex + 1), ex_HeartbeatSeq := 0,
             ex_CancelRequestedAt := 0, ex_CancelReasonHash := '''', ex_LeaseAcquiredAt := t,
             ex_LastHeartbeatAt := t,
             ex_LeaseExpiresAt := (if Before (envelope_end r) until then envelope_end r else until),
             ex_UpdatedAt := t\<rparr>\<rparr>)"

text \<open>
  The \<open>n\<close>-th candidate that passes every test draws the \<open>n\<close>-th token and reads the clock again;
  the new reading also serves the candidates after it.
\<close>

fun queue_claim_loop ::
  "queue_env \<Rightarrow> ActionClaimRequest \<Rightarrow> time \<Rightarrow> nat \<Rightarrow> string list \<Rightarrow> MemoryActionQueue \<Rightarrow>
   MemoryActionQueue \<times> (exec_error + ClaimedAction)" where
  "queue_claim_loop e q t n [] s = (s, Inl (LeaseErr ErrNoLeaseAvailable))"
| "queue_claim_loop e q t n (i # is) s =
     (case gget (mq_records s) i of None \<Rightarrow> queue_claim_loop e q t n is s | Some r \<Rightarrow>
      let ex = ma_execution r; env = as_Envelope (ma_submission r) in
      if ex_Status ex \<noteq> StatusQueued \<or> ex_Pool ex \<noteq> rs_pool (acq_Scope q)
      then queue_claim_loop e q t n is s
      else if ex_Pool ex = PoolWrite \<and> ex_Production ex then queue_claim_loop e q t n is s
      else if After (ma_notBefore r) t then queue_claim_loop e q t n is s
      else if \<not> After (envelope_end r) t then queue_claim_loop e q t n is s
      else if \<not> allows (acq_Scope q) (en_WorkspaceID env) (tr_EnvironmentID (en_Target env))
      then queue_claim_loop e q t n is s
      else if targetActive s (ex_TargetKey ex) (ex_ExecutionID ex) then queue_claim_loop e q t n is s
      else if ex_LeaseEpoch ex = MaxInt64 then (s, Inl (LeaseErr ErrInvalidTransition))
      else case qe_token e n of None \<Rightarrow> (s, Inl (LeaseErr TokenSourceFailed)) | Some token \<Rightarrow>
      if \<not> validIdentifier token 256 then (s, Inl (LeaseErr ErrInvalidRequest))
      else case queue_now (qe_reclock e n) of Inl err \<Rightarrow> (s, Inl err) | Inr t' \<Rightarrow>
      if \<not> After (envelope_end r) t' then queue_claim_loop e q t' (Suc n) is s
      else (s\<lparr>mq_records := gset i (grant_action q t' token r) (mq_records s)\<rparr>,
            Inr (claimedAction (grant_action q t' token r))))"

definition Queue_Claim ::
  "queue_ext \<Rightarrow> queue_env \<Rightarrow> ActionClaimRequest \<Rightarrow> MemoryActionQueue \<Rightarrow>
   MemoryActionQueue \<times> (exec_error + ClaimedAction)" where
  "Queue_Claim x e q s =
     (case qe_ctx e of Some c \<Rightarrow> (s, Inl (LeaseErr (LeaseCtx c))) | None \<Rightarrow>
      case validateRunnerScope q of Some err \<Rightarrow> (s, Inl (LeaseErr err)) | None \<Rightarrow>
      case queue_now (qe_clock e) of Inl err \<Rightarrow> (s, Inl err) | Inr t \<Rightarrow>
      let s' = expireLocked x e t s in
      if rs_maxConcurrency (acq_Scope q) \<le> runnerActive s' (rs_runnerID (acq_Scope q))
      then (s', Inl (LeaseErr ErrNoLeaseAvailable))
      else queue_claim_loop e q t 0 (mq_order s') s')"


definition put_record :: "string \<Rightarrow> memoryActionRecord \<Rightarrow> MemoryActionQueue \<Rightarrow> MemoryActionQueue" where
  "put_record i r s = s\<lparr>mq_records := gset i r (mq_records s)\<rparr>"

definition Queue_Start ::
  "queue_env \<Rightarrow> LeaseIdentity \<Rightarrow> MemoryActionQueue \<Rightarrow> MemoryActionQueue \<times> (exec_error + Execution)" where
  "Queue_Start e f s =
     (case qe_ctx e of Some c \<Rightarrow> (s, Inl (LeaseErr (LeaseCtx c))) | None \<Rightarrow>
      if \<not> validActionFence f then (s, Inl (LeaseErr ErrInvalidRequest))
      else case queue_now (qe_clock e) of Inl err \<Rightarrow> (s, Inl err) | Inr t \<Rightarrow>
      case gget (mq_records s) (li_ExecutionID f) of None \<Rightarrow> (s, Inl (LeaseErr ErrNotFound)) | Some r \<Rightarrow>
      if \<not> After (envelope_end r) t then (s, Inl (LeaseErr ErrStaleLease))
      else if \<not> currentActionFence (ma_execution r) f t then (s, Inl (LeaseErr ErrStaleLease))
      else if ex_Status (ma_execution r) = StatusLeased then
        (let r' = r\<lparr>ma_execution := (ma_execution r)\<lparr>ex_Status := StatusRunning, ex_StartedAt := t,
                    ex_UpdatedAt := t\<rparr>\<rparr>
         in (put_record (li_ExecutionID f) r' s, Inr (redactActionExecution (ma_execution r'))))
      else if ex_Status (ma_execution r) = StatusRunning
      then (s, Inr (redactActionExecution (ma_execution r)))
      else (s, Inl (LeaseErr ErrInvalidTransition)))"

definition actionHeartbeatResult :: "Execution \<Rightarrow> ActionHeartbeatResult" where
  "actionHeartbeatResult ex = \<lparr>ahr_Execution = redactActionExecution ex,
     ahr_Directive = (if \<not> IsZero (ex_CancelRequestedAt ex) then HeartbeatTerminate else HeartbeatContinue)\<rparr>"

definition Queue_Heartbeat ::
  "queue_env \<Rightarrow> ActionHeartbeatRequest \<Rightarrow> MemoryActionQueue \<Rightarrow>
   MemoryActionQueue \<times> (exec_error + ActionHeartbeatResult)" where
  "Queue_Heartbeat e q s =
     (case qe_ctx e of Some c \<Rightarrow> (s, Inl (LeaseErr (LeaseCtx c))) | None \<Rightarrow>
      if \<not> validActionFence (ah_Lease q) \<or> ah_Extension q < minimumActionLease \<or>
         maximumActionLease < ah_Extension q then (s, Inl (LeaseErr ErrInvalidRequest))
      else if ah_Sequence q \<le> 0 then (s, Inl ErrHeartbeatSequence)
      else case queue_now (qe_clock e) of Inl err \<Rightarrow> (s, Inl err) | Inr t \<Rightarrow>
      case gget (mq_records s) (li_ExecutionID (ah_Lease q)) of
        None \<Rightarrow> (s, Inl (LeaseErr ErrNotFound)) | Some r \<Rightarrow>
      let ex = ma_execution r in
      if \<not> sameActionFence ex (ah_Lease q) then (s, Inl (LeaseErr ErrStaleLease))
      else if ex_Status ex \<noteq> StatusLeased \<and> ex_Status ex \<noteq> StatusRunning
      then (s, Inl (LeaseErr ErrInvalidTransition))
      else if \<not> After (envelope_end r) t
      then (s, Inr \<lparr>ahr_Execution = redactActionExecution ex, ahr_Directive = HeartbeatTerminate\<rparr>)
      else if \<not> After (ex_LeaseExpiresAt ex) t then (s, Inl (LeaseErr ErrStaleLease))
      else if ah_Sequence q = ex_HeartbeatSeq ex then (s, Inr (actionHeartbeatResult ex))
      else if ah_Sequence q \<noteq> wrap64 (ex_HeartbeatSeq ex + 1) then (s, Inl ErrHeartbeatSequence)
      else let ex1 = ex\<lparr>ex_HeartbeatSeq := ah_Sequence q\<rparr>;
               until = t + ah_Extension q;
               ex2 = (if IsZero (ex_CancelRequestedAt ex1)
                      then ex1\<lparr>ex_LeaseExpiresAt := (if Before (envelope_end r) until then envelope_end r else until),
                               ex_LastHeartbeatAt := t\<rparr>
                      else ex1);
               ex3 = ex2\<lparr>ex_UpdatedAt := t\<rparr>
      in (put_record (li_ExecutionID (ah_Lease q)) (r\<lparr>ma_execution := ex3\<rparr>) s,
          Inr (actionHeartbeatResult ex3)))"

definition completed_by :: "queue_ext \<Rightarrow> memoryActionRecord \<Rightarrow> LeaseIdentity \<Rightarrow> bool" where
  "completed_by x r f \<longleftrightarrow>
     \<not> (ex_ReconciliationID (ma_execution r) \<noteq> '''' \<or> ex_RunnerID (ma_execution r) \<noteq> li_RunnerID f \<or>
        ma_completedEpoch r \<noteq> li_Epoch f \<or> ma_completedTokenHash r \<noteq> hashLeaseToken x (li_Token f))"

definition Queue_Complete ::
  "queue_ext \<Rightarrow> queue_env \<Rightarrow> ActionCompleteRequest \<Rightarrow> MemoryActionQueue \<Rightarrow>
   MemoryActionQueue \<times> (exec_error + Execution)" where
  "Queue_Complete x e q s =
     (case qe_ctx e of Some c \<Rightarrow> (s, Inl (LeaseErr (LeaseCtx c))) | None \<Rightarrow>
      case ResultSummaryStatus (ac_Summary q) of Inl _ \<Rightarrow> (s, Inl (LeaseErr ErrInvalidRequest))
      | Inr completionStatus \<Rightarrow>
      if \<not> validActionFence (ac_Lease q) then (s, Inl (LeaseErr ErrInvalidRequest))
      else case queue_now (qe_clock e) of Inl err \<Rightarrow> (s, Inl err) | Inr t \<Rightarrow>
      case gget (mq_records s) (li_ExecutionID (ac_Lease q)) of
        None \<Rightarrow> (s, Inl (LeaseErr ErrNotFound)) | Some r \<Rightarrow>
      case BuildRunnerResultReceipt x (claimedAction r) q completionStatus t of
        Inl err \<Rightarrow> (s, Inl err) | Inr receipt \<Rightarrow>
      let ex = ma_execution r in
      if ex_Status ex = StatusFinalizing \<or> Terminal ex then
        (if \<not> completed_by x r (ac_Lease q) then (s, Inl (LeaseErr ErrStaleLease))
         else if (case ma_receipt r of None \<Rightarrow> False | Some old \<Rightarrow> rc_ResultHash old = rc_ResultHash receipt) \<and>
                 ex_CompletionStatus ex = completionStatus
         then (s, Inr (redactActionExecution ex))
         else (s, Inl (LeaseErr ErrCompletionConflict)))
      else if \<not> currentActionFence ex (ac_Lease q) t then (s, Inl (LeaseErr ErrStaleLease))
      else if ex_Status ex \<noteq> StatusRunning then (s, Inl (LeaseErr ErrInvalidTransition))
      else let r' = r\<lparr>ma_execution := ex\<lparr>ex_Status := StatusFinalizing,
                       ex_CompletionStatus := completionStatus, ex_ResultHash := rc_ResultHash receipt,
                       ex_LeaseExpiresAt := 0, ex_LeaseToken := '''', ex_UpdatedAt := t\<rparr>,
                     ma_receipt := Some receipt,
                     ma_completedTokenHash := hashLeaseToken x (li_Token (ac_Lease q)),
                     ma_completedEpoch := li_Epoch (ac_Lease q)\<rparr>
      in (put_record (li_ExecutionID (ac_Lease q)) r' s, Inr (redactActionExecution (ma_execution r'))))"

definition Queue_Finalize ::
  "queue_ext \<Rightarrow> queue_env \<Rightarrow> LeaseIdentity \<Rightarrow> MemoryActionQueue \<Rightarrow>
   MemoryActionQueue \<times> (exec_error + Execution)" where
  "Queue_Finalize x e f s =
     (case qe_ctx e of Some c \<Rightarrow> (s, Inl (LeaseErr (LeaseCtx c))) | None \<Rightarrow>
      if \<not> validActionFence f then (s, Inl (LeaseErr ErrInvalidRequest))
      else case queue_now (qe_clock e) of Inl err \<Rightarrow> (s, Inl err) | Inr t \<Rightarrow>
      case gget (mq_records s) (li_ExecutionID f) of None \<Rightarrow> (s, Inl (LeaseErr ErrNotFound)) | Some r \<Rightarrow>
      let ex = ma_execution r in
      if \<not> completed_by x r f then (s, Inl (LeaseErr ErrStaleLease))
      else if Terminal ex then (s, Inr (redactActionExecution ex))
      else if ex_Status ex \<noteq> StatusFinalizing \<or>
              (case ma_receipt r of None \<Rightarrow> True
               | Some receipt \<Rightarrow> ex_CompletionStatus ex \<noteq> rc_CompletionStatus receipt)
      then (s, Inl (LeaseErr ErrInvalidTransition))
      else case (if releasesTargetLock (ex_CompletionStatus ex)
                 then requireCredentialTerminal e InCall r False else None) of
        Some err \<Rightarrow> (s, Inl err)
      | None \<Rightarrow> (put_record (li_ExecutionID f) (settle t r) s,
                 Inr (redactActionExecution (ma_execution (settle t r)))))"

definition Queue_Reject ::
  "queue_ext \<Rightarrow> queue_env \<Rightarrow> ActionRejectRequest \<Rightarrow> MemoryActionQueue \<Rightarrow>
   MemoryActionQueue \<times> (exec_error + Execution)" where
  "Queue_Reject x e q s =
     (case qe_ctx e of Some c \<Rightarrow> (s, Inl (LeaseErr (LeaseCtx c))) | None \<Rightarrow>
      if \<not> validActionFence (rj_Lease q) \<or> \<not> validActionQueueReason (rj_Reason q)
      then (s, Inl (LeaseErr ErrInvalidRequest))
      else let reasonHash = hashActionQueueReason x (rj_Reason q) in
      case queue_now (qe_clock e) of Inl err \<Rightarrow> (s, Inl err) | Inr t \<Rightarrow>
      case gget (mq_records s) (li_ExecutionID (rj_Lease q)) of
        None \<Rightarrow> (s, Inl (LeaseErr ErrNotFound)) | Some r \<Rightarrow>
      let ex = ma_execution r in
      if ex_Status ex = StatusFailed then
        (if \<not> completed_by x r (rj_Lease q) then (s, Inl (LeaseErr ErrStaleLease))
         else if ex_ResultHash ex \<noteq> reasonHash then (s, Inl (LeaseErr ErrCompletionConflict))
         else (s, Inr (redactActionExecution ex)))
      else if \<not> currentActionFence ex (rj_Lease q) t then (s, Inl (LeaseErr ErrStaleLease))
      else if ex_Status ex \<noteq> StatusLeased then (s, Inl (LeaseErr ErrInvalidTransition))
      else case requireCredentialTerminal e InCall r True of Some err \<Rightarrow> (s, Inl err) | None \<Rightarrow>
      let r' = r\<lparr>ma_execution := ex\<lparr>ex_Status := StatusFailed, ex_CompletionStatus := StatusFailed,
                   ex_ResultHash := reasonHash, ex_CompletedAt := t, ex_LeaseExpiresAt := 0,
                   ex_LeaseToken := '''', ex_UpdatedAt := t\<rparr>,
                 ma_completedTokenHash := hashLeaseToken x (li_Token (rj_Lease q)),
                 ma_completedEpoch := li_Epoch (rj_Lease q)\<rparr>
      in (put_record (li_ExecutionID (rj_Lease q)) r' s, Inr (redactActionExecution (ma_execution r'))))"

definition Queue_Nack ::
  "queue_ext \<Rightarrow> queue_env \<Rightarrow> ActionNackRequest \<Rightarrow> MemoryActionQueue \<Rightarrow>
   MemoryActionQueue \<times> (exec_error + Execution)" where
  "Queue_Nack x e q s =
     (case qe_ctx e of Some c \<Rightarrow> (s, Inl (LeaseErr (LeaseCtx c))) | None \<Rightarrow>
      if \<not> validActionFence (nk_Lease q) \<or> \<not> validActionQueueReason (nk_Reason q) \<or>
         nk_RetryAfter q < Second \<or> maximumActionLease < nk_RetryAfter q
      then (s, Inl (LeaseErr ErrInvalidRequest))
      else let reasonHash = hashActionQueueReason x (nk_Reason q) in
      case queue_now (qe_clock e) of Inl err \<Rightarrow> (s, Inl err) | Inr t \<Rightarrow>
      case gget (mq_records s) (li_ExecutionID (nk_Lease q)) of
        None \<Rightarrow> (s, Inl (LeaseErr ErrNotFound)) | Some r \<Rightarrow>
      let ex = ma_execution r in
      if \<not> currentActionFence ex (nk_Lease q) t then (s, Inl (LeaseErr ErrStaleLease))
      else if ex_Status ex \<noteq> StatusLeased then (s, Inl (LeaseErr ErrInvalidTransition))
      else case requireCredentialTerminal e InCall r True of Some err \<Rightarrow> (s, Inl err) | None \<Rightarrow>
      let r' = r\<lparr>ma_execution := ex\<lparr>ex_Status := StatusQueued, ex_RunnerID := '''',
                   ex_RunnerTenantID := '''', ex_RunnerWorkspaceID := '''', ex_RunnerEnvironmentID := '''',
                   ex_LeaseToken := '''', ex_LeaseExpiresAt := 0, ex_LeaseAcquiredAt := 0,
                   ex_LastHeartbeatAt := 0, ex_ScopeRevision := 0, ex_HeartbeatSeq := 0,
                   ex_CancelRequestedAt := 0, ex_CancelReasonHash := '''', ex_UpdatedAt := t\<rparr>,
                 ma_notBefore := t + nk_RetryAfter q, ma_lastNackHash := reasonHash\<rparr>
      in (put_record (li_ExecutionID (nk_Lease q)) r' s, Inr (ma_execution r')))"

definition Queue_Reconcile ::
  "queue_ext \<Rightarrow> queue_env \<Rightarrow> ReconcileRequest \<Rightarrow> MemoryActionQueue \<Rightarrow>
   MemoryActionQueue \<times> (exec_error + Execution)" where
  "Queue_Reconcile x e q s0 =
     (case qe_ctx e of Some c \<Rightarrow> (s0, Inl (LeaseErr (LeaseCtx c))) | None \<Rightarrow>
      if \<not> validIdentifier (rq_ExecutionID q) 256 \<or> \<not> validIdentifier (rq_ReconciliationID q) 256 \<or>
         \<not> validIdentifier (rq_ActorID q) 256 \<or>
         (rq_Status q \<noteq> StatusSucceeded \<and> rq_Status q \<noteq> StatusFailed) \<or> \<not> match_hex 64 (rq_ResultHash q)
      then (s0, Inl (LeaseErr ErrInvalidRequest))
      else case queue_now (qe_clock e) of Inl err \<Rightarrow> (s0, Inl err) | Inr t \<Rightarrow>
      let s = expireLocked x e t s0 in
      case gget (mq_records s) (rq_ExecutionID q) of None \<Rightarrow> (s, Inl (LeaseErr ErrNotFound)) | Some r \<Rightarrow>
      let ex = ma_execution r in
      if ex_ReconciliationID ex \<noteq> '''' then
        (if ex_ReconciliationID ex = rq_ReconciliationID q \<and> ex_ReconciliationActor ex = rq_ActorID q \<and>
            ex_Status ex = rq_Status q \<and> ex_ReconciliationResultHash ex = rq_ResultHash q
         then (s, Inr (redactActionExecution ex)) else (s, Inl (LeaseErr ErrReconciliationConflict)))
      else if ex_Status ex \<noteq> StatusUncertain then (s, Inl (LeaseErr ErrInvalidTransition))
      else case requireCredentialTerminal e InCall r False of Some err \<Rightarrow> (s, Inl err) | None \<Rightarrow>
      if gany (\<lambda>i r2. i \<noteq> rq_ExecutionID q \<and>
            ex_ReconciliationID (ma_execution r2) = rq_ReconciliationID q) (mq_records s)
      then (s, Inl (LeaseErr ErrReconciliationConflict))
      else let r' = r\<lparr>ma_execution := ex\<lparr>ex_Status := rq_Status q,
                       ex_ReconciliationID := rq_ReconciliationID q,
                       ex_ReconciliationActor := rq_ActorID q,
                       ex_ReconciliationResultHash := rq_ResultHash q, ex_ReconciledAt := t,
                       ex_UpdatedAt := t\<rparr>\<rparr>
      in (put_record (rq_ExecutionID q) r' s, Inr (redactActionExecution (ma_execution r'))))"

definition Queue_Cancel ::
  "queue_ext \<Rightarrow> queue_env \<Rightarrow> string \<Rightarrow> MemoryActionQueue \<Rightarrow>
   MemoryActionQueue \<times> (exec_error + Execution)" where
  "Queue_Cancel x e executionID s0 =
     (case qe_ctx e of Some c \<Rightarrow> (s0, Inl (LeaseErr (LeaseCtx c))) | None \<Rightarrow>
      if \<not> validIdentifier executionID 256 then (s0, Inl (LeaseErr ErrInvalidRequest))
      else case queue_now (qe_clock e) of Inl err \<Rightarrow> (s0, Inl err) | Inr t \<Rightarrow>
      let s = expireLocked x e t s0 in
      case gget (mq_records s) executionID of None \<Rightarrow> (s, Inl (LeaseErr ErrNotFound)) | Some r \<Rightarrow>
      let ex = ma_execution r in
      if Terminal ex then (s, Inr (redactActionExecution ex))
      else if ex_Status ex = StatusFinalizing then (s, Inl (LeaseErr ErrInvalidTransition))
      else if ex_Status ex = StatusRunning then
        (if IsZero (ex_CancelRequestedAt ex) then
           let ex' = ex\<lparr>ex_CancelRequestedAt := t, ex_CancelReasonHash := CancellationIntentHash x,
                        ex_UpdatedAt := t\<rparr>
           in (put_record executionID (r\<lparr>ma_execution := ex'\<rparr>) s, Inr (redactActionExecution ex'))
         else (s, Inr (redactActionExecution ex)))
      else case (if ex_Status ex = StatusLeased then requireCredentialTerminal e InCall r True else None) of
        Some err \<Rightarrow> (s, Inl err)
      | None \<Rightarrow>
      let ex' = ex\<lparr>ex_Status := StatusCancelled, ex_RunnerID := '''', ex_RunnerTenantID := '''',
                   ex_RunnerWorkspaceID := '''', ex_RunnerEnvironmentID := '''', ex_LeaseToken := '''',
                   ex_LeaseExpiresAt := 0, ex_CompletedAt := t, ex_UpdatedAt := t\<rparr>
      in (put_record executionID (r\<lparr>ma_execution := ex'\<rparr>) s, Inr (redactActionExecution ex')))"

definition Queue_SweepExpired ::
  "queue_ext \<Rightarrow> queue_env \<Rightarrow> MemoryActionQueue \<Rightarrow> MemoryActionQueue \<times> (exec_error + unit)" where
  "Queue_SweepExpired x e s =
     (case qe_ctx e of Some c \<Rightarrow> (s, Inl (LeaseErr (LeaseCtx c))) | None \<Rightarrow>
      case queue_now (qe_clock e) of Inl err \<Rightarrow> (s, Inl err) | Inr t \<Rightarrow> (expireLocked x e t s, Inr ()))"

definition Queue_Get ::
  "queue_ext \<Rightarrow> queue_env \<Rightarrow> string \<Rightarrow> MemoryActionQueue \<Rightarrow>
   MemoryActionQueue \<times> (exec_error + Execution)" where
  "Queue_Get x e executionID s0 =
     (case qe_ctx e of Some c \<Rightarrow> (s0, Inl (LeaseErr (LeaseCtx c))) | None \<Rightarrow>
      if \<not> validIdentifier executionID 256 then (s0, Inl (LeaseErr ErrInvalidRequest))
      else case queue_now (qe_clock e) of Inl err \<Rightarrow> (s0, Inl err) | Inr t \<Rightarrow>
      let s = expireLocked x e t s0 in
      case gget (mq_records s) executionID of None \<Rightarrow> (s, Inl (LeaseErr ErrNotFound)) | Some r \<Rightarrow>
      (s, Inr (redactActionExecution (ma_execution r))))"

text \<open>One call of the queue in the environment \<open>e\<close>.\<close>

inductive queue_call :: "queue_ext \<Rightarrow> queue_env \<Rightarrow> MemoryActionQueue \<Rightarrow> MemoryActionQueue \<Rightarrow> bool"
  for x e s where
  call_Submit: "queue_call x e s (fst (Queue_Submit x e sub s))"
| call_Claim: "queue_call x e s (fst (Queue_Claim x e cq s))"
| call_Start: "queue_call x e s (fst (Queue_Start e f s))"
| call_Heartbeat: "queue_call x e s (fst (Queue_Heartbeat e hq s))"
| call_Complete: "queue_call x e s (fst (Queue_Complete x e pq s))"
| call_Finalize: "queue_call x e s (fst (Queue_Finalize x e f s))"
| call_Reject: "queue_call x e s (fst (Queue_Reject x e jq s))"
| call_Nack: "queue_call x e s (fst (Queue_Nack x e nq s))"
| call_Reconcile: "queue_call x e s (fst (Queue_Reconcile x e rq s))"
| call_Cancel: "queue_call x e s (fst (Queue_Cancel x e i s))"
| call_Sweep: "queue_call x e s (fst (Queue_SweepExpired x e s))"
| call_Get: "queue_call x e s (fst (Queue_Get x e i s))"

definition queue_step :: "queue_ext \<Rightarrow> MemoryActionQueue \<Rightarrow> MemoryActionQueue \<Rightarrow> bool" where
  "queue_step x s u \<longleftrightarrow> (\<exists>e. queue_call x e s u)"


section \<open>The life cycle of a record\<close>

text \<open>
  The state machine the queue implements, as its specification: which status may follow which.
\<close>

fun status_next :: "Status \<Rightarrow> Status list" where
  "status_next StatusQueued = [StatusLeased, StatusCancelled]"
| "status_next StatusLeased = [StatusRunning, StatusQueued, StatusFailed, StatusCancelled]"
| "status_next StatusRunning = [StatusFinalizing, StatusUncertain]"
| "status_next StatusFinalizing = [StatusSucceeded, StatusFailed, StatusUncertain]"
| "status_next StatusUncertain = [StatusSucceeded, StatusFailed]"
| "status_next _ = []"

abbreviation record_status :: "memoryActionRecord \<Rightarrow> Status" where
  "record_status r \<equiv> ex_Status (ma_execution r)"

abbreviation record_epoch :: "memoryActionRecord \<Rightarrow> int" where
  "record_epoch r \<equiv> ex_LeaseEpoch (ma_execution r)"

definition record_target :: "memoryActionRecord \<Rightarrow> string" where
  "record_target r = ex_TargetKey (ma_execution r)"

definition record_active :: "memoryActionRecord \<Rightarrow> bool" where
  "record_active r = actionLeaseActive (record_status r)"

definition idempotency_key :: "memoryActionRecord \<Rightarrow> string" where
  "idempotency_key r = scopeBindingKey (en_WorkspaceID (as_Envelope (ma_submission r)))
     (en_IdempotencyKey (as_Envelope (ma_submission r)))"

text \<open>What no call changes of a record.\<close>

definition same_action :: "memoryActionRecord \<Rightarrow> memoryActionRecord \<Rightarrow> bool" where
  "same_action r r' \<longleftrightarrow> ma_submission r' = ma_submission r \<and> ma_requestHash r' = ma_requestHash r \<and>
     ex_ExecutionID (ma_execution r') = ex_ExecutionID (ma_execution r) \<and>
     ex_TargetKey (ma_execution r') = ex_TargetKey (ma_execution r) \<and>
     ex_Pool (ma_execution r') = ex_Pool (ma_execution r) \<and>
     ex_Production (ma_execution r') = ex_Production (ma_execution r)"

text \<open>
  The gate let the target of a write record go: it reported the credential of this action and
  epoch as present and terminal, or as never created while the lease had not started.
\<close>

definition cleaned :: "queue_env \<Rightarrow> memoryActionRecord \<Rightarrow> bool" where
  "cleaned e r \<longleftrightarrow> ex_Pool (ma_execution r) \<noteq> PoolWrite \<or>
     (\<exists>gate phase present terminal. qe_gate e = Some gate \<and>
        gate phase (ex_ExecutionID (ma_execution r)) (record_epoch r) = Some (present, terminal) \<and>
        (present \<and> terminal \<or> \<not> present \<and> record_status r = StatusLeased))"

text \<open>What one call may do to one record, apart from granting it.\<close>

definition record_move :: "queue_env \<Rightarrow> memoryActionRecord \<Rightarrow> memoryActionRecord \<Rightarrow> bool" where
  "record_move e r r' \<longleftrightarrow> r' = r \<or>
     same_action r r' \<and> record_epoch r' = record_epoch r \<and>
     (record_status r' = record_status r \<and> record_status r \<in> {StatusLeased, StatusRunning} \<or>
      record_status r' \<in> set (status_next (record_status r)) \<and> record_status r' \<noteq> StatusLeased \<and>
      (record_active r \<and> \<not> record_active r' \<longrightarrow> cleaned e r))"

text \<open>
  The invariant of one record, in two parts: how it is bound to its submission, which no move
  touches, and what its status says about its other fields.
\<close>

definition record_bound :: "queue_ext \<Rightarrow> string \<Rightarrow> memoryActionRecord \<Rightarrow> bool" where
  "record_bound x i r \<longleftrightarrow>
     (let ex = ma_execution r; sub = ma_submission r in
      ex_ExecutionID ex = i \<and> en_ActionID (as_Envelope sub) = i \<and> ex_TargetKey ex = as_TargetKey sub \<and>
      ex_Pool ex = as_Pool sub \<and> ex_Production ex = as_Production sub \<and>
      validateActionSubmission sub = None \<and> RequestSemanticHash x sub = Inr (ma_requestHash r))"

definition status_fields :: "memoryActionRecord \<Rightarrow> bool" where
  "status_fields r \<longleftrightarrow>
     (let ex = ma_execution r in
      case ex_Status ex of
        StatusQueued \<Rightarrow> ex_LeaseToken ex = '''' \<and> ma_completedEpoch r = 0
      | StatusLeased \<Rightarrow> ex_LeaseToken ex \<noteq> '''' \<and> ma_completedEpoch r = 0 \<and> ex_LeaseExpiresAt ex \<le> envelope_end r
      | StatusRunning \<Rightarrow> ex_LeaseToken ex \<noteq> '''' \<and> ma_completedEpoch r = 0 \<and> ex_LeaseExpiresAt ex \<le> envelope_end r
      | StatusFinalizing \<Rightarrow> ex_LeaseToken ex = '''' \<and> ma_completedEpoch r = ex_LeaseEpoch ex \<and>
          ex_CompletionStatus ex \<in> {StatusSucceeded, StatusFailed, StatusUncertain} \<and>
          map_option rc_CompletionStatus (ma_receipt r) = Some (ex_CompletionStatus ex)
      | StatusRaw _ \<Rightarrow> False
      | _ \<Rightarrow> ex_LeaseToken ex = '''' \<and> (ma_completedEpoch r = 0 \<or> ma_completedEpoch r = ex_LeaseEpoch ex))"

definition record_phase :: "memoryActionRecord \<Rightarrow> bool" where
  "record_phase r \<longleftrightarrow>
     (let ex = ma_execution r in
      0 \<le> ex_LeaseEpoch ex \<and> ex_LeaseEpoch ex \<le> MaxInt64 \<and> status_fields r \<and>
      (ex_Pool ex = PoolWrite \<and> ex_Production ex \<longrightarrow> ex_Status ex \<in> {StatusQueued, StatusCancelled}) \<and>
      (ex_ReconciliationID ex \<noteq> '''' \<longrightarrow> ex_Status ex \<in> {StatusSucceeded, StatusFailed}))"

definition queue_record_ok :: "queue_ext \<Rightarrow> string \<Rightarrow> memoryActionRecord \<Rightarrow> bool" where
  "queue_record_ok x i r \<longleftrightarrow> record_bound x i r \<and> record_phase r"

lemmas record_phase_defs = record_phase_def status_fields_def Let_def

definition queue_inv :: "queue_ext \<Rightarrow> MemoryActionQueue \<Rightarrow> bool" where
  "queue_inv x s \<longleftrightarrow>
     distinct (gkeys (mq_records s)) \<and> distinct (mq_order s) \<and>
     set (mq_order s) = set (gkeys (mq_records s)) \<and>
     (\<forall>i r. gget (mq_records s) i = Some r \<longrightarrow> queue_record_ok x i r) \<and>
     exclusive record_target record_active (mq_records s) \<and>
     (\<forall>i r. gget (mq_records s) i = Some r \<longrightarrow> gget (mq_idempotency s) (idempotency_key r) = Some i) \<and>
     (\<forall>k i. gget (mq_idempotency s) k = Some i \<longrightarrow>
        (\<exists>r. gget (mq_records s) i = Some r \<and> idempotency_key r = k))"

definition empty_queue :: MemoryActionQueue where
  "empty_queue = \<lparr>mq_records = [], mq_idempotency = [], mq_order = []\<rparr>"

interpretation action_lock: lock_table record_target record_active .

lemma queue_invD:
  assumes "queue_inv x s"
  shows "distinct (gkeys (mq_records s))" and "distinct (mq_order s)"
    and "set (mq_order s) = set (gkeys (mq_records s))"
    and "gget (mq_records s) i = Some r \<Longrightarrow> queue_record_ok x i r"
    and "exclusive record_target record_active (mq_records s)"
    and "gget (mq_records s) i = Some r \<Longrightarrow> gget (mq_idempotency s) (idempotency_key r) = Some i"
    and "gget (mq_idempotency s) k = Some i \<Longrightarrow>
      \<exists>r. gget (mq_records s) i = Some r \<and> idempotency_key r = k"
  using assms unfolding queue_inv_def by blast+

lemma queue_inv_empty: "queue_inv x empty_queue"
  by (simp add: queue_inv_def empty_queue_def action_lock.exclusive_empty)

lemma same_action_refl: "same_action r r"
  by (simp add: same_action_def)

lemma same_action_trans: "same_action a b \<Longrightarrow> same_action b c \<Longrightarrow> same_action a c"
  by (simp add: same_action_def)

lemma record_move_refl: "record_move e r r"
  by (simp add: record_move_def)

lemma record_move_keepI:
  "same_action r r' \<Longrightarrow> record_epoch r' = record_epoch r \<Longrightarrow> record_status r' = record_status r \<Longrightarrow>
   record_status r \<in> {StatusLeased, StatusRunning} \<Longrightarrow> record_move e r r'"
  unfolding record_move_def by blast

lemma record_moveI:
  "same_action r r' \<Longrightarrow> record_epoch r' = record_epoch r \<Longrightarrow>
   record_status r' \<in> set (status_next (record_status r)) \<Longrightarrow> record_status r' \<noteq> StatusLeased \<Longrightarrow>
   (record_active r \<Longrightarrow> \<not> record_active r' \<Longrightarrow> cleaned e r) \<Longrightarrow> record_move e r r'"
  unfolding record_move_def by blast

lemma record_move_same: "record_move e r r' \<Longrightarrow> same_action r r'"
  by (auto simp: record_move_def same_action_refl)

lemma record_move_active: "record_move e r r' \<Longrightarrow> record_active r' \<Longrightarrow> record_active r"
  by (cases "record_status r"; cases "record_status r'")
    (auto simp: record_move_def record_active_def actionLeaseActive_def)

lemma same_action_key: "same_action r r' \<Longrightarrow> idempotency_key r' = idempotency_key r"
  by (simp add: same_action_def idempotency_key_def)

lemma same_action_target: "same_action r r' \<Longrightarrow> record_target r' = record_target r"
  by (simp add: same_action_def record_target_def)

lemma envelope_end_same: "same_action r r' \<Longrightarrow> envelope_end r' = envelope_end r"
  by (simp add: same_action_def envelope_end_def)

lemma record_bound_same: "same_action r r' \<Longrightarrow> record_bound x i r \<Longrightarrow> record_bound x i r'"
  by (simp add: record_bound_def same_action_def Let_def)

lemma queue_record_ok_move:
  "queue_record_ok x i r \<Longrightarrow> record_move e r r' \<Longrightarrow> record_phase r' \<Longrightarrow> queue_record_ok x i r'"
  unfolding queue_record_ok_def using record_bound_same record_move_same by blast

section \<open>Effects\<close>

inductive queue_effect :: "queue_ext \<Rightarrow> queue_env \<Rightarrow> MemoryActionQueue \<Rightarrow> MemoryActionQueue \<Rightarrow> bool"
  for x e s where
  qeff_expire: "queue_effect x e s (expireLocked x e t s)"
| qeff_insert: "gget (mq_records s) i = None \<Longrightarrow> gget (mq_idempotency s) (idempotency_key r) = None \<Longrightarrow>
    queue_record_ok x i r \<Longrightarrow> record_status r = StatusQueued \<Longrightarrow>
    queue_effect x e s (s\<lparr>mq_records := gset i r (mq_records s),
      mq_idempotency := gset (idempotency_key r) i (mq_idempotency s), mq_order := mq_order s @ [i]\<rparr>)"
| qeff_grant: "gget (mq_records s) i = Some r \<Longrightarrow> record_status r = StatusQueued \<Longrightarrow>
    \<not> targetActive s (ex_TargetKey (ma_execution r)) (ex_ExecutionID (ma_execution r)) \<Longrightarrow>
    \<not> (ex_Pool (ma_execution r) = PoolWrite \<and> ex_Production (ma_execution r)) \<Longrightarrow>
    record_epoch r \<noteq> MaxInt64 \<Longrightarrow> validIdentifier token 256 \<Longrightarrow>
    queue_effect x e s (put_record i (grant_action q t token r) s)"
| qeff_put: "gget (mq_records s) i = Some r \<Longrightarrow> record_move e r r' \<Longrightarrow> record_phase r' \<Longrightarrow>
    queue_effect x e s (put_record i r' s)"

lemma requireCredentialTerminal_cleaned:
  "requireCredentialTerminal e phase r allowMissing = None \<Longrightarrow>
   (allowMissing \<Longrightarrow> record_status r = StatusLeased) \<Longrightarrow> cleaned e r"
  by (auto simp: requireCredentialTerminal_def cleaned_def split: option.splits if_splits prod.splits)


lemma settle_move:
  assumes "record_status r = StatusFinalizing"
    and "ex_CompletionStatus (ma_execution r) \<in> {StatusSucceeded, StatusFailed, StatusUncertain}"
    and "releasesTargetLock (ex_CompletionStatus (ma_execution r)) \<Longrightarrow> cleaned e r"
  shows "record_move e r (settle t r)"
proof (rule record_moveI)
  show "cleaned e r" if "\<not> record_active (settle t r)"
    using that assms(2) by (intro assms(3))
      (auto simp: settle_def record_active_def actionLeaseActive_def releasesTargetLock_def)
qed (use assms(1,2) in \<open>auto simp: settle_def same_action_def\<close>)

lemma finalizing_phase:
  "record_phase r \<Longrightarrow> record_status r = StatusFinalizing \<Longrightarrow>
   ex_CompletionStatus (ma_execution r) \<in> {StatusSucceeded, StatusFailed, StatusUncertain}"
  by (simp add: record_phase_defs)

lemma settle_phase:
  assumes "record_phase r" and "record_status r = StatusFinalizing"
  shows "record_phase (settle t r)"
proof -
  have "\<exists>st. st \<in> {StatusSucceeded, StatusFailed, StatusUncertain} \<and>
      ex_CompletionStatus (ma_execution r) = st"
    using finalizing_phase [OF assms] by simp
  then obtain st where "st \<in> {StatusSucceeded, StatusFailed, StatusUncertain}"
    and st: "ex_CompletionStatus (ma_execution r) = st" by blast
  then show ?thesis
    using assms by (elim insertE emptyE) (simp_all add: record_phase_defs settle_def)
qed

lemma expire_action_move:
  assumes ok: "record_phase r"
  shows "record_move e r (expire_action x e t r) \<and> record_phase (expire_action x e t r)"
proof (cases "record_status r = StatusFinalizing")
  case True
  have "record_move e r (settle t r)"
    if "releasesTargetLock (ex_CompletionStatus (ma_execution r)) \<Longrightarrow>
      requireCredentialTerminal e WhileExpiring r False = None"
    using that requireCredentialTerminal_cleaned
    by (intro settle_move [OF True finalizing_phase [OF ok True]]) blast
  then show ?thesis
    using ok True settle_phase [OF ok True]
    by (auto simp: expire_action_def Let_def record_move_refl split: option.splits)
next
  case False
  have "record_phase (expire_action x e t r)"
    using ok False
    by (cases "record_status r") (simp_all add: expire_action_def record_phase_defs envelope_end_def)
  moreover have "record_move e r (expire_action x e t r)"
    using False requireCredentialTerminal_cleaned [of e WhileExpiring r True] record_move_refl [of e r]
    by (auto simp: expire_action_def Let_def same_action_def record_active_def actionLeaseActive_def
        intro!: record_moveI)
  ultimately show ?thesis by simp
qed

lemma queue_inv_update_all:
  assumes inv: "queue_inv x s"
    and f: "\<And>i r. gget (mq_records s) i = Some r \<Longrightarrow>
      record_move e r (f i r) \<and> record_phase (f i r)"
  shows "queue_inv x (s\<lparr>mq_records := gupdate_all f (mq_records s)\<rparr>)"
proof -
  note D = queue_invD [OF inv]
  have same: "same_action r (f i r)" and ok: "queue_record_ok x i (f i r)"
    if "gget (mq_records s) i = Some r" for i r
    using f [OF that] record_move_same queue_record_ok_move [OF D(4) [OF that]] by blast+
  have "exclusive record_target record_active (gupdate_all f (mq_records s))"
    using f record_move_active same_action_target [OF same]
    by (intro action_lock.exclusive_update_all [OF D(5)]) blast+
  then show ?thesis
    using D(1-3) ok D(6,7) same_action_key [OF same]
    by (fastforce simp: queue_inv_def gomap_simps)
qed

lemma queue_inv_expire: "queue_inv x s \<Longrightarrow> queue_inv x (expireLocked x e t s)"
  unfolding expireLocked_def
  by (rule queue_inv_update_all [where e = e])
    (simp_all add: expire_action_move queue_invD(4) [unfolded queue_record_ok_def])

lemma queue_inv_put:
  assumes inv: "queue_inv x s" and r: "gget (mq_records s) i = Some r" and same: "same_action r r'"
    and ok: "queue_record_ok x i r'"
    and lock: "exclusive record_target record_active (gset i r' (mq_records s))"
  shows "queue_inv x (put_record i r' s)"
proof -
  note D = queue_invD [OF inv]
  have "i \<in> fst ` set (mq_records s)" using r by (simp add: gkeys_gget)
  moreover have "gget (mq_idempotency s) (idempotency_key r') = Some i"
    using D(6) [OF r] same_action_key [OF same] by simp
  moreover have "\<exists>r''. gget (gset i r' (mq_records s)) j = Some r'' \<and> idempotency_key r'' = k"
    if "gget (mq_idempotency s) k = Some j" for k j
    using D(7) [OF that] r same_action_key [OF same] by (auto simp: gomap_simps)
  ultimately show ?thesis
    using D(1-4,6) ok lock
    by (auto simp: queue_inv_def put_record_def gomap_simps distinct_gset gkeys_gset insert_absorb)
qed

lemma grant_action_ok:
  assumes "queue_record_ok x i r" and "record_status r = StatusQueued"
    and "\<not> (ex_Pool (ma_execution r) = PoolWrite \<and> ex_Production (ma_execution r))"
    and "record_epoch r \<noteq> MaxInt64" and "validIdentifier token 256"
  shows "queue_record_ok x i (grant_action q t token r)"
    and "same_action r (grant_action q t token r)"
    and "record_epoch (grant_action q t token r) = record_epoch r + 1"
proof -
  have bound: "record_bound x i r" and phase: "record_phase r"
    using assms(1) by (simp_all add: queue_record_ok_def)
  have next_epoch: "wrap64 (record_epoch r + 1) = record_epoch r + 1"
    using phase assms(4) by (intro wrap64_inc) (auto simp: record_phase_def Let_def go_defs)
  then show "record_epoch (grant_action q t token r) = record_epoch r + 1"
    by (simp add: grant_action_def Let_def)
  show same: "same_action r (grant_action q t token r)"
    by (simp add: same_action_def grant_action_def Let_def)
  have "record_phase (grant_action q t token r)"
    using phase next_epoch assms(2-5)
    by (auto simp: record_phase_defs grant_action_def envelope_end_def validIdentifier_def)
  then show "queue_record_ok x i (grant_action q t token r)"
    using record_bound_same [OF same bound] by (simp add: queue_record_ok_def)
qed

lemma queue_inv_grant:
  assumes inv: "queue_inv x s" and r: "gget (mq_records s) i = Some r"
    and "record_status r = StatusQueued"
    and free: "\<not> targetActive s (ex_TargetKey (ma_execution r)) (ex_ExecutionID (ma_execution r))"
    and "\<not> (ex_Pool (ma_execution r) = PoolWrite \<and> ex_Production (ma_execution r))"
    and "record_epoch r \<noteq> MaxInt64" and "validIdentifier token 256"
  shows "queue_inv x (put_record i (grant_action q t token r) s)"
proof -
  note D = queue_invD [OF inv]
  note grant = grant_action_ok [OF D(4) [OF r] assms(3,5,6,7)]
  have "exclusive record_target record_active (gset i (grant_action q t token r) (mq_records s))"
  proof (rule action_lock.exclusive_gset [OF D(5)])
    fix j r2
    assume r2: "gget (mq_records s) j = Some r2" "j \<noteq> i" "record_active r2"
    show "record_target r2 \<noteq> record_target (grant_action q t token r)"
    proof
      assume "record_target r2 = record_target (grant_action q t token r)"
      with r2 D(4) [OF r] same_action_target [OF grant(2)]
      have "targetActive s (ex_TargetKey (ma_execution r)) (ex_ExecutionID (ma_execution r))"
        unfolding targetActive_def
        by (intro gany_witness [OF r2(1)])
          (simp add: queue_record_ok_def record_bound_def Let_def record_target_def record_active_def)
      with free show False ..
    qed
  qed
  then show ?thesis by (rule queue_inv_put [OF inv r grant(2,1)])
qed

lemma queue_inv_insert:
  assumes inv: "queue_inv x s" and new: "gget (mq_records s) i = None"
    and key: "gget (mq_idempotency s) (idempotency_key r) = None"
    and ok: "queue_record_ok x i r" and "record_status r = StatusQueued"
  shows "queue_inv x (s\<lparr>mq_records := gset i r (mq_records s),
      mq_idempotency := gset (idempotency_key r) i (mq_idempotency s), mq_order := mq_order s @ [i]\<rparr>)"
proof -
  note D = queue_invD [OF inv]
  have "exclusive record_target record_active (gset i r (mq_records s))"
    by (rule action_lock.exclusive_insert_free [OF D(5)])
      (simp add: record_active_def actionLeaseActive_def assms(5))
  moreover have "i \<notin> set (mq_order s)" using D(3) new by (simp add: gkeys_gget)
  moreover have "idempotency_key q \<noteq> idempotency_key r" if "gget (mq_records s) j = Some q" for j q
    using D(6) [OF that] key by auto
  moreover have "\<exists>q. gget (gset i r (mq_records s)) j = Some q \<and> idempotency_key q = k"
    if "gget (gset (idempotency_key r) i (mq_idempotency s)) k = Some j" for k j
    using that D(7) [of k j] new by (auto simp: gomap_simps split: if_splits)
  ultimately show ?thesis
    using D(1-4,6) ok
    by (auto simp: queue_inv_def gomap_simps distinct_gset gkeys_gset)
qed

lemma queue_effect_inv: "queue_effect x e s u \<Longrightarrow> queue_inv x s \<Longrightarrow> queue_inv x u"
proof (induction rule: queue_effect.induct)
  case (qeff_put i r r')
  have same: "same_action r r'" by (rule record_move_same [OF qeff_put(2)])
  have "exclusive record_target record_active (gset i r' (mq_records s))"
    using record_move_active [OF qeff_put(2)]
    by (intro action_lock.exclusive_keep [OF queue_invD(5) [OF qeff_put(4)] qeff_put(1)]
        same_action_target [OF same])
  then show ?case
    using queue_record_ok_move [OF queue_invD(4) [OF qeff_put(4) qeff_put(1)] qeff_put(2,3)]
    by (intro queue_inv_put [OF qeff_put(4) qeff_put(1) same])
qed (simp_all add: queue_inv_expire queue_inv_insert queue_inv_grant)


abbreviation queue_effects :: "queue_ext \<Rightarrow> queue_env \<Rightarrow> MemoryActionQueue \<Rightarrow> MemoryActionQueue \<Rightarrow> bool" where
  "queue_effects x e \<equiv> (queue_effect x e)\<^sup>*\<^sup>*"

lemma queue_effects_expire: "queue_effects x e s (expireLocked x e t s)"
  by (rule r_into_rtranclp) (rule qeff_expire)

lemma queue_effects_then: "queue_effects x e (expireLocked x e t s) u \<Longrightarrow> queue_effects x e s u"
  using queue_effects_expire by (rule rtranclp_trans)

lemmas queue_effects_put = r_into_rtranclp [where r = "queue_effect x e" for x e, OF qeff_put]
lemmas queue_effects_expire_put = queue_effects_then [OF queue_effects_put]

lemma queue_inv_phase: "queue_inv x s \<Longrightarrow> gget (mq_records s) i = Some r \<Longrightarrow> record_phase r"
  using queue_invD(4) by (auto simp: queue_record_ok_def)

lemma Submit_effects: "queue_effects x e s (fst (Queue_Submit x e sub s))"
proof -
  have "queue_record_ok x (en_ActionID (as_Envelope sub)) r"
    if "validateActionSubmission sub = None" and "RequestSemanticHash x sub = Inr h"
      and "r = \<lparr>ma_submission = sub, ma_requestHash = h, ma_receipt = None, ma_completedTokenHash = '''',
        ma_completedEpoch = 0, ma_execution = zero_Execution\<lparr>ex_ExecutionID := en_ActionID (as_Envelope sub),
          ex_TargetKey := as_TargetKey sub, ex_Pool := as_Pool sub, ex_Production := as_Production sub,
          ex_Status := StatusQueued, ex_CreatedAt := t, ex_UpdatedAt := t\<rparr>,
        ma_notBefore = 0, ma_lastNackHash = ''''\<rparr>" for h t r
    using that by (simp add: queue_record_ok_def record_bound_def record_phase_defs zero_Execution_def MaxInt64_def)
  note ok = this [OF _ _ refl]
  show ?thesis
    using r_into_rtranclp [where r = "queue_effect x e", OF qeff_insert [OF _ _ ok]]
    by (auto simp: Queue_Submit_def Let_def idempotency_key_def split: option.splits sum.splits)
qed

lemma queue_claim_loop_effects: "queue_effects x e s (fst (queue_claim_loop e q t n is s))"
proof (induction "is" arbitrary: t n)
  case Nil
  show ?case by simp
next
  case (Cons i "is")
  show ?case
    using Cons.IH r_into_rtranclp [where r = "queue_effect x e", OF qeff_grant]
    by (auto simp: Let_def put_record_def split: option.splits sum.splits)
qed

lemma Claim_queue_effects: "queue_effects x e s (fst (Queue_Claim x e q s))"
  by (auto simp: Queue_Claim_def Let_def intro: queue_effects_expire queue_effects_then
      queue_claim_loop_effects split: option.splits sum.splits)

lemma Start_queue_effects:
  assumes "queue_inv x s" shows "queue_effects x e s (fst (Queue_Start e f s))"
proof -
  have "queue_effects x e s (put_record i (r\<lparr>ma_execution := (ma_execution r)\<lparr>ex_Status := StatusRunning,
      ex_StartedAt := t, ex_UpdatedAt := t\<rparr>\<rparr>) s)"
    if "gget (mq_records s) i = Some r" "record_status r = StatusLeased" for i r t
    using queue_inv_phase [OF assms that(1)]
    by (intro queue_effects_put [OF that(1)] record_moveI)
      (simp_all add: that same_action_def record_active_def actionLeaseActive_def record_phase_defs envelope_end_def)
  then show ?thesis
    by (auto simp: Queue_Start_def Let_def split: option.splits sum.splits)
qed


text \<open>
  The other calls that write one record: what is left to check for each is the status it leaves
  and the fields that status speaks of.
\<close>

lemma put_leased:
  assumes inv: "queue_inv x s" and r: "gget (mq_records s) i = Some r"
    and live: "record_status r \<in> {StatusLeased, StatusRunning}"
    and same: "same_action r r'" "record_epoch r' = record_epoch r" "record_status r' = record_status r"
    and keep: "ma_completedEpoch r' = ma_completedEpoch r"
      "ex_ReconciliationID (ma_execution r') = ex_ReconciliationID (ma_execution r)"
      "ex_LeaseToken (ma_execution r') = ex_LeaseToken (ma_execution r)"
      "ex_LeaseExpiresAt (ma_execution r') \<le> max (ex_LeaseExpiresAt (ma_execution r)) (envelope_end r)"
  shows "queue_effects x e s (put_record i r' s)"
proof (rule queue_effects_put [OF r])
  show "record_move e r r'" using same live by (rule record_move_keepI)
  have "ex_LeaseExpiresAt (ma_execution r) \<le> envelope_end r"
    using queue_inv_phase [OF inv r] live by (auto simp: record_phase_defs)
  then show "record_phase r'"
    using queue_inv_phase [OF inv r] live same keep envelope_end_same [OF same(1)]
    by (auto simp: record_phase_defs same_action_def)
qed

lemma put_closed:
  assumes inv: "queue_inv x s" and r: "gget (mq_records s) i = Some r"
    and live: "record_status r \<in> {StatusLeased, StatusRunning, StatusQueued}"
    and same: "same_action r r'" "record_epoch r' = record_epoch r"
      "ex_ReconciliationID (ma_execution r') = ex_ReconciliationID (ma_execution r)"
    and status': "record_status r' \<in> set (status_next (record_status r))"
      "record_status r' \<in> {StatusQueued, StatusFailed, StatusCancelled}"
    and clean: "record_status r = StatusLeased \<Longrightarrow> cleaned e r"
    and done': "ex_LeaseToken (ma_execution r') = ''''"
      "ma_completedEpoch r' = 0 \<or> record_status r' = StatusFailed \<and> ma_completedEpoch r' = record_epoch r"
  shows "queue_effects x e s (put_record i r' s)"
proof (rule queue_effects_put [OF r])
  have "\<not> (ex_Pool (ma_execution r) = PoolWrite \<and> ex_Production (ma_execution r)) \<or>
      record_status r = StatusQueued" and "ex_ReconciliationID (ma_execution r) = ''''"
    using queue_inv_phase [OF inv r] live by (auto simp: record_phase_defs)
  then show "record_phase r'"
    using queue_inv_phase [OF inv r] same status' done'
    by (auto simp: record_phase_defs same_action_def)
  have "record_active r \<Longrightarrow> record_status r = StatusLeased"
    using live status' by (auto simp: record_active_def actionLeaseActive_def)
  then show "record_move e r r'"
    using same status' clean by (intro record_moveI) auto
qed

lemma Heartbeat_queue_effects:
  assumes "queue_inv x s" shows "queue_effects x e s (fst (Queue_Heartbeat e q s))"
  by (auto simp: Queue_Heartbeat_def Let_def same_action_def envelope_end_def
      intro!: put_leased [OF assms] split: option.splits sum.splits)

lemma fence_epoch: "currentActionFence ex f t \<Longrightarrow> li_Epoch f = ex_LeaseEpoch ex"
  by (simp add: currentActionFence_def sameActionFence_def)

lemma ResultSummaryStatus_cases:
  "ResultSummaryStatus v = Inr st \<Longrightarrow> st \<in> {StatusSucceeded, StatusFailed, StatusUncertain}"
  by (auto simp: ResultSummaryStatus_def split: if_splits ExecutorOutcome.splits)

lemma BuildRunnerResultReceipt_status:
  "BuildRunnerResultReceipt x c q st t = Inr rc \<Longrightarrow> rc_CompletionStatus rc = st"
  by (auto simp: BuildRunnerResultReceipt_def buildRunnerResultReceipt_def Let_def
      split: if_splits option.splits)

lemma put_finalizing:
  assumes inv: "queue_inv x s" and r: "gget (mq_records s) i = Some r"
    and run: "record_status r = StatusRunning"
    and st: "st \<in> {StatusSucceeded, StatusFailed, StatusUncertain}" "rc_CompletionStatus rc = st"
  shows "queue_effects x e s (put_record i (r\<lparr>ma_execution := (ma_execution r)\<lparr>ex_Status := StatusFinalizing,
      ex_CompletionStatus := st, ex_ResultHash := h, ex_LeaseExpiresAt := 0, ex_LeaseToken := '''',
      ex_UpdatedAt := t\<rparr>, ma_receipt := Some rc, ma_completedTokenHash := th,
      ma_completedEpoch := record_epoch r\<rparr>) s)"
  using queue_inv_phase [OF inv r] st
  by (intro queue_effects_put [OF r] record_moveI)
    (auto simp: run same_action_def record_active_def actionLeaseActive_def record_phase_defs)

lemma Complete_queue_effects:
  assumes "queue_inv x s" shows "queue_effects x e s (fst (Queue_Complete x e q s))"
proof -
  have "queue_effects x e s (put_record i (r\<lparr>ma_execution := (ma_execution r)\<lparr>ex_Status := StatusFinalizing,
      ex_CompletionStatus := st, ex_ResultHash := h, ex_LeaseExpiresAt := 0, ex_LeaseToken := '''',
      ex_UpdatedAt := t'\<rparr>, ma_receipt := Some rc, ma_completedTokenHash := th,
      ma_completedEpoch := li_Epoch f\<rparr>) s)"
    if "gget (mq_records s) i = Some r" "currentActionFence (ma_execution r) f t"
      "record_status r = StatusRunning" "ResultSummaryStatus v = Inr st"
      "BuildRunnerResultReceipt x c q st t = Inr rc" for i r f t t' v st rc c h th
    using put_finalizing [OF assms that(1,3) ResultSummaryStatus_cases [OF that(4)]
        BuildRunnerResultReceipt_status [OF that(5)]] fence_epoch [OF that(2)] by simp
  then show ?thesis
    by (auto simp: Queue_Complete_def Let_def split: option.splits sum.splits)
qed

lemma Finalize_queue_effects:
  assumes "queue_inv x s" shows "queue_effects x e s (fst (Queue_Finalize x e f s))"
proof -
  have "queue_effects x e s (put_record i (settle t r) s)"
    if r: "gget (mq_records s) i = Some r" and fin: "record_status r = StatusFinalizing"
      and gate: "releasesTargetLock (ex_CompletionStatus (ma_execution r)) \<Longrightarrow>
        requireCredentialTerminal e InCall r False = None" for i r t
    using settle_move [OF fin finalizing_phase [OF queue_inv_phase [OF assms r] fin]]
      settle_phase [OF queue_inv_phase [OF assms r] fin] requireCredentialTerminal_cleaned gate
    by (intro queue_effects_put [OF r]) blast+
  then show ?thesis
    by (auto simp: Queue_Finalize_def Let_def split: option.splits sum.splits if_splits)
qed


lemma Reject_queue_effects:
  assumes "queue_inv x s" shows "queue_effects x e s (fst (Queue_Reject x e q s))"
  using requireCredentialTerminal_cleaned
  by (auto simp: Queue_Reject_def Let_def same_action_def dest!: fence_epoch
      intro!: put_closed [OF assms] split: option.splits sum.splits)

lemma queued_completed: "queue_inv x s \<Longrightarrow> gget (mq_records s) i = Some r \<Longrightarrow>
    record_status r \<in> {StatusQueued, StatusLeased} \<Longrightarrow> ma_completedEpoch r = 0"
  using queue_inv_phase [of x s i r] by (auto simp: record_phase_defs)

lemma Nack_queue_effects:
  assumes "queue_inv x s" shows "queue_effects x e s (fst (Queue_Nack x e q s))"
  using requireCredentialTerminal_cleaned queued_completed [OF assms]
  by (auto simp: Queue_Nack_def Let_def same_action_def
      intro!: put_closed [OF assms] split: option.splits sum.splits)

lemma put_reconciled:
  assumes inv: "queue_inv x s" and r: "gget (mq_records s) i = Some r"
    and unc: "record_status r = StatusUncertain" and gate: "requireCredentialTerminal e InCall r False = None"
    and st: "st \<in> {StatusSucceeded, StatusFailed}"
  shows "queue_effects x e s (put_record i (r\<lparr>ma_execution := (ma_execution r)\<lparr>ex_Status := st,
      ex_ReconciliationID := rid, ex_ReconciliationActor := actor, ex_ReconciliationResultHash := h,
      ex_ReconciledAt := t, ex_UpdatedAt := t\<rparr>\<rparr>) s)"
  using queue_inv_phase [OF inv r] st requireCredentialTerminal_cleaned [OF gate]
  by (intro queue_effects_put [OF r] record_moveI)
    (auto simp: unc same_action_def record_phase_defs)

lemma Reconcile_queue_effects:
  assumes "queue_inv x s" shows "queue_effects x e s (fst (Queue_Reconcile x e q s))"
proof -
  note put = queue_effects_then [OF put_reconciled [OF queue_inv_expire [OF assms]]]
  show ?thesis
    by (auto simp: Queue_Reconcile_def Let_def intro!: put queue_effects_expire
        split: option.splits sum.splits)
qed

lemma Cancel_queue_effects:
  assumes inv: "queue_inv x s" shows "queue_effects x e s (fst (Queue_Cancel x e i s))"
proof -
  let ?s = "\<lambda>t. expireLocked x e t s"
  have running: "queue_effects x e s (put_record i (r\<lparr>ma_execution := (ma_execution r)
      \<lparr>ex_CancelRequestedAt := t, ex_CancelReasonHash := h, ex_UpdatedAt := t\<rparr>\<rparr>) (?s t))"
    if "gget (mq_records (?s t)) i = Some r" "record_status r = StatusRunning" for r t h
    using that by (intro queue_effects_then [OF put_leased [OF queue_inv_expire [OF inv]]])
      (auto simp: same_action_def)
  have cancelled: "queue_effects x e s (put_record i (r\<lparr>ma_execution := (ma_execution r)
      \<lparr>ex_Status := StatusCancelled, ex_RunnerID := '''', ex_RunnerTenantID := '''',
       ex_RunnerWorkspaceID := '''', ex_RunnerEnvironmentID := '''', ex_LeaseToken := '''',
       ex_LeaseExpiresAt := 0, ex_CompletedAt := t, ex_UpdatedAt := t\<rparr>\<rparr>) (?s t))"
    if r: "gget (mq_records (?s t)) i = Some r" and nt: "\<not> Terminal (ma_execution r)"
      "record_status r \<noteq> StatusFinalizing" "record_status r \<noteq> StatusRunning"
      and gate: "record_status r = StatusLeased \<longrightarrow> requireCredentialTerminal e InCall r True = None"
    for r t
  proof -
    have "record_status r \<noteq> StatusRaw raw" for raw
      using queue_inv_phase [OF queue_inv_expire [OF inv] r] by (auto simp: record_phase_defs)
    then have st: "record_status r \<in> {StatusQueued, StatusLeased}"
      using nt by (cases "record_status r") (auto simp: Terminal_def terminalStatus_def)
    show ?thesis
      using st gate requireCredentialTerminal_cleaned [of e InCall r True]
        queued_completed [OF queue_inv_expire [OF inv] r st]
      by (intro queue_effects_then [OF put_closed [OF queue_inv_expire [OF inv] r]])
        (auto simp: same_action_def)
  qed
  show ?thesis
    by (auto simp: Queue_Cancel_def Let_def intro!: queue_effects_expire running cancelled
        split: option.splits sum.splits if_splits)
qed

lemma Sweep_queue_effects: "queue_effects x e s (fst (Queue_SweepExpired x e s))"
  by (auto simp: Queue_SweepExpired_def intro: queue_effects_expire split: option.splits sum.splits)

lemma Get_queue_effects: "queue_effects x e s (fst (Queue_Get x e i s))"
  by (auto simp: Queue_Get_def Let_def intro: queue_effects_expire split: option.splits sum.splits)

lemma queue_call_effects: "queue_call x e s u \<Longrightarrow> queue_inv x s \<Longrightarrow> queue_effects x e s u"
  by (induction rule: queue_call.induct)
    (simp_all add: Submit_effects Claim_queue_effects Start_queue_effects Heartbeat_queue_effects
      Complete_queue_effects Finalize_queue_effects Reject_queue_effects Nack_queue_effects
      Reconcile_queue_effects Cancel_queue_effects Sweep_queue_effects Get_queue_effects)

interpretation queue_effect_system: invariant_system empty_queue "queue_effect x e" "queue_inv x"
  by unfold_locales (rule queue_inv_empty, rule queue_effect_inv)

lemma queue_step_inv: "queue_step x s u \<Longrightarrow> queue_inv x s \<Longrightarrow> queue_inv x u"
  unfolding queue_step_def
  using queue_call_effects queue_effect_system.steps_inv by blast

interpretation queue_calls: invariant_system empty_queue "queue_step x" "queue_inv x"
  by unfold_locales (rule queue_inv_empty, rule queue_step_inv)


section \<open>What a call does to a record\<close>

definition status_path :: "Status \<Rightarrow> Status \<Rightarrow> bool" where
  "status_path = (\<lambda>a b. b \<in> set (status_next a))\<^sup>*\<^sup>*"

definition final_record :: "memoryActionRecord \<Rightarrow> bool" where
  "final_record r \<longleftrightarrow> record_status r \<in> {StatusSucceeded, StatusFailed, StatusCancelled}"

definition held_on :: "queue_env \<Rightarrow> memoryActionRecord \<Rightarrow> memoryActionRecord \<Rightarrow> bool" where
  "held_on e r r' \<longleftrightarrow> cleaned e r \<or>
     record_active r' \<and> record_epoch r' = record_epoch r \<and>
     (record_status r' = StatusLeased \<longrightarrow> record_status r = StatusLeased)"

definition record_call :: "queue_env \<Rightarrow> memoryActionRecord \<Rightarrow> memoryActionRecord \<Rightarrow> bool" where
  "record_call e r r' \<longleftrightarrow> same_action r r' \<and> record_epoch r \<le> record_epoch r' \<and>
     status_path (record_status r) (record_status r') \<and> (final_record r \<longrightarrow> r' = r) \<and>
     (record_active r \<longrightarrow> held_on e r r')"

lemma record_call_refl: "record_call e r r"
  by (simp add: record_call_def same_action_refl status_path_def held_on_def)

lemma cleaned_same:
  "same_action r r' \<Longrightarrow> record_epoch r' = record_epoch r \<Longrightarrow>
   (record_status r' = StatusLeased \<Longrightarrow> record_status r = StatusLeased) \<Longrightarrow> cleaned e r' \<Longrightarrow> cleaned e r"
  unfolding cleaned_def same_action_def by metis

lemma record_call_trans:
  assumes "record_call e a b" and "record_call e b c"
  shows "record_call e a c"
proof -
  have "held_on e a c" if "record_active a"
    using assms that cleaned_same [of a b e]
    unfolding record_call_def held_on_def by (metis (no_types, lifting))
  then show ?thesis
    using assms same_action_trans [of a b c] rtranclp_trans [of _ "record_status a" "record_status b"]
    by (auto simp: record_call_def status_path_def)
qed

lemma record_move_call: "record_move e r r' \<Longrightarrow> record_call e r r'"
proof (cases "r' = r")
  case True
  then show ?thesis using record_call_refl by simp
next
  case False
  assume "record_move e r r'"
  with False have same: "same_action r r'" "record_epoch r' = record_epoch r"
    and moved: "record_status r' = record_status r \<and> record_status r \<in> {StatusLeased, StatusRunning} \<or>
      record_status r' \<in> set (status_next (record_status r)) \<and> record_status r' \<noteq> StatusLeased \<and>
      (record_active r \<and> \<not> record_active r' \<longrightarrow> cleaned e r)"
    by (auto simp: record_move_def)
  from moved have "status_path (record_status r) (record_status r')" and "\<not> final_record r"
    by (auto simp: status_path_def final_record_def intro: r_into_rtranclp)
  moreover have "record_active r \<longrightarrow> held_on e r r'"
    using moved same(2) by (auto simp: held_on_def record_active_def)
  ultimately show ?thesis using same by (simp add: record_call_def)
qed

lemma queue_effect_record:
  assumes eff: "queue_effect x e s u" and inv: "queue_inv x s" and r: "gget (mq_records s) i = Some r"
  shows "\<exists>r'. gget (mq_records u) i = Some r' \<and> record_call e r r'"
  using eff
proof cases
  case (qeff_expire t)
  then show ?thesis
    using r record_move_call expire_action_move [OF queue_inv_phase [OF inv r]]
    by (auto simp: expireLocked_def gomap_simps)
next
  case (qeff_insert j q)
  then show ?thesis using r record_call_refl by (auto simp: gomap_simps)
next
  case (qeff_grant j q token cq t)
  note grant = grant_action_ok [OF queue_invD(4) [OF inv qeff_grant(2)] qeff_grant(3,5,6,7)]
  have "record_status (grant_action cq t token q) = StatusLeased"
    by (simp add: grant_action_def Let_def)
  then have "record_call e q (grant_action cq t token q)"
    using grant qeff_grant(3)
    by (auto simp: record_call_def status_path_def final_record_def record_active_def
        actionLeaseActive_def intro: r_into_rtranclp)
  then show ?thesis using qeff_grant r record_call_refl by (auto simp: put_record_def gomap_simps)
next
  case (qeff_put j q q')
  then show ?thesis
    using r record_move_call record_call_refl by (auto simp: put_record_def gomap_simps)
qed

lemma queue_effects_record:
  assumes "queue_effects x e s u" and "queue_inv x s" and "gget (mq_records s) i = Some r"
  shows "\<exists>r'. gget (mq_records u) i = Some r' \<and> record_call e r r'"
  using assms(1)
proof (induction rule: rtranclp_induct)
  case base
  show ?case using assms(3) record_call_refl by blast
next
  case (step v w)
  have inv: "queue_inv x v" by (rule queue_effect_system.steps_inv [OF step.hyps(1) assms(2)])
  from step.IH obtain r1 where "gget (mq_records v) i = Some r1" "record_call e r r1" by blast
  with queue_effect_record [OF step.hyps(2) inv] show ?case using record_call_trans by blast
qed

lemma queue_call_record:
  "queue_call x e s u \<Longrightarrow> queue_inv x s \<Longrightarrow> gget (mq_records s) i = Some r \<Longrightarrow>
   \<exists>r'. gget (mq_records u) i = Some r' \<and> record_call e r r'"
  using queue_call_effects queue_effects_record by blast


section \<open>Properties\<close>

text \<open>
  C4. One actor per target. In every state reachable by any calls, with any clock, tokens and
  gate answers, at most one action of a target is leased, running, finalizing or uncertain.
\<close>

theorem action_target_exclusive:
  assumes "(queue_step x)\<^sup>*\<^sup>* empty_queue s"
  shows "gcount (\<lambda>_ r. actionLeaseActive (ex_Status (ma_execution r)) \<and>
    ex_TargetKey (ma_execution r) = key) (mq_records s) \<le> 1"
proof -
  have inv: "queue_inv x s" by (rule queue_calls.reachable_inv [OF assms])
  show ?thesis
    using action_lock.exclusive_count [OF queue_invD(5) [OF inv] queue_invD(1) [OF inv], of key]
    by (simp add: record_active_def record_target_def)
qed

text \<open>
  No target of a write action is released before its credential is gone. If a call takes an
  action of the WRITE pool out of the statuses that hold its target (whether by finalizing,
  rejecting, returning, cancelling, reconciling or expiring it), then during that very call the
  gate reported the credential of this action and this epoch as present and terminal, or as never
  prepared, and the latter only for a lease that had not been started.
\<close>

lemma write_release_needs_cleanup:
  assumes reach: "(queue_step x)\<^sup>*\<^sup>* empty_queue s" and call: "queue_call x e s u"
    and r: "gget (mq_records s) i = Some r" and r': "gget (mq_records u) i = Some r'"
    and held: "actionLeaseActive (ex_Status (ma_execution r))"
    and freed: "\<not> actionLeaseActive (ex_Status (ma_execution r'))"
    and pool: "ex_Pool (ma_execution r) = PoolWrite"
  shows "\<exists>gate phase present terminal. qe_gate e = Some gate \<and>
    gate phase i (ex_LeaseEpoch (ma_execution r)) = Some (present, terminal) \<and>
    (present \<and> terminal \<or> \<not> present \<and> ex_Status (ma_execution r) = StatusLeased)"
proof -
  have inv: "queue_inv x s" by (rule queue_calls.reachable_inv [OF reach])
  have i: "ex_ExecutionID (ma_execution r) = i"
    using queue_invD(4) [OF inv r] by (simp add: queue_record_ok_def record_bound_def Let_def)
  have "record_call e r r'" using queue_call_record [OF call inv r] r' by auto
  then have "cleaned e r"
    using held freed by (simp add: record_call_def held_on_def record_active_def)
  then show ?thesis using pool by (auto simp: cleaned_def i)
qed

text \<open>The same over any number of calls, in any environments.\<close>

definition record_run :: "memoryActionRecord \<Rightarrow> memoryActionRecord \<Rightarrow> bool" where
  "record_run r r' \<longleftrightarrow> same_action r r' \<and> record_epoch r \<le> record_epoch r' \<and>
     status_path (record_status r) (record_status r') \<and> (final_record r \<longrightarrow> r' = r)"

lemma queue_steps_record:
  assumes "(queue_step x)\<^sup>*\<^sup>* s u" and "queue_inv x s" and "gget (mq_records s) i = Some r"
  shows "\<exists>r'. gget (mq_records u) i = Some r' \<and> record_run r r'"
  using assms(1)
proof (induction rule: rtranclp_induct)
  case base
  show ?case
    using assms(3) by (auto simp: record_run_def same_action_refl status_path_def)
next
  case (step v w)
  have inv: "queue_inv x v" by (rule queue_calls.steps_inv [OF step.hyps(1) assms(2)])
  from step.hyps(2) obtain e where call: "queue_call x e v w" by (auto simp: queue_step_def)
  from step.IH obtain r1 where r1: "gget (mq_records v) i = Some r1" "record_run r r1" by blast
  obtain r2 where r2: "gget (mq_records w) i = Some r2" "record_call e r1 r2"
    using queue_call_record [OF call inv r1(1)] by blast
  have "record_run r r2"
    using r1(2) r2(2) same_action_trans [of r r1 r2] rtranclp_trans [of _ "record_status r" "record_status r1"]
    by (auto simp: record_run_def record_call_def status_path_def)
  with r2(1) show ?case by blast
qed

text \<open>
  C15. The life cycle of an action. However many calls happen, a submitted action stays in the
  queue, its submission and request hash never change, its lease epoch never goes back, its status
  only moves along the state machine \<open>status_next\<close>, and once it has succeeded, failed or been
  cancelled its record never changes again.
\<close>

theorem action_life_cycle:
  assumes "(queue_step x)\<^sup>*\<^sup>* empty_queue s" and "gget (mq_records s) i = Some r"
    and "(queue_step x)\<^sup>*\<^sup>* s u"
  shows "\<exists>r'. gget (mq_records u) i = Some r' \<and>
    ma_submission r' = ma_submission r \<and> ma_requestHash r' = ma_requestHash r \<and>
    ex_LeaseEpoch (ma_execution r) \<le> ex_LeaseEpoch (ma_execution r') \<and>
    (\<lambda>a b. b \<in> set (status_next a))\<^sup>*\<^sup>* (ex_Status (ma_execution r)) (ex_Status (ma_execution r')) \<and>
    (ex_Status (ma_execution r) \<in> {StatusSucceeded, StatusFailed, StatusCancelled} \<longrightarrow> r' = r)"
  using queue_steps_record [OF assms(3) queue_calls.reachable_inv [OF assms(1)] assms(2)]
  by (auto simp: record_run_def same_action_def status_path_def final_record_def)

section \<open>Claims\<close>

definition claim_grants ::
  "queue_env \<Rightarrow> ActionClaimRequest \<Rightarrow> MemoryActionQueue \<Rightarrow> string \<Rightarrow> memoryActionRecord \<Rightarrow> nat \<Rightarrow> string \<Rightarrow> bool" where
  "claim_grants e q s i r m token \<longleftrightarrow>
     gget (mq_records s) i = Some r \<and> record_status r = StatusQueued \<and>
     ex_Pool (ma_execution r) = rs_pool (acq_Scope q) \<and>
     \<not> (ex_Pool (ma_execution r) = PoolWrite \<and> ex_Production (ma_execution r)) \<and>
     allows (acq_Scope q) (en_WorkspaceID (as_Envelope (ma_submission r)))
       (tr_EnvironmentID (en_Target (as_Envelope (ma_submission r)))) \<and>
     \<not> targetActive s (ex_TargetKey (ma_execution r)) (ex_ExecutionID (ma_execution r)) \<and>
     record_epoch r \<noteq> MaxInt64 \<and> qe_token e m = Some token \<and> validIdentifier token 256 \<and>
     qe_reclock e m < envelope_end r"

lemma queue_claim_loop_Inr:
  assumes "queue_claim_loop e q t n is s = (u, Inr c)"
  shows "\<exists>i r m token. i \<in> set is \<and> claim_grants e q s i r m token \<and>
    u = put_record i (grant_action q (qe_reclock e m) token r) s \<and>
    c = claimedAction (grant_action q (qe_reclock e m) token r)"
  using assms
proof (induction "is" arbitrary: t n)
  case Nil
  then show ?case by simp
next
  case (Cons i "is")
  have tail: ?case if "queue_claim_loop e q t' n' is s = (u, Inr c)" for t' n'
    using Cons.IH [OF that] by auto
  show ?case
  proof (cases "\<exists>t' n'. queue_claim_loop e q t' n' is s = (u, Inr c)")
    case True
    then show ?thesis using tail by blast
  next
    case False
    then obtain r where r: "gget (mq_records s) i = Some r"
      using Cons.prems by (auto split: option.splits)
    then obtain token where "claim_grants e q s i r n token"
      and "u = put_record i (grant_action q (qe_reclock e n) token r) s"
      and "c = claimedAction (grant_action q (qe_reclock e n) token r)"
      using Cons.prems False
      by (auto simp: Let_def claim_grants_def queue_now_def put_record_def
          split: if_splits option.splits sum.splits)
    then show ?thesis
      by (intro exI [of _ i] exI [of _ r] exI [of _ n] exI [of _ token]) simp
  qed
qed

lemma gcount_put_le:
  assumes "distinct (gkeys m)" shows "int (gcount p (gset k v m)) \<le> int (gcount p m) + 1"
  using gcount_gset_le [OF assms, of p k v] by linarith

text \<open>
  C24. What a claim grants. A successful \<open>Claim\<close> hands out an action that was queued, in the
  runner's pool, in a workspace and environment bound together in the runner's scope, not a
  production write, and whose target was free; the lease carries the token drawn and the next
  epoch, starts before the envelope expires and never outlives the envelope or the requested
  duration; and afterwards the runner holds at most as many actions as its registration allows.
\<close>

theorem action_claim_sound:
  assumes reach: "(queue_step x)\<^sup>*\<^sup>* empty_queue s" and claim: "Queue_Claim x e q s = (u, Inr c)"
  shows "\<exists>i r m. gget (mq_records (expireLocked x e (qe_clock e) s)) i = Some r \<and>
    ex_Status (ma_execution r) = StatusQueued \<and> ca_Envelope c = as_Envelope (ma_submission r) \<and>
    as_Pool (ma_submission r) = rs_pool (acq_Scope q) \<and>
    \<not> (as_Pool (ma_submission r) = PoolWrite \<and> as_Production (ma_submission r)) \<and>
    \<lparr>rb_WorkspaceID = en_WorkspaceID (ca_Envelope c),
     rb_EnvironmentID = tr_EnvironmentID (en_Target (ca_Envelope c))\<rparr> \<in> set (rs_bindings (acq_Scope q)) \<and>
    \<not> targetActive (expireLocked x e (qe_clock e) s) (as_TargetKey (ma_submission r)) i \<and>
    ex_RunnerID (ca_Execution c) = rs_runnerID (acq_Scope q) \<and>
    ex_LeaseEpoch (ca_Execution c) = ex_LeaseEpoch (ma_execution r) + 1 \<and>
    qe_token e m = Some (ex_LeaseToken (ca_Execution c)) \<and>
    ex_LeaseAcquiredAt (ca_Execution c) = qe_reclock e m \<and>
    qe_reclock e m < zt_instant (en_ExpiresAt (ca_Envelope c)) \<and>
    ex_LeaseExpiresAt (ca_Execution c) =
      min (qe_reclock e m + acq_LeaseDuration q) (zt_instant (en_ExpiresAt (ca_Envelope c))) \<and>
    runnerActive u (rs_runnerID (acq_Scope q)) \<le> rs_maxConcurrency (acq_Scope q)"
proof -
  let ?s = "expireLocked x e (qe_clock e) s"
  have inv: "queue_inv x ?s"
    by (rule queue_inv_expire [OF queue_calls.reachable_inv [OF reach]])
  have loop: "queue_claim_loop e q (qe_clock e) 0 (mq_order ?s) ?s = (u, Inr c)"
    and room: "runnerActive ?s (rs_runnerID (acq_Scope q)) < rs_maxConcurrency (acq_Scope q)"
    using claim
    by (auto simp: Queue_Claim_def queue_now_def Let_def split: option.splits if_splits)
  from queue_claim_loop_Inr [OF loop]
  obtain i r m token where r: "gget (mq_records ?s) i = Some r" "record_status r = StatusQueued"
    and fit: "ex_Pool (ma_execution r) = rs_pool (acq_Scope q)"
      "\<not> (ex_Pool (ma_execution r) = PoolWrite \<and> ex_Production (ma_execution r))"
      "allows (acq_Scope q) (en_WorkspaceID (as_Envelope (ma_submission r)))
        (tr_EnvironmentID (en_Target (as_Envelope (ma_submission r))))"
      "\<not> targetActive ?s (ex_TargetKey (ma_execution r)) (ex_ExecutionID (ma_execution r))"
    and draw: "record_epoch r \<noteq> MaxInt64" "qe_token e m = Some token" "validIdentifier token 256"
      "qe_reclock e m < envelope_end r"
    and u: "u = put_record i (grant_action q (qe_reclock e m) token r) ?s"
    and c: "c = claimedAction (grant_action q (qe_reclock e m) token r)"
    unfolding claim_grants_def by blast
  have ok: "queue_record_ok x i r" by (rule queue_invD(4) [OF inv r(1)])
  have epoch: "record_epoch (grant_action q (qe_reclock e m) token r) = record_epoch r + 1"
    by (rule grant_action_ok(3) [OF ok r(2) fit(2) draw(1,3)])
  have "runnerActive u (rs_runnerID (acq_Scope q)) \<le> rs_maxConcurrency (acq_Scope q)"
    using gcount_put_le [OF queue_invD(1) [OF inv]] room
    by (simp add: runnerActive_def u put_record_def) (smt (verit, best))
  moreover obtain b where "b \<in> set (rs_bindings (acq_Scope q))"
    "rb_WorkspaceID b = en_WorkspaceID (as_Envelope (ma_submission r))"
    "rb_EnvironmentID b = tr_EnvironmentID (en_Target (as_Envelope (ma_submission r)))"
    using fit(3) by (auto simp: allows_def list_ex_iff)
  moreover from this have "b = \<lparr>rb_WorkspaceID = en_WorkspaceID (as_Envelope (ma_submission r)),
    rb_EnvironmentID = tr_EnvironmentID (en_Target (as_Envelope (ma_submission r)))\<rparr>" by simp
  ultimately show ?thesis
    using r ok fit draw epoch
    by (intro exI [of _ i] exI [of _ r] exI [of _ m])
      (auto simp: c claimedAction_def grant_action_def Let_def queue_record_ok_def record_bound_def
        envelope_end_def)
qed


section \<open>Fencing and expiry\<close>

lemma stale_action_refused:
  assumes inv: "queue_inv x s" and r: "gget (mq_records s) (li_ExecutionID f) = Some r"
    and stale: "li_Epoch f < record_epoch r"
  shows "\<exists>err. Queue_Start e f s = (s, Inl err)"
    and "\<exists>err. Queue_Heartbeat e \<lparr>ah_Lease = f, ah_Sequence = n, ah_Extension = d\<rparr> s = (s, Inl err)"
    and "\<exists>err. Queue_Complete x e \<lparr>ac_Lease = f, ac_Summary = v\<rparr> s = (s, Inl err)"
    and "\<exists>err. Queue_Finalize x e f s = (s, Inl err)"
    and "\<exists>err. Queue_Reject x e \<lparr>rj_Lease = f, rj_Reason = why\<rparr> s = (s, Inl err)"
    and "\<exists>err. Queue_Nack x e \<lparr>nk_Lease = f, nk_Reason = why, nk_RetryAfter = d\<rparr> s = (s, Inl err)"
proof -
  have off: "\<not> sameActionFence (ma_execution r) f" "\<not> currentActionFence (ma_execution r) f t" for t
    using stale by (auto simp: sameActionFence_def currentActionFence_def)
  have "ma_completedEpoch r = 0 \<or> ma_completedEpoch r = record_epoch r"
    using queue_inv_phase [OF inv r] by (cases "record_status r") (auto simp: record_phase_defs)
  then have gone: "\<not> completed_by x r f" if "validActionFence f"
    using stale that by (auto simp: completed_by_def validActionFence_def)
  show "\<exists>err. Queue_Start e f s = (s, Inl err)"
    using r off by (auto simp: Queue_Start_def split: option.splits sum.splits)
  show "\<exists>err. Queue_Heartbeat e \<lparr>ah_Lease = f, ah_Sequence = n, ah_Extension = d\<rparr> s = (s, Inl err)"
    using r off by (auto simp: Queue_Heartbeat_def Let_def split: option.splits sum.splits)
  show "\<exists>err. Queue_Complete x e \<lparr>ac_Lease = f, ac_Summary = v\<rparr> s = (s, Inl err)"
    using r off gone by (auto simp: Queue_Complete_def Let_def split: option.splits sum.splits)
  show "\<exists>err. Queue_Finalize x e f s = (s, Inl err)"
    using r gone by (auto simp: Queue_Finalize_def Let_def split: option.splits sum.splits)
  show "\<exists>err. Queue_Reject x e \<lparr>rj_Lease = f, rj_Reason = why\<rparr> s = (s, Inl err)"
    using r off gone by (auto simp: Queue_Reject_def Let_def split: option.splits sum.splits)
  show "\<exists>err. Queue_Nack x e \<lparr>nk_Lease = f, nk_Reason = why, nk_RetryAfter = d\<rparr> s = (s, Inl err)"
    using r off by (auto simp: Queue_Nack_def Let_def split: option.splits sum.splits)
qed

text \<open>
  C22. Fencing. Once an action has been claimed again, a runner that still holds an earlier epoch is
  refused by every call that needs a lease, in that and in every later state, whatever token it
  presents, and the refused call leaves the queue as it was.
\<close>

theorem action_overtaken_refused:
  assumes "(queue_step x)\<^sup>*\<^sup>* empty_queue s"
    and "gget (mq_records s) (li_ExecutionID f) = Some r"
    and "li_Epoch f < ex_LeaseEpoch (ma_execution r)" and "(queue_step x)\<^sup>*\<^sup>* s u"
  shows "(\<exists>err. Queue_Start e f u = (u, Inl err)) \<and>
    (\<exists>err. Queue_Heartbeat e \<lparr>ah_Lease = f, ah_Sequence = n, ah_Extension = d\<rparr> u = (u, Inl err)) \<and>
    (\<exists>err. Queue_Complete x e \<lparr>ac_Lease = f, ac_Summary = v\<rparr> u = (u, Inl err)) \<and>
    (\<exists>err. Queue_Finalize x e f u = (u, Inl err)) \<and>
    (\<exists>err. Queue_Reject x e \<lparr>rj_Lease = f, rj_Reason = why\<rparr> u = (u, Inl err)) \<and>
    (\<exists>err. Queue_Nack x e \<lparr>nk_Lease = f, nk_Reason = why, nk_RetryAfter = d\<rparr> u = (u, Inl err))"
proof -
  have inv: "queue_inv x s" by (rule queue_calls.reachable_inv [OF assms(1)])
  obtain r' where r': "gget (mq_records u) (li_ExecutionID f) = Some r'" "record_run r r'"
    using queue_steps_record [OF assms(4) inv assms(2)] by blast
  then have "li_Epoch f < record_epoch r'" using assms(3) by (simp add: record_run_def)
  note refused = stale_action_refused [OF queue_calls.steps_inv [OF assms(4) inv] r'(1) this]
  show ?thesis by (intro conjI refused)
qed

text \<open>
  C23. Nothing runs past its signed window. A lease never outlives the envelope of its action, and
  from the envelope's expiry on the action can no longer be started, completed by a running
  runner, rejected or returned, and a heartbeat does not extend it: these calls leave the queue as
  it was, and a heartbeat that is still accepted tells the runner to terminate.
\<close>

theorem action_window_enforced:
  assumes "(queue_step x)\<^sup>*\<^sup>* empty_queue s" and r: "gget (mq_records s) (li_ExecutionID f) = Some r"
    and live: "ex_Status (ma_execution r) \<in> {StatusLeased, StatusRunning}"
    and late: "zt_instant (en_ExpiresAt (as_Envelope (ma_submission r))) \<le> qe_clock e"
  shows "ex_LeaseExpiresAt (ma_execution r) \<le> zt_instant (en_ExpiresAt (as_Envelope (ma_submission r))) \<and>
    (\<exists>err. Queue_Start e f s = (s, Inl err)) \<and>
    (\<exists>err. Queue_Complete x e \<lparr>ac_Lease = f, ac_Summary = v\<rparr> s = (s, Inl err)) \<and>
    (\<exists>err. Queue_Reject x e \<lparr>rj_Lease = f, rj_Reason = why\<rparr> s = (s, Inl err)) \<and>
    (\<exists>err. Queue_Nack x e \<lparr>nk_Lease = f, nk_Reason = why, nk_RetryAfter = d\<rparr> s = (s, Inl err)) \<and>
    (\<exists>answer. Queue_Heartbeat e \<lparr>ah_Lease = f, ah_Sequence = n, ah_Extension = d\<rparr> s = (s, answer) \<and>
       (\<forall>result. answer = Inr result \<longrightarrow> ahr_Directive result = HeartbeatTerminate))"
proof -
  have inv: "queue_inv x s" by (rule queue_calls.reachable_inv [OF assms(1)])
  have lease: "ex_LeaseExpiresAt (ma_execution r) \<le> envelope_end r"
    using queue_inv_phase [OF inv r] live by (auto simp: record_phase_defs)
  have off: "\<not> currentActionFence (ma_execution r) f (qe_clock e)" "\<not> After (envelope_end r) (qe_clock e)"
    using lease late by (auto simp: currentActionFence_def envelope_end_def)
  have "\<exists>err. Queue_Start e f s = (s, Inl err)"
    using r off by (auto simp: Queue_Start_def queue_now_def split: option.splits sum.splits)
  moreover have "\<exists>err. Queue_Complete x e \<lparr>ac_Lease = f, ac_Summary = v\<rparr> s = (s, Inl err)"
    using r off live
    by (auto simp: Queue_Complete_def Let_def queue_now_def Terminal_def terminalStatus_def
        split: option.splits sum.splits)
  moreover have "\<exists>err. Queue_Reject x e \<lparr>rj_Lease = f, rj_Reason = why\<rparr> s = (s, Inl err)"
    using r off live by (auto simp: Queue_Reject_def Let_def queue_now_def split: option.splits sum.splits)
  moreover have "\<exists>err. Queue_Nack x e \<lparr>nk_Lease = f, nk_Reason = why, nk_RetryAfter = d\<rparr> s = (s, Inl err)"
    using r off by (auto simp: Queue_Nack_def Let_def queue_now_def split: option.splits sum.splits)
  moreover have "\<exists>answer. Queue_Heartbeat e \<lparr>ah_Lease = f, ah_Sequence = n, ah_Extension = d\<rparr> s = (s, answer) \<and>
      (\<forall>result. answer = Inr result \<longrightarrow> ahr_Directive result = HeartbeatTerminate)"
    using r off by (auto simp: Queue_Heartbeat_def Let_def queue_now_def split: option.splits sum.splits)
  ultimately show ?thesis using lease by (simp add: envelope_end_def)
qed

section \<open>Submissions\<close>

lemma validToken_no_nul: "validToken s \<Longrightarrow> CHR 0x00 \<notin> set s"
  using match_identifier_no_nul by (simp add: validToken_def)

lemma scopeBindingKey_inj:
  "CHR 0x00 \<notin> set a \<Longrightarrow> CHR 0x00 \<notin> set a' \<Longrightarrow> scopeBindingKey a b = scopeBindingKey a' b' \<Longrightarrow>
   a = a' \<and> b = b'"
  unfolding scopeBindingKey_def by (rule append_sep_inj)

lemma record_workspace_token:
  "queue_inv x s \<Longrightarrow> gget (mq_records s) i = Some r \<Longrightarrow>
   CHR 0x00 \<notin> set (en_WorkspaceID (as_Envelope (ma_submission r)))"
  by (rule validToken_no_nul)
    (auto dest!: queue_invD(4) simp: queue_record_ok_def record_bound_def Let_def
      validateActionSubmission_def Validate_def split: option.splits)

text \<open>
  C39. Submitting is idempotent and never overwrites. After a submission was accepted, repeating
  the request (same action, or a new action id for the same workspace, idempotency key and
  semantics) at any later time returns the execution already there and changes nothing; a request
  that reuses the action id or the idempotency key with other semantics is refused with
  ErrJobConflict or ErrIdempotencyConflict, and changes nothing either.
\<close>

theorem submit_idempotent:
  assumes "(queue_step x)\<^sup>*\<^sup>* empty_queue s" and r: "gget (mq_records s) i = Some r"
    and valid: "qe_ctx e = None" "qe_clock e \<noteq> 0" "validateActionSubmission sub = None"
      "RequestSemanticHash x sub = Inr h"
    and key: "en_ActionID (as_Envelope sub) = i \<or>
      gget (mq_records s) (en_ActionID (as_Envelope sub)) = None \<and>
      en_WorkspaceID (as_Envelope sub) = en_WorkspaceID (as_Envelope (ma_submission r)) \<and>
      en_IdempotencyKey (as_Envelope sub) = en_IdempotencyKey (as_Envelope (ma_submission r))"
  shows "Queue_Submit x e sub s = (s,
    if RequestSemanticHash x (ma_submission r) = Inr h then Inr (redactActionExecution (ma_execution r))
    else Inl (if en_ActionID (as_Envelope sub) = i then ErrJobConflict else ErrIdempotencyConflict))"
proof -
  have inv: "queue_inv x s" by (rule queue_calls.reachable_inv [OF assms(1)])
  have h: "RequestSemanticHash x (ma_submission r) = Inr (ma_requestHash r)"
    using queue_invD(4) [OF inv r] by (simp add: queue_record_ok_def record_bound_def Let_def)
  show ?thesis
    using r valid key queue_invD(6) [OF inv r]
    by (auto simp: Queue_Submit_def queue_now_def Let_def h idempotency_key_def)
qed

text \<open>
  A new request is accepted. A valid submission whose action id is new and whose pair of
  workspace and idempotency key no action has (the index joins the two into one string, which is
  no source of false conflicts) is queued behind the others, with exactly the submission given;
  every other record stays as it was.
\<close>

theorem submit_fresh_accepted:
  assumes "(queue_step x)\<^sup>*\<^sup>* empty_queue s"
    and valid: "qe_ctx e = None" "qe_clock e \<noteq> 0" "validateActionSubmission sub = None"
      "RequestSemanticHash x sub = Inr h"
    and new: "gget (mq_records s) (en_ActionID (as_Envelope sub)) = None"
    and pair: "\<And>j q. gget (mq_records s) j = Some q \<Longrightarrow>
      (en_WorkspaceID (as_Envelope (ma_submission q)), en_IdempotencyKey (as_Envelope (ma_submission q))) \<noteq>
      (en_WorkspaceID (as_Envelope sub), en_IdempotencyKey (as_Envelope sub))"
  shows "\<exists>u ex r. Queue_Submit x e sub s = (u, Inr ex) \<and>
    gget (mq_records u) (en_ActionID (as_Envelope sub)) = Some r \<and> ma_submission r = sub \<and>
    ma_execution r = ex \<and> ex_Status ex = StatusQueued \<and> ex_LeaseEpoch ex = 0 \<and>
    mq_order u = mq_order s @ [en_ActionID (as_Envelope sub)] \<and>
    (\<forall>j. j \<noteq> en_ActionID (as_Envelope sub) \<longrightarrow> gget (mq_records u) j = gget (mq_records s) j)"
proof -
  have inv: "queue_inv x s" by (rule queue_calls.reachable_inv [OF assms(1)])
  have token: "CHR 0x00 \<notin> set (en_WorkspaceID (as_Envelope sub))"
    by (rule validToken_no_nul)
      (use valid(3) in \<open>auto simp: validateActionSubmission_def Validate_def split: option.splits\<close>)
  have "gget (mq_idempotency s) (scopeBindingKey (en_WorkspaceID (as_Envelope sub))
      (en_IdempotencyKey (as_Envelope sub))) = None"
  proof (rule ccontr)
    assume "\<not> ?thesis"
    then obtain j q where q: "gget (mq_records s) j = Some q"
      and "idempotency_key q = scopeBindingKey (en_WorkspaceID (as_Envelope sub))
        (en_IdempotencyKey (as_Envelope sub))"
      using queue_invD(7) [OF inv] by blast
    then show False
      using pair [OF q] scopeBindingKey_inj [OF record_workspace_token [OF inv q] token]
      by (simp add: idempotency_key_def)
  qed
  then show ?thesis
    using valid new
    by (simp add: Queue_Submit_def queue_now_def Let_def gomap_simps zero_Execution_def)
qed

section \<open>A concrete run\<close>

definition dq_ext :: queue_ext where
  "dq_ext = \<lparr>qx_sha = id, qx_jcs = Some,
     qx_request = (\<lambda>a. Some (aq_TargetKey a @ en_IdempotencyKey (aq_Envelope a)))\<rparr>"

definition dq_env :: "time \<Rightarrow> string \<Rightarrow> queue_env" where
  "dq_env t token = \<lparr>qe_ctx = None, qe_clock = t, qe_token = (\<lambda>_. Some token), qe_reclock = (\<lambda>_. t),
     qe_gate = Some (\<lambda>_ i n. if i = ''a1'' \<and> n = 1 then Some (False, False) else None)\<rparr>"

definition dq_submission :: "string \<Rightarrow> ActionSubmission" where
  "dq_submission i = \<lparr>as_Envelope = demo_plan\<lparr>en_ActionID := i, en_IdempotencyKey := i, en_PlanHash := demo_hash\<rparr>,
     as_PlanHash = demo_hash, as_TargetKey = ''c1/pay/api'', as_EnvironmentRevision = ''rev-1'',
     as_Production = False, as_Pool = PoolWrite\<rparr>"

definition dq_claim :: ActionClaimRequest where
  "dq_claim = \<lparr>acq_Scope = \<lparr>rs_runnerID = ''runner-1'', rs_tenantID = ''tenant-1'', rs_pool = PoolWrite,
       rs_scopeRevision = 1, rs_maxConcurrency = 2,
       rs_bindings = [\<lparr>rb_WorkspaceID = ''ws-1'', rb_EnvironmentID = ''env-1''\<rparr>]\<rparr>,
     acq_LeaseDuration = 60 * Second\<rparr>"

definition dq_fence :: LeaseIdentity where
  "dq_fence = \<lparr>li_ExecutionID = ''a1'', li_RunnerID = ''runner-1'', li_Token = ''tok-1'', li_Epoch = 1\<rparr>"

definition dq_nack :: ActionNackRequest where
  "dq_nack = \<lparr>nk_Lease = dq_fence, nk_Reason = \<lparr>qr_Code = ''BUSY'', qr_DetailHash = demo_hash\<rparr>,
     nk_RetryAfter = Second\<rparr>"

definition dq_first :: MemoryActionQueue where
  "dq_first = fst (Queue_Submit dq_ext (dq_env 2000 ''tok-1'') (dq_submission ''a1'') empty_queue)"

definition dq_queued :: MemoryActionQueue where
  "dq_queued = fst (Queue_Submit dq_ext (dq_env 2000 ''tok-1'') (dq_submission ''a2'') dq_first)"

definition dq_leased :: MemoryActionQueue where
  "dq_leased = fst (Queue_Claim dq_ext (dq_env 2000 ''tok-1'') dq_claim dq_queued)"

definition dq_nacked :: MemoryActionQueue where
  "dq_nacked = fst (Queue_Nack dq_ext (dq_env 3000 ''tok-1'') dq_nack dq_leased)"

definition dq_again :: MemoryActionQueue where
  "dq_again = fst (Queue_Claim dq_ext (dq_env (2 * Second) ''tok-2'') dq_claim dq_nacked)"

lemma queue_steps_call:
  "(queue_step x)\<^sup>*\<^sup>* a s \<Longrightarrow> queue_call x e s u \<Longrightarrow> (queue_step x)\<^sup>*\<^sup>* a u"
  by (meson queue_step_def rtranclp.rtrancl_into_rtrancl)

lemma dq_first_steps: "(queue_step dq_ext)\<^sup>*\<^sup>* empty_queue dq_first"
  unfolding dq_first_def by (rule queue_steps_call [OF rtranclp.rtrancl_refl call_Submit])

lemma dq_queued_steps: "(queue_step dq_ext)\<^sup>*\<^sup>* empty_queue dq_queued"
  unfolding dq_queued_def by (rule queue_steps_call [OF dq_first_steps call_Submit])

lemma dq_leased_steps: "(queue_step dq_ext)\<^sup>*\<^sup>* empty_queue dq_leased"
  unfolding dq_leased_def by (rule queue_steps_call [OF dq_queued_steps call_Claim])

lemma dq_nacked_steps: "(queue_step dq_ext)\<^sup>*\<^sup>* empty_queue dq_nacked"
  unfolding dq_nacked_def by (rule queue_steps_call [OF dq_leased_steps call_Nack])

lemma dq_again_steps: "(queue_step dq_ext)\<^sup>*\<^sup>* empty_queue dq_again"
  unfolding dq_again_def by (rule queue_steps_call [OF dq_nacked_steps call_Claim])

lemma dq_leased_record:
  "map_option (\<lambda>r. (record_status r, record_epoch r, ex_Pool (ma_execution r),
     zt_instant (en_ExpiresAt (as_Envelope (ma_submission r))))) (gget (mq_records dq_leased) ''a1'') =
   Some (StatusLeased, 1, PoolWrite, 1000 + 20 * Minute)"
  by code_simp

lemma dq_nacked_record:
  "map_option record_status (gget (mq_records dq_nacked) ''a1'') = Some StatusQueued"
  by code_simp

lemma dq_again_record:
  "map_option record_epoch (gget (mq_records dq_again) ''a1'') = Some 2"
  by code_simp

theorem action_target_exclusive_witness:
  "map (\<lambda>(i, r). (i, record_status r)) (mq_records dq_leased) =
     [(''a1'', StatusLeased), (''a2'', StatusQueued)] \<and>
   gcount (\<lambda>_ r. actionLeaseActive (ex_Status (ma_execution r)) \<and>
     ex_TargetKey (ma_execution r) = ''c1/pay/api'') (mq_records dq_leased) \<le> 1"
  by (intro conjI action_target_exclusive [OF dq_leased_steps]) code_simp

theorem action_life_cycle_witness:
  "\<exists>r r'. gget (mq_records dq_leased) ''a1'' = Some r \<and> gget (mq_records dq_again) ''a1'' = Some r' \<and>
     ma_submission r' = ma_submission r \<and> record_epoch r \<le> record_epoch r'"
proof -
  have "(queue_step dq_ext)\<^sup>*\<^sup>* dq_leased dq_again"
    unfolding dq_again_def dq_nacked_def
    by (rule queue_steps_call [OF queue_steps_call [OF rtranclp.rtrancl_refl call_Nack] call_Claim])
  moreover obtain r where r: "gget (mq_records dq_leased) ''a1'' = Some r"
    using dq_leased_record by auto
  ultimately show ?thesis using action_life_cycle [OF dq_leased_steps r] r by blast
qed

theorem action_claim_sound_witness:
  "\<exists>u c. Queue_Claim dq_ext (dq_env 2000 ''tok-1'') dq_claim dq_queued = (u, Inr c) \<and>
     runnerActive u ''runner-1'' \<le> 2"
proof -
  have "map_sum (\<lambda>_. ()) (\<lambda>c. ex_LeaseToken (ca_Execution c))
      (snd (Queue_Claim dq_ext (dq_env 2000 ''tok-1'') dq_claim dq_queued)) = Inr ''tok-1''"
    by code_simp
  then obtain u c where claim: "Queue_Claim dq_ext (dq_env 2000 ''tok-1'') dq_claim dq_queued = (u, Inr c)"
    by (cases "Queue_Claim dq_ext (dq_env 2000 ''tok-1'') dq_claim dq_queued";
        cases "snd (Queue_Claim dq_ext (dq_env 2000 ''tok-1'') dq_claim dq_queued)") auto
  with action_claim_sound [OF dq_queued_steps claim] show ?thesis
    by (auto simp: dq_claim_def)
qed

theorem action_overtaken_refused_witness:
  "\<exists>err. Queue_Finalize dq_ext (dq_env (3 * Second) '''') dq_fence dq_again = (dq_again, Inl err)"
proof -
  obtain r where "gget (mq_records dq_again) (li_ExecutionID dq_fence) = Some r" "li_Epoch dq_fence < record_epoch r"
    using dq_again_record by (auto simp: dq_fence_def)
  then show ?thesis
    using action_overtaken_refused [OF dq_again_steps _ _ rtranclp.rtrancl_refl] by blast
qed

theorem action_window_enforced_witness:
  "\<exists>err. Queue_Start (dq_env (1000 + 20 * Minute) '''') dq_fence dq_leased = (dq_leased, Inl err)"
proof -
  obtain r where r: "gget (mq_records dq_leased) (li_ExecutionID dq_fence) = Some r"
    and "record_status r \<in> {StatusLeased, StatusRunning}"
    and "zt_instant (en_ExpiresAt (as_Envelope (ma_submission r))) \<le> qe_clock (dq_env (1000 + 20 * Minute) '''')"
    using dq_leased_record by (auto simp: dq_fence_def dq_env_def)
  then show ?thesis
    using action_window_enforced [OF dq_leased_steps] by blast
qed

lemma dq_submission_ok:
  "validateActionSubmission (dq_submission ''a1'') = None" "validateActionSubmission (dq_submission ''a3'') = None"
  by code_simp+

lemma dq_submission_hash: "RequestSemanticHash dq_ext (dq_submission i) = Inr (''c1/pay/api'' @ i)"
  by (simp add: RequestSemanticHash_def dq_ext_def dq_submission_def)

lemma dq_queued_records:
  "list_all (\<lambda>(i, r). en_IdempotencyKey (as_Envelope (ma_submission r)) \<noteq> ''a3'') (mq_records dq_queued)"
  by code_simp

theorem submit_idempotent_witness:
  "fst (Queue_Submit dq_ext (dq_env 9000 '''') (dq_submission ''a1'') dq_leased) = dq_leased"
proof -
  obtain r where r: "gget (mq_records dq_leased) ''a1'' = Some r"
    using dq_leased_record by auto
  show ?thesis
    using submit_idempotent [OF dq_leased_steps r _ _ dq_submission_ok(1) dq_submission_hash, of "dq_env 9000 ''''"]
    by (simp add: dq_env_def dq_submission_def)
qed

theorem submit_fresh_accepted_witness:
  "\<exists>u ex. Queue_Submit dq_ext (dq_env 9000 '''') (dq_submission ''a3'') dq_queued = (u, Inr ex) \<and>
     ex_Status ex = StatusQueued"
proof -
  have env: "qe_ctx (dq_env 9000 '''') = None" "qe_clock (dq_env 9000 '''') \<noteq> 0"
    by (simp_all add: dq_env_def)
  have new: "gget (mq_records dq_queued) (en_ActionID (as_Envelope (dq_submission ''a3''))) = None"
    by code_simp
  have pair: "(en_WorkspaceID (as_Envelope (ma_submission q)), en_IdempotencyKey (as_Envelope (ma_submission q))) \<noteq>
      (en_WorkspaceID (as_Envelope (dq_submission ''a3'')), en_IdempotencyKey (as_Envelope (dq_submission ''a3'')))"
    if "gget (mq_records dq_queued) j = Some q" for j q
  proof -
    have "en_IdempotencyKey (as_Envelope (ma_submission q)) \<noteq> ''a3''"
      using map_of_SomeD [OF that] dq_queued_records unfolding list_all_iff by blast
    then show ?thesis by (simp add: dq_submission_def)
  qed
  show ?thesis
    using submit_fresh_accepted [OF dq_queued_steps env dq_submission_ok(2) dq_submission_hash new] pair by blast
qed

end
