(* ===== verification/Policy_Engine.thy ===== *)
theory Policy_Engine
  imports Action_Envelope
begin

text \<open>
  The policy engine of \<^verbatim>\<open>internal/policy/engine.go\<close>: whether a signed action may be
  planned, may get a credential, may be executed. A decision gathers the kill switches, the
  signature, the target's current state, the risk assessment, the limits, the CEL policy and the
  approvals, and denies at the first gate that is not open.

  The engine only reads. Its dependencies are the fields of \<open>policy_deps\<close>, what each of them answers
  in the call being modelled (\<open>None\<close> is an error); the n-th principal lookup is the one for the
  n-th approval record, and lookup 0 is the requester's. The CEL library, the canonicalizer, SHA-256 and Ed25519
  are the fields of \<open>policy_ext\<close>.
\<close>

section \<open>Data\<close>

datatype Stage = StagePlanSubmission | StageCredentialIssue | StagePreExecution
datatype Outcome = OutcomeAllow | OutcomeDeny | OutcomeRequireApproval
datatype Role = RoleSRE | RoleServiceOwner | RoleApprover | RoleRaw string
datatype ApprovalDecision = ApprovalApproved | ApprovalRejected | ApprovalRaw string

definition ReasonApprovalRequired :: string where "ReasonApprovalRequired = ''APPROVAL_REQUIRED''"
definition ReasonApprovalExpired :: string where "ReasonApprovalExpired = ''APPROVAL_EXPIRED''"
definition ReasonApprovalBindingMismatch :: string where "ReasonApprovalBindingMismatch = ''APPROVAL_BINDING_MISMATCH''"
definition ReasonApprovalRejected :: string where "ReasonApprovalRejected = ''APPROVAL_REJECTED''"
definition ReasonApprovalRoleInvalid :: string where "ReasonApprovalRoleInvalid = ''APPROVAL_ROLE_INVALID''"
definition ReasonSeparationOfDuties :: string where "ReasonSeparationOfDuties = ''SEPARATION_OF_DUTIES''"
definition ReasonTargetStateDrift :: string where "ReasonTargetStateDrift = ''TARGET_STATE_DRIFT''"
definition ReasonTargetStateStale :: string where "ReasonTargetStateStale = ''TARGET_STATE_STALE''"
definition ReasonTargetNotWhitelisted :: string where "ReasonTargetNotWhitelisted = ''TARGET_NOT_WHITELISTED''"
definition ReasonMappingNotExact :: string where "ReasonMappingNotExact = ''MAPPING_NOT_EXACT''"
definition ReasonKillSwitchDisabled :: string where "ReasonKillSwitchDisabled = ''KILL_SWITCH_DISABLED''"
definition ReasonSafetyStateStale :: string where "ReasonSafetyStateStale = ''SAFETY_STATE_STALE''"
definition ReasonSafetyStateUnavailable :: string where "ReasonSafetyStateUnavailable = ''SAFETY_STATE_UNAVAILABLE''"
definition ReasonCELPolicyDenied :: string where "ReasonCELPolicyDenied = ''CEL_POLICY_DENIED''"
definition ReasonInvalidEnvelope :: string where "ReasonInvalidEnvelope = ''INVALID_ACTION_ENVELOPE''"
definition ReasonIdentityUnavailable :: string where "ReasonIdentityUnavailable = ''IDENTITY_UNAVAILABLE''"
definition ReasonRiskAssessmentDrift :: string where "ReasonRiskAssessmentDrift = ''RISK_ASSESSMENT_DRIFT''"
definition ReasonActionLimitsDrift :: string where "ReasonActionLimitsDrift = ''ACTION_LIMITS_DRIFT''"

definition MaxSafetySnapshotAge :: duration where "MaxSafetySnapshotAge = 5 * Second"
definition MaxTargetSnapshotAge :: duration where "MaxTargetSnapshotAge = 15 * Second"
definition maxClockSkew :: duration where "maxClockSkew = Second"

record Definition =
  df_Label :: string
  df_Version :: string
  df_Expression :: string

record Approval =
  av_SubjectID :: string
  av_Decision :: ApprovalDecision
  av_WorkspaceID :: string
  av_ActionID :: string
  av_PlanHash :: string
  av_PolicyVersion :: string
  av_TargetDigest :: string
  av_DecidedAt :: time
  av_ExpiresAt :: time

record Principal =
  pp_CanonicalID :: string
  pp_Active :: bool
  pp_Roles :: "Role list"

record GlobalSwitchSnapshot =
  gs_Enabled :: bool
  gs_Revision :: string
  gs_ObservedAt :: time

record ScopedSwitchSnapshot =
  sc_WorkspaceID :: string
  sc_EnvironmentID :: string
  sc_ConnectorID :: string
  sc_ActionType :: ActionType
  sc_EnvironmentEnabled :: bool
  sc_ConnectorEnabled :: bool
  sc_ActionEnabled :: bool
  sc_Revision :: string
  sc_ObservedAt :: time

record GitOpsFacts =
  gf_Provider :: string
  gf_RepositoryID :: string
  gf_Application :: string
  gf_Path :: string
  gf_BaseCommit :: string
  gf_HeadCommit :: string
  gf_RevertCommit :: string
  gf_DiffSHA256 :: string
  gf_ResultTreeSHA256 :: string
  gf_HeadTreeSHA256 :: string
  gf_LiveRevision :: string
  gf_DesiredRevision :: string
  gf_SyncStatus :: string
  gf_HealthStatus :: string

record KubernetesFacts =
  kf_ClusterID :: string
  kf_Namespace :: string
  kf_Name :: string
  kf_UID :: string
  kf_ResourceVersion :: string
  kf_Generation :: int
  kf_Replicas :: int
  kf_AvailableReplicas :: int
  kf_UpdatedReplicas :: int
  kf_HPAAbsent :: bool
  kf_PDBChecked :: bool
  kf_QuotaChecked :: bool

record AWXFacts =
  wf_InventoryID :: int
  wf_HostIDs :: "int list"
  wf_InventorySnapshotSHA256 :: string
  wf_JobTemplateID :: int
  wf_JobTemplateSnapshotSHA256 :: string
  wf_ServiceName :: string
  wf_OSFamily :: string
  wf_ServiceState :: string
  wf_ServiceStateSnapshotSHA256 :: string

record TargetSnapshot =
  ts_WorkspaceID :: string
  ts_ServiceID :: string
  ts_EnvironmentID :: string
  ts_ConnectorID :: string
  ts_ActionType :: ActionType
  ts_MappingResult :: string
  ts_Whitelisted :: bool
  ts_TargetVersion :: string
  ts_Kubernetes :: "KubernetesFacts option"
  ts_GitOps :: "GitOpsFacts option"
  ts_AWX :: "AWXFacts option"
  ts_Revision :: string
  ts_ObservedAt :: time

record RiskSnapshot =
  rk_WorkspaceID :: string
  rk_ActionID :: string
  rk_PlanHash :: string
  rk_TargetDigest :: string
  rk_PolicyVersion :: string
  rk_Level :: string
  rk_ReasonCodes :: "string list"
  rk_Revision :: string
  rk_ObservedAt :: time

record ActionLimitsSnapshot =
  lm_WorkspaceID :: string
  lm_ServiceID :: string
  lm_EnvironmentID :: string
  lm_ActionType :: ActionType
  lm_MinimumReplicas :: int
  lm_MaximumReplicas :: int
  lm_MaxAWXHosts :: int
  lm_Revision :: string
  lm_ObservedAt :: time

record Decision =
  dn_Outcome :: Outcome
  dn_PolicyVersion :: string
  dn_Stage :: Stage
  dn_PlanHash :: string
  dn_ReasonCodes :: "string list"
  dn_SafetyRevision :: string
  dn_TargetRevision :: string
  dn_RiskRevision :: string
  dn_LimitsRevision :: string
  dn_EvaluatedAt :: time
  dn_CredentialExpiresAt :: time

text \<open>The variables of the CEL environment, and what evaluating a program can give.\<close>

record cel_input =
  ci_action_type :: string
  ci_stage :: string
  ci_environment :: string
  ci_service_id :: string
  ci_workspace_id :: string
  ci_risk_level :: string
  ci_connector_id :: string
  ci_credential_permission :: string
  ci_mapping_exact :: bool
  ci_whitelisted :: bool

datatype cel_result = CelError | CelBool bool | CelOther

type_synonym cel_program = "cel_input \<Rightarrow> cel_result"

record policy_ext =
  px_canon :: "Envelope \<Rightarrow> string option"
  px_sha :: "string \<Rightarrow> string"
  px_edverify :: "string \<Rightarrow> string \<Rightarrow> string \<Rightarrow> bool"
  px_cel :: "string \<Rightarrow> cel_program option"

record policy_deps =
  pd_clock :: time
  pd_ctx :: "ctx_error option"
  pd_keys :: "string \<Rightarrow> action_error + KeyRecord"
  pd_global :: "GlobalSwitchSnapshot option"
  pd_scoped :: "ScopedSwitchSnapshot option"
  pd_target :: "TargetSnapshot option"
  pd_risk :: "RiskSnapshot option"
  pd_limits :: "ActionLimitsSnapshot option"
  pd_approvals :: "Approval list option"
  pd_principal :: "nat \<Rightarrow> string \<Rightarrow> Principal option"

record Engine =
  eg_definition :: Definition
  eg_program :: cel_program

datatype policy_error = InvalidLabel | InvalidExpression | PolicyNotCompiled | VersionMismatch
  | DependenciesRequired | PolicyCtx ctx_error | CelFailed

section \<open>Definitions and engines\<close>

definition definitionLabelPattern :: "string \<Rightarrow> bool" where
  "definitionLabelPattern s \<longleftrightarrow> s \<noteq> '''' \<and> length s \<le> 120 \<and> is_alnum (hd s) \<and>
     list_all (\<lambda>c. is_alnum c \<or> c \<in> set ''._/-'') (tl s)"

definition normalizeExpression :: "string \<Rightarrow> string option" where
  "normalizeExpression expression =
     (let normalized = TrimSpace (unix_newlines expression) in
      if normalized = '''' \<or> 4096 < length normalized \<or> CHR 0x0D \<in> set normalized \<or> CHR 0x00 \<in> set normalized
      then None else Some normalized)"

definition policy_version :: "(string \<Rightarrow> string) \<Rightarrow> string \<Rightarrow> string \<Rightarrow> string" where
  "policy_version sha label normalized =
     label @ ''@sha256:'' @ sha (''aiops-cel-policy.v1'' @ CHR 0x00 # normalized)"

definition NewDefinition :: "policy_ext \<Rightarrow> string \<Rightarrow> string \<Rightarrow> policy_error + Definition" where
  "NewDefinition x label expression =
     (if \<not> definitionLabelPattern label then Inl InvalidLabel
      else case normalizeExpression expression of None \<Rightarrow> Inl InvalidExpression | Some normalized \<Rightarrow>
      case px_cel x normalized of None \<Rightarrow> Inl PolicyNotCompiled | Some _ \<Rightarrow>
      Inr \<lparr>df_Label = label, df_Version = policy_version (px_sha x) label normalized, df_Expression = normalized\<rparr>)"

definition NewEngine :: "policy_ext \<Rightarrow> Definition \<Rightarrow> bool \<Rightarrow> policy_error + Engine" where
  "NewEngine x d dependencies =
     (case NewDefinition x (df_Label d) (df_Expression d) of Inl err \<Rightarrow> Inl err | Inr expected \<Rightarrow>
      if df_Version d \<noteq> df_Version expected then Inl VersionMismatch
      else if \<not> dependencies then Inl DependenciesRequired
      else case px_cel x (df_Expression expected) of None \<Rightarrow> Inl PolicyNotCompiled
        | Some program \<Rightarrow> Inr \<lparr>eg_definition = expected, eg_program = program\<rparr>)"

section \<open>The target binding\<close>

fun ActionType_string :: "ActionType \<Rightarrow> string" where
  "ActionType_string ActionKubernetesRolloutRestart = ''K8S_ROLLOUT_RESTART''"
| "ActionType_string ActionKubernetesScale = ''K8S_SCALE''"
| "ActionType_string ActionGitOpsRevert = ''GITOPS_REVERT''"
| "ActionType_string ActionAWXServiceRestart = ''AWX_SERVICE_RESTART''"
| "ActionType_string (ActionRaw s) = s"

fun Stage_string :: "Stage \<Rightarrow> string" where
  "Stage_string StagePlanSubmission = ''PLAN_SUBMISSION''"
| "Stage_string StageCredentialIssue = ''CREDENTIAL_ISSUE''"
| "Stage_string StagePreExecution = ''PRE_EXECUTION''"

text \<open>
  The JSON of the members an approval is bound to. A nil pointer with \<^verbatim>\<open>omitempty\<close> is left
  out. (The host list of a validated envelope is not empty, so it is never written as null.)
\<close>

definition omit_nil :: "string \<Rightarrow> ('a \<Rightarrow> string) \<Rightarrow> 'a option \<Rightarrow> (string \<times> string) list" where
  "omit_nil name encode v = (case v of None \<Rightarrow> [] | Some a \<Rightarrow> [(name, encode a)])"

fun json_list :: "string list \<Rightarrow> string" where
  "json_list [] = ''''"
| "json_list [v] = v"
| "json_list (v # vs) = v @ '','' @ json_list vs"

definition KubernetesDeploymentTarget_json :: "KubernetesDeploymentTarget \<Rightarrow> string" where
  "KubernetesDeploymentTarget_json t = json_object [(''cluster_id'', json_string (kt_ClusterID t)),
     (''namespace'', json_string (kt_Namespace t)), (''name'', json_string (kt_Name t)),
     (''uid'', json_string (kt_UID t)), (''resource_version'', json_string (kt_ResourceVersion t))]"

definition GitOpsTarget_json :: "GitOpsTarget \<Rightarrow> string" where
  "GitOpsTarget_json t = json_object [(''repository_id'', json_string (gt_RepositoryID t)),
     (''application'', json_string (gt_Application t)), (''path'', json_string (gt_Path t))]"

definition AWXTarget_json :: "AWXTarget \<Rightarrow> string" where
  "AWXTarget_json t = json_object [(''inventory_id'', FormatInt (at_InventoryID t)),
     (''host_ids'', ''['' @ json_list (map FormatInt (at_HostIDs t)) @ '']''),
     (''inventory_snapshot_sha256'', json_string (at_InventorySnapshotSHA256 t)),
     (''job_template_snapshot_sha256'', json_string (at_JobTemplateSnapshotSHA256 t))]"

definition TargetRef_json :: "TargetRef \<Rightarrow> string" where
  "TargetRef_json t = json_object ([(''service_id'', json_string (tr_ServiceID t)),
     (''environment_id'', json_string (tr_EnvironmentID t))] @
     omit_nil ''kubernetes_deployment'' KubernetesDeploymentTarget_json (tr_KubernetesDeployment t) @
     omit_nil ''gitops_application'' GitOpsTarget_json (tr_GitOpsApplication t) @
     omit_nil ''awx_hosts'' AWXTarget_json (tr_AWXHosts t))"

definition KubernetesScaleParameters_json :: "KubernetesScaleParameters \<Rightarrow> string" where
  "KubernetesScaleParameters_json p = json_object [(''replicas'', FormatInt (ksp_Replicas p)),
     (''minimum'', FormatInt (ksp_Minimum p)), (''maximum'', FormatInt (ksp_Maximum p)),
     (''hpa_absent'', json_bool (ksp_HPAAbsent p)), (''pdb_checked'', json_bool (ksp_PDBChecked p)),
     (''quota_checked'', json_bool (ksp_QuotaChecked p))]"

definition GitOpsRevertParameters_json :: "GitOpsRevertParameters \<Rightarrow> string" where
  "GitOpsRevertParameters_json p = json_object [(''provider'', json_string (grp_Provider p)),
     (''base_commit'', json_string (grp_BaseCommit p)), (''head_commit'', json_string (grp_HeadCommit p)),
     (''revert_commit'', json_string (grp_RevertCommit p)), (''diff_sha256'', json_string (grp_DiffSHA256 p)),
     (''tree_sha256'', json_string (grp_TreeSHA256 p))]"

definition AWXServiceRestartParameters_json :: "AWXServiceRestartParameters \<Rightarrow> string" where
  "AWXServiceRestartParameters_json p = json_object [(''job_template_id'', FormatInt (arp_JobTemplateID p)),
     (''service_name'', json_string (arp_ServiceName p)), (''os_family'', json_string (arp_OSFamily p)),
     (''serial'', FormatInt (arp_Serial p))]"

definition ActionParameters_json :: "ActionParameters \<Rightarrow> string" where
  "ActionParameters_json p = json_object (
     omit_nil ''kubernetes_rollout_restart'' (\<lambda>r. json_object [(''reason'', json_string (krp_Reason r))])
       (ap_KubernetesRolloutRestart p) @
     omit_nil ''kubernetes_scale'' KubernetesScaleParameters_json (ap_KubernetesScale p) @
     omit_nil ''gitops_revert'' GitOpsRevertParameters_json (ap_GitOpsRevert p) @
     omit_nil ''awx_service_restart'' AWXServiceRestartParameters_json (ap_AWXServiceRestart p))"

definition KubernetesDeploymentObservedState_json :: "KubernetesDeploymentObservedState \<Rightarrow> string" where
  "KubernetesDeploymentObservedState_json v = json_object [(''generation'', FormatInt (ko_Generation v)),
     (''replicas'', FormatInt (ko_Replicas v)), (''available_replicas'', FormatInt (ko_AvailableReplicas v)),
     (''updated_replicas'', FormatInt (ko_UpdatedReplicas v))]"

definition GitOpsObservedState_json :: "GitOpsObservedState \<Rightarrow> string" where
  "GitOpsObservedState_json v = json_object [(''live_revision'', json_string (go_LiveRevision v)),
     (''desired_revision'', json_string (go_DesiredRevision v)),
     (''head_tree_sha256'', json_string (go_HeadTreeSHA256 v)), (''sync_status'', json_string (go_SyncStatus v)),
     (''health_status'', json_string (go_HealthStatus v))]"

definition AWXServiceObservedState_json :: "AWXServiceObservedState \<Rightarrow> string" where
  "AWXServiceObservedState_json v = json_object [(''host_count'', FormatInt (ao_HostCount v)),
     (''service_state'', json_string (ao_ServiceState v)),
     (''inventory_snapshot_sha256'', json_string (ao_InventorySnapshotSHA256 v)),
     (''service_state_snapshot_sha256'', json_string (ao_ServiceStateSnapshotSHA256 v))]"

definition ObservedState_json :: "ObservedState \<Rightarrow> string" where
  "ObservedState_json v = json_object (
     omit_nil ''kubernetes_deployment'' KubernetesDeploymentObservedState_json (os_KubernetesDeployment v) @
     omit_nil ''gitops_application'' GitOpsObservedState_json (os_GitOpsApplication v) @
     omit_nil ''awx_service'' AWXServiceObservedState_json (os_AWXService v))"

definition TargetDigest :: "(string \<Rightarrow> string) \<Rightarrow> Envelope \<Rightarrow> string option" where
  "TargetDigest sha e =
     (case Validate e of Some _ \<Rightarrow> None | None \<Rightarrow>
      Some (sha (json_object [(''action_type'', json_string (ActionType_string (en_ActionType e))),
        (''target'', TargetRef_json (en_Target e)), (''parameters'', ActionParameters_json (en_Parameters e)),
        (''observed_state'', ObservedState_json (en_ObservedState e))])))"

definition targetMatchesEnvelope :: "TargetSnapshot \<Rightarrow> Envelope \<Rightarrow> bool" where
  "targetMatchesEnvelope s e =
     (case en_ActionType e of
        ActionRaw _ \<Rightarrow> False
      | ActionAWXServiceRestart \<Rightarrow>
          (case (ts_AWX s, tr_AWXHosts (en_Target e), ap_AWXServiceRestart (en_Parameters e),
                 os_AWXService (en_ObservedState e)) of
             (Some facts, Some t, Some p, Some st) \<Rightarrow>
               ts_GitOps s = None \<and> ts_Kubernetes s = None \<and>
               ts_TargetVersion s = at_InventorySnapshotSHA256 t \<and>
               facts = \<lparr>wf_InventoryID = at_InventoryID t, wf_HostIDs = at_HostIDs t,
                 wf_InventorySnapshotSHA256 = at_InventorySnapshotSHA256 t,
                 wf_JobTemplateID = arp_JobTemplateID p,
                 wf_JobTemplateSnapshotSHA256 = at_JobTemplateSnapshotSHA256 t,
                 wf_ServiceName = arp_ServiceName p, wf_OSFamily = arp_OSFamily p,
                 wf_ServiceState = ao_ServiceState st,
                 wf_ServiceStateSnapshotSHA256 = ao_ServiceStateSnapshotSHA256 st\<rparr>
           | _ \<Rightarrow> False)
      | ActionGitOpsRevert \<Rightarrow>
          (case (ts_GitOps s, tr_GitOpsApplication (en_Target e), ap_GitOpsRevert (en_Parameters e),
                 os_GitOpsApplication (en_ObservedState e)) of
             (Some facts, Some t, Some p, Some st) \<Rightarrow>
               ts_Kubernetes s = None \<and> ts_AWX s = None \<and>
               facts = \<lparr>gf_Provider = grp_Provider p, gf_RepositoryID = gt_RepositoryID t,
                 gf_Application = gt_Application t, gf_Path = gt_Path t, gf_BaseCommit = grp_BaseCommit p,
                 gf_HeadCommit = grp_HeadCommit p, gf_RevertCommit = grp_RevertCommit p,
                 gf_DiffSHA256 = grp_DiffSHA256 p, gf_ResultTreeSHA256 = grp_TreeSHA256 p,
                 gf_HeadTreeSHA256 = go_HeadTreeSHA256 st, gf_LiveRevision = go_LiveRevision st,
                 gf_DesiredRevision = go_DesiredRevision st, gf_SyncStatus = go_SyncStatus st,
                 gf_HealthStatus = go_HealthStatus st\<rparr>
           | _ \<Rightarrow> False)
      | _ \<Rightarrow>
          (case (ts_Kubernetes s, tr_KubernetesDeployment (en_Target e), os_KubernetesDeployment (en_ObservedState e)) of
             (Some facts, Some t, Some st) \<Rightarrow>
               ts_GitOps s = None \<and> ts_AWX s = None \<and>
               (let expected = \<lparr>kf_ClusterID = kt_ClusterID t, kf_Namespace = kt_Namespace t, kf_Name = kt_Name t,
                     kf_UID = kt_UID t, kf_ResourceVersion = kt_ResourceVersion t,
                     kf_Generation = ko_Generation st, kf_Replicas = ko_Replicas st,
                     kf_AvailableReplicas = ko_AvailableReplicas st, kf_UpdatedReplicas = ko_UpdatedReplicas st,
                     kf_HPAAbsent = False, kf_PDBChecked = False, kf_QuotaChecked = False\<rparr> in
                if en_ActionType e = ActionKubernetesScale then
                  (case ap_KubernetesScale (en_Parameters e) of None \<Rightarrow> False | Some p \<Rightarrow>
                    ts_TargetVersion s = kt_ResourceVersion t \<and>
                    facts = expected\<lparr>kf_HPAAbsent := ksp_HPAAbsent p, kf_PDBChecked := ksp_PDBChecked p,
                      kf_QuotaChecked := ksp_QuotaChecked p\<rparr>)
                else ts_TargetVersion s = kt_ResourceVersion t \<and> facts = expected)
           | _ \<Rightarrow> False))"

definition limitsMatchEnvelope :: "ActionLimitsSnapshot \<Rightarrow> Envelope \<Rightarrow> bool" where
  "limitsMatchEnvelope l e =
     (case en_ActionType e of
        ActionKubernetesScale \<Rightarrow>
          (case ap_KubernetesScale (en_Parameters e) of None \<Rightarrow> False | Some p \<Rightarrow>
             0 \<le> lm_MinimumReplicas l \<and> lm_MinimumReplicas l \<le> lm_MaximumReplicas l \<and>
             ksp_Minimum p = lm_MinimumReplicas l \<and> ksp_Maximum p = lm_MaximumReplicas l)
      | ActionAWXServiceRestart \<Rightarrow>
          (case tr_AWXHosts (en_Target e) of None \<Rightarrow> False | Some t \<Rightarrow>
             0 < lm_MaxAWXHosts l \<and> lm_MaxAWXHosts l \<le> int MaxAWXHosts \<and>
             int (length (at_HostIDs t)) \<le> lm_MaxAWXHosts l)
      | _ \<Rightarrow> lm_MinimumReplicas l = 0 \<and> lm_MaximumReplicas l = 0 \<and> lm_MaxAWXHosts l = 0)"

section \<open>Approvals\<close>

definition policy_fresh :: "time \<Rightarrow> time \<Rightarrow> duration \<Rightarrow> bool" where
  "policy_fresh t observedAt maximumAge \<longleftrightarrow>
     \<not> (IsZero observedAt \<or> After observedAt (t + maxClockSkew)) \<and> time_Sub t observedAt \<le> maximumAge"

definition known_role :: "Role \<Rightarrow> bool" where
  "known_role r \<longleftrightarrow> r = RoleSRE \<or> r = RoleServiceOwner \<or> r = RoleApprover"

definition validRoles :: "Role list \<Rightarrow> bool" where
  "validRoles roles \<longleftrightarrow> roles \<noteq> [] \<and> length roles \<le> 3 \<and> list_all known_role roles \<and> distinct roles"

definition hasAnyRole :: "Role list \<Rightarrow> Role list \<Rightarrow> bool" where
  "hasAnyRole roles expected = list_ex (\<lambda>r. r \<in> set expected) roles"

definition approvalBindingValid :: "Approval \<Rightarrow> Envelope \<Rightarrow> string \<Rightarrow> time \<Rightarrow> bool" where
  "approvalBindingValid a e targetDigest t \<longleftrightarrow>
     (av_Decision a = ApprovalApproved \<or> av_Decision a = ApprovalRejected) \<and>
     av_WorkspaceID a = en_WorkspaceID e \<and> av_ActionID a = en_ActionID e \<and> av_PlanHash a = en_PlanHash e \<and>
     av_PolicyVersion a = en_PolicyVersion e \<and> av_TargetDigest a = targetDigest \<and>
     \<not> Before (av_DecidedAt a) (zt_instant (en_NotBefore e)) \<and> \<not> After (av_DecidedAt a) t \<and>
     Before t (av_ExpiresAt a) \<and> \<not> After (av_ExpiresAt a) (zt_instant (en_ExpiresAt e))"

record approvalEvaluation =
  ae_satisfied :: bool
  ae_rejected :: bool
  ae_reasons :: "string list"

text \<open>The loop over the approval records: the principals that count, the reasons, whether one rejected.\<close>

fun approval_loop ::
  "policy_deps \<Rightarrow> Envelope \<Rightarrow> string \<Rightarrow> time \<Rightarrow> string \<Rightarrow> nat \<Rightarrow> Approval list \<Rightarrow>
   Principal gomap \<Rightarrow> string list \<Rightarrow> bool \<Rightarrow> Principal gomap \<times> string list \<times> bool" where
  "approval_loop p e digest t requester n [] valid reasons rejected = (valid, reasons, rejected)"
| "approval_loop p e digest t requester n (a # as) valid reasons rejected =
     (let next = approval_loop p e digest t requester (Suc n) as in
      if \<not> approvalBindingValid a e digest t then
        (if \<not> Before t (av_ExpiresAt a) then next valid (reasons @ [ReasonApprovalExpired]) rejected
         else next valid (reasons @ [ReasonApprovalBindingMismatch]) rejected)
      else case pd_principal p n (av_SubjectID a) of
        None \<Rightarrow> next valid (reasons @ [ReasonIdentityUnavailable]) rejected
      | Some q \<Rightarrow>
      if \<not> pp_Active q \<or> pp_CanonicalID q = '''' then next valid (reasons @ [ReasonIdentityUnavailable]) rejected
      else if pp_CanonicalID q = requester then next valid (reasons @ [ReasonSeparationOfDuties]) rejected
      else if \<not> validRoles (pp_Roles q) \<or> \<not> hasAnyRole (pp_Roles q) [RoleSRE, RoleServiceOwner, RoleApprover]
      then next valid (reasons @ [ReasonApprovalRoleInvalid]) rejected
      else if av_Decision a = ApprovalRejected then next valid reasons True
      else if av_Decision a \<noteq> ApprovalApproved then next valid (reasons @ [ReasonApprovalBindingMismatch]) rejected
      else if gget valid (pp_CanonicalID q) \<noteq> None then next valid (reasons @ [ReasonApprovalBindingMismatch]) rejected
      else next (gset (pp_CanonicalID q) q valid) reasons rejected)"

definition evaluateApprovals :: "policy_ext \<Rightarrow> policy_deps \<Rightarrow> Envelope \<Rightarrow> time \<Rightarrow> approvalEvaluation" where
  "evaluateApprovals x p e t =
     (let stop = (\<lambda>reason. \<lparr>ae_satisfied = False, ae_rejected = False, ae_reasons = [reason]\<rparr>) in
      case TargetDigest (px_sha x) e of None \<Rightarrow> stop ReasonApprovalBindingMismatch | Some digest \<Rightarrow>
      case pd_approvals p of None \<Rightarrow> stop ReasonApprovalBindingMismatch | Some records \<Rightarrow>
      case pd_principal p 0 (en_RequestedBy e) of None \<Rightarrow> stop ReasonIdentityUnavailable | Some requester \<Rightarrow>
      if \<not> pp_Active requester \<or> pp_CanonicalID requester = '''' then stop ReasonIdentityUnavailable
      else case approval_loop p e digest t (pp_CanonicalID requester) 1 records [] [] False of
        (valid, reasons, rejected) \<Rightarrow>
          if rejected then \<lparr>ae_satisfied = False, ae_rejected = True, ae_reasons = reasons\<rparr>
          else if en_ActionType e \<noteq> ActionGitOpsRevert
          then \<lparr>ae_satisfied = 1 \<le> length valid, ae_rejected = False, ae_reasons = reasons\<rparr>
          else \<lparr>ae_satisfied = gany (\<lambda>sreID q. hasAnyRole (pp_Roles q) [RoleSRE] \<and>
                   gany (\<lambda>ownerID c. sreID \<noteq> ownerID \<and> hasAnyRole (pp_Roles c) [RoleServiceOwner]) valid) valid,
                ae_rejected = False, ae_reasons = reasons\<rparr>)"

section \<open>The decision\<close>

definition withReasons :: "Decision \<Rightarrow> Outcome \<Rightarrow> string list \<Rightarrow> Decision" where
  "withReasons d outcome reasons = d\<lparr>dn_Outcome := outcome, dn_ReasonCodes := remdups_adj (sort reasons)\<rparr>"

definition deny :: "Decision \<Rightarrow> string \<Rightarrow> Decision \<times> policy_error option" where
  "deny d reason = (withReasons d OutcomeDeny [reason], None)"

definition cel_variables :: "Stage \<Rightarrow> Envelope \<Rightarrow> TargetSnapshot \<Rightarrow> RiskSnapshot \<Rightarrow> cel_input" where
  "cel_variables stage e target risk = \<lparr>ci_action_type = ActionType_string (en_ActionType e),
     ci_stage = Stage_string stage, ci_environment = ts_EnvironmentID target, ci_service_id = ts_ServiceID target,
     ci_workspace_id = ts_WorkspaceID target, ci_risk_level = rk_Level risk, ci_connector_id = ts_ConnectorID target,
     ci_credential_permission = cs_Permission (en_CredentialScope e),
     ci_mapping_exact = (ts_MappingResult target = ''EXACT''), ci_whitelisted = ts_Whitelisted target\<rparr>"

text \<open>The end of \<open>evaluate\<close>: the CEL policy, the approvals and the credential's expiry.\<close>

definition evaluate_policy ::
  "policy_ext \<Rightarrow> policy_deps \<Rightarrow> Engine \<Rightarrow> Stage \<Rightarrow> Envelope \<Rightarrow> TargetSnapshot \<Rightarrow> RiskSnapshot \<Rightarrow> Decision \<Rightarrow>
   Decision \<times> policy_error option" where
  "evaluate_policy x p engine stage e target risk d =
     (case eg_program engine (cel_variables stage e target risk) of
        CelError \<Rightarrow> (withReasons d OutcomeDeny [ReasonCELPolicyDenied], Some CelFailed)
      | CelOther \<Rightarrow> deny d ReasonCELPolicyDenied
      | CelBool allowed \<Rightarrow>
      if \<not> allowed then deny d ReasonCELPolicyDenied
      else let r = evaluateApprovals x p e (pd_clock p) in
      if ae_rejected r then (withReasons d OutcomeDeny (ae_reasons r @ [ReasonApprovalRejected]), None)
      else if \<not> ae_satisfied r then
        (withReasons d (if stage = StagePlanSubmission then OutcomeRequireApproval else OutcomeDeny)
           (ae_reasons r @ [ReasonApprovalRequired]), None)
      else (d\<lparr>dn_Outcome := OutcomeAllow, dn_CredentialExpiresAt :=
              (if stage = StageCredentialIssue then
                 let credentialExpiry = pd_clock p + cs_TTLSeconds (en_CredentialScope e) * Second in
                 if After credentialExpiry (zt_instant (en_ExpiresAt e)) then zt_instant (en_ExpiresAt e)
                 else credentialExpiry
               else dn_CredentialExpiresAt d)\<rparr>, None))"

definition evaluate_risk ::
  "policy_ext \<Rightarrow> policy_deps \<Rightarrow> Engine \<Rightarrow> Stage \<Rightarrow> Envelope \<Rightarrow> TargetSnapshot \<Rightarrow> Decision \<Rightarrow>
   Decision \<times> policy_error option" where
  "evaluate_risk x p engine stage e target d =
     (let t = pd_clock p; digest = TargetDigest (px_sha x) e in
      case pd_risk p of None \<Rightarrow> deny d ReasonRiskAssessmentDrift | Some risk \<Rightarrow>
      if rk_Revision risk = '''' \<or> \<not> policy_fresh t (rk_ObservedAt risk) MaxTargetSnapshotAge \<or>
         digest = None \<or> rk_WorkspaceID risk \<noteq> en_WorkspaceID e \<or> rk_ActionID risk \<noteq> en_ActionID e \<or>
         rk_PlanHash risk \<noteq> en_PlanHash e \<or> Some (rk_TargetDigest risk) \<noteq> digest \<or>
         rk_PolicyVersion risk \<noteq> en_PolicyVersion e \<or> rk_Level risk \<noteq> ra_Level (en_Risk e) \<or>
         rk_ReasonCodes risk \<noteq> ra_ReasonCodes (en_Risk e)
      then deny d ReasonRiskAssessmentDrift
      else let d1 = d\<lparr>dn_RiskRevision := rk_Revision risk\<rparr> in
      case pd_limits p of None \<Rightarrow> deny d1 ReasonActionLimitsDrift | Some limits \<Rightarrow>
      if lm_Revision limits = '''' \<or> \<not> policy_fresh t (lm_ObservedAt limits) MaxTargetSnapshotAge \<or>
         lm_WorkspaceID limits \<noteq> en_WorkspaceID e \<or> lm_ServiceID limits \<noteq> tr_ServiceID (en_Target e) \<or>
         lm_EnvironmentID limits \<noteq> tr_EnvironmentID (en_Target e) \<or> lm_ActionType limits \<noteq> en_ActionType e \<or>
         \<not> limitsMatchEnvelope limits e
      then deny d1 ReasonActionLimitsDrift
      else evaluate_policy x p engine stage e target risk (d1\<lparr>dn_LimitsRevision := lm_Revision limits\<rparr>))"

definition evaluate_target ::
  "policy_ext \<Rightarrow> policy_deps \<Rightarrow> Engine \<Rightarrow> Stage \<Rightarrow> Envelope \<Rightarrow> Decision \<Rightarrow> Decision \<times> policy_error option" where
  "evaluate_target x p engine stage e d =
     (case pd_target p of None \<Rightarrow> deny d ReasonTargetStateDrift | Some target \<Rightarrow>
      if ts_Revision target = '''' then deny d ReasonTargetStateDrift
      else let d1 = d\<lparr>dn_TargetRevision := ts_Revision target\<rparr> in
      if \<not> policy_fresh (pd_clock p) (ts_ObservedAt target) MaxTargetSnapshotAge then deny d1 ReasonTargetStateStale
      else if ts_WorkspaceID target \<noteq> en_WorkspaceID e \<or> ts_ServiceID target \<noteq> tr_ServiceID (en_Target e) \<or>
              ts_EnvironmentID target \<noteq> tr_EnvironmentID (en_Target e) \<or>
              ts_ConnectorID target \<noteq> cs_ConnectorID (en_CredentialScope e) \<or> ts_ActionType target \<noteq> en_ActionType e
      then deny d1 ReasonTargetStateDrift
      else if ts_MappingResult target \<noteq> ''EXACT'' then deny d1 ReasonMappingNotExact
      else if \<not> ts_Whitelisted target then deny d1 ReasonTargetNotWhitelisted
      else if \<not> targetMatchesEnvelope target e then deny d1 ReasonTargetStateDrift
      else evaluate_risk x p engine stage e target d1)"

definition evaluate_scoped ::
  "policy_ext \<Rightarrow> policy_deps \<Rightarrow> Engine \<Rightarrow> Stage \<Rightarrow> Envelope \<Rightarrow> GlobalSwitchSnapshot \<Rightarrow> Decision \<Rightarrow>
   Decision \<times> policy_error option" where
  "evaluate_scoped x p engine stage e global d =
     (case pd_scoped p of None \<Rightarrow> deny d ReasonSafetyStateUnavailable | Some scoped \<Rightarrow>
      if sc_Revision scoped = '''' then deny d ReasonSafetyStateUnavailable
      else let d1 = d\<lparr>dn_SafetyRevision := gs_Revision global @ ''/'' @ sc_Revision scoped\<rparr> in
      if \<not> policy_fresh (pd_clock p) (sc_ObservedAt scoped) MaxSafetySnapshotAge then deny d1 ReasonSafetyStateStale
      else if sc_WorkspaceID scoped \<noteq> en_WorkspaceID e \<or> sc_EnvironmentID scoped \<noteq> tr_EnvironmentID (en_Target e) \<or>
              sc_ConnectorID scoped \<noteq> cs_ConnectorID (en_CredentialScope e) \<or> sc_ActionType scoped \<noteq> en_ActionType e
      then deny d1 ReasonKillSwitchDisabled
      else if \<not> sc_EnvironmentEnabled scoped \<or> \<not> sc_ConnectorEnabled scoped \<or> \<not> sc_ActionEnabled scoped
      then deny d1 ReasonKillSwitchDisabled
      else evaluate_target x p engine stage e d1)"

definition initial_decision :: "policy_deps \<Rightarrow> Engine \<Rightarrow> Stage \<Rightarrow> Envelope \<Rightarrow> Decision" where
  "initial_decision p engine stage e = \<lparr>dn_Outcome = OutcomeDeny,
     dn_PolicyVersion = df_Version (eg_definition engine), dn_Stage = stage, dn_PlanHash = en_PlanHash e,
     dn_ReasonCodes = [], dn_SafetyRevision = '''', dn_TargetRevision = '''', dn_RiskRevision = '''',
     dn_LimitsRevision = '''', dn_EvaluatedAt = pd_clock p, dn_CredentialExpiresAt = 0\<rparr>"

definition evaluate ::
  "policy_ext \<Rightarrow> policy_deps \<Rightarrow> Engine \<Rightarrow> Stage \<Rightarrow> Envelope \<Rightarrow> Decision \<times> policy_error option" where
  "evaluate x p engine stage e =
     (let t = pd_clock p; d = initial_decision p engine stage e in
      case pd_ctx p of Some c \<Rightarrow> (d, Some (PolicyCtx c)) | None \<Rightarrow>
      case pd_global p of None \<Rightarrow> deny d ReasonSafetyStateUnavailable | Some global \<Rightarrow>
      if gs_Revision global = '''' then deny d ReasonSafetyStateUnavailable
      else let d1 = d\<lparr>dn_SafetyRevision := gs_Revision global\<rparr> in
      if \<not> policy_fresh t (gs_ObservedAt global) MaxSafetySnapshotAge then deny d1 ReasonSafetyStateStale
      else if \<not> gs_Enabled global then deny d1 ReasonKillSwitchDisabled
      else if en_PolicyVersion e \<noteq> df_Version (eg_definition engine) then deny d1 ReasonInvalidEnvelope
      else if Verify (px_canon x) (px_sha x) (px_edverify x) (Some (pd_keys p)) e t \<noteq> None
      then deny d1 ReasonInvalidEnvelope
      else evaluate_scoped x p engine stage e global d1)"

definition EvaluatePlanSubmission :: "policy_ext \<Rightarrow> policy_deps \<Rightarrow> Engine \<Rightarrow> Envelope \<Rightarrow> Decision \<times> policy_error option" where
  "EvaluatePlanSubmission x p engine e = evaluate x p engine StagePlanSubmission e"

definition EvaluateCredentialIssue :: "policy_ext \<Rightarrow> policy_deps \<Rightarrow> Engine \<Rightarrow> Envelope \<Rightarrow> Decision \<times> policy_error option" where
  "EvaluateCredentialIssue x p engine e = evaluate x p engine StageCredentialIssue e"

definition EvaluatePreExecution :: "policy_ext \<Rightarrow> policy_deps \<Rightarrow> Engine \<Rightarrow> Envelope \<Rightarrow> Decision \<times> policy_error option" where
  "EvaluatePreExecution x p engine e = evaluate x p engine StagePreExecution e"


section \<open>Who approved\<close>

text \<open>
  The approvals that count, as a specification without the loop: a record is a ballot when it is
  bound to this plan and in force, and the subject is an active principal of known roles other than
  the requester. Of two approvals by the same principal the first one counts.
\<close>

definition eligible ::
  "policy_deps \<Rightarrow> Envelope \<Rightarrow> string \<Rightarrow> time \<Rightarrow> string \<Rightarrow> nat \<Rightarrow> Approval \<Rightarrow> Principal option" where
  "eligible p e digest t requester n a =
     (case pd_principal p n (av_SubjectID a) of None \<Rightarrow> None | Some q \<Rightarrow>
        if approvalBindingValid a e digest t \<and> pp_Active q \<and> pp_CanonicalID q \<noteq> '''' \<and>
           pp_CanonicalID q \<noteq> requester \<and> validRoles (pp_Roles q) then Some q else None)"

definition ballots ::
  "ApprovalDecision \<Rightarrow> policy_deps \<Rightarrow> Envelope \<Rightarrow> string \<Rightarrow> time \<Rightarrow> string \<Rightarrow> nat \<Rightarrow> Approval list \<Rightarrow> Principal list" where
  "ballots v p e digest t requester n as = List.map_filter
     (\<lambda>(i, a). if av_Decision a = v then eligible p e digest t requester i a else None) (enumerate n as)"

definition by_id :: "Principal list \<Rightarrow> Principal gomap" where
  "by_id qs = map (\<lambda>q. (pp_CanonicalID q, q)) qs"

text \<open>
  Two pairs of eyes: no rejection, and an approval; a GitOps revert needs an SRE and a service owner
  who are different principals.
\<close>

definition approvals_suffice :: "policy_ext \<Rightarrow> policy_deps \<Rightarrow> Envelope \<Rightarrow> time \<Rightarrow> bool" where
  "approvals_suffice x p e t \<longleftrightarrow>
     (\<exists>digest records requester.
        TargetDigest (px_sha x) e = Some digest \<and> pd_approvals p = Some records \<and>
        pd_principal p 0 (en_RequestedBy e) = Some requester \<and>
        pp_Active requester \<and> pp_CanonicalID requester \<noteq> '''' \<and>
        (let cast = (\<lambda>v. ballots v p e digest t (pp_CanonicalID requester) 1 records);
             voter = gget (by_id (cast ApprovalApproved)) in
         cast ApprovalRejected = [] \<and>
         (if en_ActionType e = ActionGitOpsRevert
          then \<exists>sre owner q c. sre \<noteq> owner \<and> voter sre = Some q \<and> RoleSRE \<in> set (pp_Roles q) \<and>
                 voter owner = Some c \<and> RoleServiceOwner \<in> set (pp_Roles c)
          else cast ApprovalApproved \<noteq> [])))"

lemma validRoles_hasAnyRole: "validRoles roles \<Longrightarrow> hasAnyRole roles [RoleSRE, RoleServiceOwner, RoleApprover]"
  by (cases roles) (auto simp: validRoles_def hasAnyRole_def known_role_def)

lemma ballots_simps [simp]:
  "ballots v p e digest t requester n [] = []"
  "ballots v p e digest t requester n (a # as) =
     (case if av_Decision a = v then eligible p e digest t requester n a else None of
        None \<Rightarrow> ballots v p e digest t requester (Suc n) as
      | Some q \<Rightarrow> q # ballots v p e digest t requester (Suc n) as)"
  by (simp_all add: ballots_def map_filter_simps split: option.splits)

lemma by_id_simps [simp]: "by_id [] = []" "by_id (q # qs) = (pp_CanonicalID q, q) # by_id qs"
  by (simp_all add: by_id_def)

lemma approval_loop_counts:
  assumes "approval_loop p e digest t requester n as valid reasons rejected = (valid', reasons', rejected')"
    and "distinct (gkeys valid)"
  shows "distinct (gkeys valid') \<and>
    gget valid' = gget (by_id (ballots ApprovalApproved p e digest t requester n as)) ++ gget valid \<and>
    rejected' = (rejected \<or> ballots ApprovalRejected p e digest t requester n as \<noteq> [])"
  using assms
proof (induction as arbitrary: n valid reasons rejected)
  case Nil
  then show ?case by simp
next
  case (Cons a as)
  note step = Cons.IH [of "Suc n"]
  show ?case
  proof (cases "eligible p e digest t requester n a")
    case None
    then obtain reason where
      "approval_loop p e digest t requester (Suc n) as valid (reasons @ [reason]) rejected = (valid', reasons', rejected')"
      using Cons.prems(1)
      by (auto simp: eligible_def Let_def dest: validRoles_hasAnyRole split: if_splits option.splits)
    from step [OF this Cons.prems(2)] None show ?thesis by simp
  next
    case (Some q)
    then have q: "approvalBindingValid a e digest t" "pd_principal p n (av_SubjectID a) = Some q" "pp_Active q"
      "pp_CanonicalID q \<noteq> ''''" "pp_CanonicalID q \<noteq> requester" "validRoles (pp_Roles q)"
      by (auto simp: eligible_def split: option.splits if_splits)
    note open_gates = q validRoles_hasAnyRole [OF q(6)]
    from q(1) consider "av_Decision a = ApprovalRejected" | "av_Decision a = ApprovalApproved"
      by (auto simp: approvalBindingValid_def)
    then show ?thesis
    proof cases
      case 1
      with Cons.prems(1) open_gates
      have "approval_loop p e digest t requester (Suc n) as valid reasons True = (valid', reasons', rejected')"
        by simp
      from step [OF this Cons.prems(2)] Some 1 show ?thesis by simp
    next
      case 2
      show ?thesis
      proof (cases "gget valid (pp_CanonicalID q)")
        case None
        with Cons.prems(1) open_gates 2
        have "approval_loop p e digest t requester (Suc n) as (gset (pp_CanonicalID q) q valid) reasons rejected =
          (valid', reasons', rejected')" by simp
        from step [OF this distinct_gset [OF Cons.prems(2)]] Some 2 None show ?thesis
          by (auto simp: fun_eq_iff map_add_def gget_gset split: option.splits)
      next
        case other: (Some old)
        with Cons.prems(1) open_gates 2
        have "approval_loop p e digest t requester (Suc n) as valid (reasons @ [ReasonApprovalBindingMismatch]) rejected =
          (valid', reasons', rejected')" by simp
        from step [OF this Cons.prems(2)] Some 2 other show ?thesis
          by (auto simp: fun_eq_iff map_add_def split: option.splits)
      qed
    qed
  qed
qed

lemma by_id_empty: "(gget (by_id qs) = Map.empty) = (qs = [])"
  by (cases qs) (auto simp: fun_eq_iff)

lemma hasAnyRole_one: "hasAnyRole roles [r] \<longleftrightarrow> r \<in> set roles"
  by (auto simp: hasAnyRole_def list_ex_iff)

definition approvals_reject :: "policy_ext \<Rightarrow> policy_deps \<Rightarrow> Envelope \<Rightarrow> time \<Rightarrow> bool" where
  "approvals_reject x p e t \<longleftrightarrow>
     (\<exists>digest records requester.
        TargetDigest (px_sha x) e = Some digest \<and> pd_approvals p = Some records \<and>
        pd_principal p 0 (en_RequestedBy e) = Some requester \<and>
        pp_Active requester \<and> pp_CanonicalID requester \<noteq> '''' \<and>
        ballots ApprovalRejected p e digest t (pp_CanonicalID requester) 1 records \<noteq> [])"

lemma evaluateApprovals_iff:
  "(ae_satisfied (evaluateApprovals x p e t) \<longleftrightarrow> approvals_suffice x p e t) \<and>
   (ae_rejected (evaluateApprovals x p e t) \<longleftrightarrow> approvals_reject x p e t)"
proof (cases "\<exists>digest records requester. TargetDigest (px_sha x) e = Some digest \<and> pd_approvals p = Some records \<and>
    pd_principal p 0 (en_RequestedBy e) = Some requester \<and> pp_Active requester \<and> pp_CanonicalID requester \<noteq> ''''")
  case False
  then show ?thesis
    by (auto simp: evaluateApprovals_def approvals_suffice_def approvals_reject_def Let_def split: option.splits if_splits)
next
  case True
  then obtain digest records requester where facts: "TargetDigest (px_sha x) e = Some digest"
    "pd_approvals p = Some records" "pd_principal p 0 (en_RequestedBy e) = Some requester"
    "pp_Active requester" "pp_CanonicalID requester \<noteq> ''''" by blast
  obtain valid reasons rejected where loop:
    "approval_loop p e digest t (pp_CanonicalID requester) 1 records [] [] False = (valid, reasons, rejected)"
    by (rule prod_cases3)
  from approval_loop_counts [OF loop]
  have d: "distinct (gkeys valid)"
    and v: "gget valid = gget (by_id (ballots ApprovalApproved p e digest t (pp_CanonicalID requester) 1 records))"
    and r: "rejected = (ballots ApprovalRejected p e digest t (pp_CanonicalID requester) 1 records \<noteq> [])"
    by simp_all
  have some: "valid \<noteq> [] \<longleftrightarrow> ballots ApprovalApproved p e digest t (pp_CanonicalID requester) 1 records \<noteq> []"
    using by_id_empty v by (metis map_of_eq_empty_iff)
  then have some: "1 \<le> length valid \<longleftrightarrow>
    ballots ApprovalApproved p e digest t (pp_CanonicalID requester) 1 records \<noteq> []"
    by (cases valid) simp_all
  show ?thesis
    using facts by (auto simp: evaluateApprovals_def approvals_suffice_def approvals_reject_def Let_def loop r some [symmetric]
      gany_iff [OF d] hasAnyRole_one v [symmetric] simp del: One_nat_def)
qed

text \<open>
  C5. The loop over the approval records decides exactly the two-person rule: it reports success
  iff no eligible principal rejected and an eligible principal other than the requester approved,
  for a GitOps revert an SRE and a different service owner. It reports a rejection iff an eligible
  principal rejected the plan; and then, or when the target digest, the records or the requester
  cannot be had, it never reports success.
\<close>

theorem approvals_two_person:
  "(ae_satisfied (evaluateApprovals x p e t) \<longleftrightarrow> approvals_suffice x p e t) \<and>
   (ae_rejected (evaluateApprovals x p e t) \<longleftrightarrow> approvals_reject x p e t) \<and>
   \<not> (approvals_suffice x p e t \<and> approvals_reject x p e t)"
  using evaluateApprovals_iff [of x p e t]
  by (auto simp: approvals_suffice_def approvals_reject_def Let_def)


section \<open>When an action is allowed\<close>

text \<open>The gates of a decision as one condition on what the dependencies answer.\<close>

definition switches_on :: "policy_deps \<Rightarrow> Envelope \<Rightarrow> GlobalSwitchSnapshot \<Rightarrow> ScopedSwitchSnapshot \<Rightarrow> bool" where
  "switches_on p e g s \<longleftrightarrow>
     gs_Revision g \<noteq> '''' \<and> policy_fresh (pd_clock p) (gs_ObservedAt g) MaxSafetySnapshotAge \<and> gs_Enabled g \<and>
     sc_Revision s \<noteq> '''' \<and> policy_fresh (pd_clock p) (sc_ObservedAt s) MaxSafetySnapshotAge \<and>
     sc_WorkspaceID s = en_WorkspaceID e \<and> sc_EnvironmentID s = tr_EnvironmentID (en_Target e) \<and>
     sc_ConnectorID s = cs_ConnectorID (en_CredentialScope e) \<and> sc_ActionType s = en_ActionType e \<and>
     sc_EnvironmentEnabled s \<and> sc_ConnectorEnabled s \<and> sc_ActionEnabled s"

definition target_unchanged :: "policy_deps \<Rightarrow> Envelope \<Rightarrow> TargetSnapshot \<Rightarrow> bool" where
  "target_unchanged p e s \<longleftrightarrow>
     ts_Revision s \<noteq> '''' \<and> policy_fresh (pd_clock p) (ts_ObservedAt s) MaxTargetSnapshotAge \<and>
     ts_WorkspaceID s = en_WorkspaceID e \<and> ts_ServiceID s = tr_ServiceID (en_Target e) \<and>
     ts_EnvironmentID s = tr_EnvironmentID (en_Target e) \<and>
     ts_ConnectorID s = cs_ConnectorID (en_CredentialScope e) \<and> ts_ActionType s = en_ActionType e \<and>
     ts_MappingResult s = ''EXACT'' \<and> ts_Whitelisted s \<and> targetMatchesEnvelope s e"

definition risk_unchanged :: "policy_ext \<Rightarrow> policy_deps \<Rightarrow> Envelope \<Rightarrow> RiskSnapshot \<Rightarrow> bool" where
  "risk_unchanged x p e r \<longleftrightarrow>
     rk_Revision r \<noteq> '''' \<and> policy_fresh (pd_clock p) (rk_ObservedAt r) MaxTargetSnapshotAge \<and>
     rk_WorkspaceID r = en_WorkspaceID e \<and> rk_ActionID r = en_ActionID e \<and> rk_PlanHash r = en_PlanHash e \<and>
     TargetDigest (px_sha x) e = Some (rk_TargetDigest r) \<and> rk_PolicyVersion r = en_PolicyVersion e \<and>
     rk_Level r = ra_Level (en_Risk e) \<and> rk_ReasonCodes r = ra_ReasonCodes (en_Risk e)"

definition limits_unchanged :: "policy_deps \<Rightarrow> Envelope \<Rightarrow> ActionLimitsSnapshot \<Rightarrow> bool" where
  "limits_unchanged p e l \<longleftrightarrow>
     lm_Revision l \<noteq> '''' \<and> policy_fresh (pd_clock p) (lm_ObservedAt l) MaxTargetSnapshotAge \<and>
     lm_WorkspaceID l = en_WorkspaceID e \<and> lm_ServiceID l = tr_ServiceID (en_Target e) \<and>
     lm_EnvironmentID l = tr_EnvironmentID (en_Target e) \<and> lm_ActionType l = en_ActionType e \<and>
     limitsMatchEnvelope l e"

definition permits :: "policy_ext \<Rightarrow> policy_deps \<Rightarrow> Engine \<Rightarrow> Stage \<Rightarrow> Envelope \<Rightarrow> bool" where
  "permits x p engine stage e \<longleftrightarrow>
     (\<exists>g s target risk limits.
        pd_ctx p = None \<and> pd_global p = Some g \<and> pd_scoped p = Some s \<and> pd_target p = Some target \<and>
        pd_risk p = Some risk \<and> pd_limits p = Some limits \<and>
        en_PolicyVersion e = df_Version (eg_definition engine) \<and>
        Verify (px_canon x) (px_sha x) (px_edverify x) (Some (pd_keys p)) e (pd_clock p) = None \<and>
        switches_on p e g s \<and> target_unchanged p e target \<and> risk_unchanged x p e risk \<and>
        limits_unchanged p e limits \<and>
        eg_program engine (cel_variables stage e target risk) = CelBool True \<and>
        approvals_suffice x p e (pd_clock p))"

lemma approvals_suffice_not_rejected: "approvals_suffice x p e t \<Longrightarrow> \<not> approvals_reject x p e t"
  by (auto simp: approvals_suffice_def approvals_reject_def Let_def)

lemmas approval_facts = evaluateApprovals_iff [THEN conjunct1] evaluateApprovals_iff [THEN conjunct2]

lemma evaluate_policy_allow:
  "dn_Outcome (fst (evaluate_policy x p engine stage e target risk d)) = OutcomeAllow \<longleftrightarrow>
   eg_program engine (cel_variables stage e target risk) = CelBool True \<and> approvals_suffice x p e (pd_clock p)"
  by (auto simp: evaluate_policy_def deny_def withReasons_def Let_def approval_facts
      dest: approvals_suffice_not_rejected split: cel_result.splits)

lemma evaluate_risk_allow:
  "dn_Outcome (fst (evaluate_risk x p engine stage e target d)) = OutcomeAllow \<longleftrightarrow>
   (\<exists>risk limits. pd_risk p = Some risk \<and> pd_limits p = Some limits \<and> risk_unchanged x p e risk \<and>
      limits_unchanged p e limits \<and> eg_program engine (cel_variables stage e target risk) = CelBool True \<and>
      approvals_suffice x p e (pd_clock p))"
  by (auto simp: evaluate_risk_def deny_def withReasons_def Let_def evaluate_policy_allow risk_unchanged_def
      limits_unchanged_def split: option.splits)

lemma evaluate_target_allow:
  "dn_Outcome (fst (evaluate_target x p engine stage e d)) = OutcomeAllow \<longleftrightarrow>
   (\<exists>target risk limits. pd_target p = Some target \<and> pd_risk p = Some risk \<and> pd_limits p = Some limits \<and>
      target_unchanged p e target \<and> risk_unchanged x p e risk \<and>
      limits_unchanged p e limits \<and> eg_program engine (cel_variables stage e target risk) = CelBool True \<and>
      approvals_suffice x p e (pd_clock p))"
  by (auto simp: evaluate_target_def deny_def withReasons_def Let_def evaluate_risk_allow target_unchanged_def
      split: option.splits)

text \<open>
  C3. An action is allowed at a stage exactly when every gate is open: the call is not cancelled, the
  global and the scoped kill switches are fresh, for this very scope and on, the envelope names the
  engine's policy version and verifies now, the target's fresh state is exactly the signed one,
  the risk assessment and the limits are fresh and the signed ones, the CEL policy says true, and
  the two-person rule is met. Nothing else gives \<open>OutcomeAllow\<close>.
\<close>

theorem policy_allow_iff:
  "dn_Outcome (fst (evaluate x p engine stage e)) = OutcomeAllow \<longleftrightarrow> permits x p engine stage e"
  by (auto simp: evaluate_def evaluate_scoped_def deny_def withReasons_def Let_def evaluate_target_allow permits_def
      switches_on_def initial_decision_def split: option.splits)

section \<open>The shape of a decision\<close>

definition pending :: "policy_deps \<Rightarrow> Engine \<Rightarrow> Stage \<Rightarrow> Envelope \<Rightarrow> Decision \<Rightarrow> bool" where
  "pending p engine stage e d \<longleftrightarrow>
     dn_PolicyVersion d = df_Version (eg_definition engine) \<and> dn_Stage d = stage \<and> dn_PlanHash d = en_PlanHash e \<and>
     dn_EvaluatedAt d = pd_clock p \<and> dn_CredentialExpiresAt d = 0"

definition decision_ok :: "policy_deps \<Rightarrow> Engine \<Rightarrow> Stage \<Rightarrow> Envelope \<Rightarrow> Decision \<times> policy_error option \<Rightarrow> bool" where
  "decision_ok p engine stage e r \<longleftrightarrow> (case r of (d, err) \<Rightarrow>
     dn_PolicyVersion d = df_Version (eg_definition engine) \<and> dn_Stage d = stage \<and> dn_PlanHash d = en_PlanHash e \<and>
     dn_EvaluatedAt d = pd_clock p \<and>
     sorted (dn_ReasonCodes d) \<and> distinct (dn_ReasonCodes d) \<and>
     (dn_ReasonCodes d = [] \<longleftrightarrow> dn_Outcome d = OutcomeAllow \<or> pd_ctx p \<noteq> None) \<and>
     (dn_Outcome d = OutcomeRequireApproval \<longrightarrow>
        stage = StagePlanSubmission \<and> ReasonApprovalRequired \<in> set (dn_ReasonCodes d)) \<and>
     (err \<noteq> None \<longrightarrow> dn_Outcome d = OutcomeDeny) \<and>
     dn_CredentialExpiresAt d =
       (if dn_Outcome d = OutcomeAllow \<and> stage = StageCredentialIssue
        then min (pd_clock p + cs_TTLSeconds (en_CredentialScope e) * Second) (zt_instant (en_ExpiresAt e)) else 0))"

lemma reason_codes_normal:
  "sorted (remdups_adj (sort (rs :: string list))) \<and> distinct (remdups_adj (sort rs)) \<and>
   set (remdups_adj (sort rs)) = set rs"
proof -
  have "distinct (remdups_adj ys)" if "sorted ys" for ys :: "string list"
    using that by (induction ys rule: remdups_adj.induct) (auto simp: order_antisym)
  then show ?thesis by simp
qed

lemma withReasons_ok:
  assumes "pending p engine stage e d" and "rs \<noteq> []" and "pd_ctx p = None" and "outcome \<noteq> OutcomeAllow"
    and "outcome = OutcomeRequireApproval \<Longrightarrow> stage = StagePlanSubmission \<and> ReasonApprovalRequired \<in> set rs \<and> err = None"
  shows "decision_ok p engine stage e (withReasons d outcome rs, err)"
proof -
  have "remdups_adj (sort rs) \<noteq> []"
    using assms(2) reason_codes_normal [of rs] by (metis set_empty)
  with assms reason_codes_normal [of rs] show ?thesis
    by (cases outcome) (auto simp: decision_ok_def withReasons_def pending_def simp del: remdups_adj_Nil_iff)
qed

lemma deny_ok:
  "pending p engine stage e d \<Longrightarrow> pd_ctx p = None \<Longrightarrow> decision_ok p engine stage e (deny d reason)"
  unfolding deny_def by (rule withReasons_ok) simp_all

lemma pending_revisions [simp]:
  "pending p engine stage e (d\<lparr>dn_SafetyRevision := r\<rparr>) = pending p engine stage e d"
  "pending p engine stage e (d\<lparr>dn_TargetRevision := r\<rparr>) = pending p engine stage e d"
  "pending p engine stage e (d\<lparr>dn_RiskRevision := r\<rparr>) = pending p engine stage e d"
  "pending p engine stage e (d\<lparr>dn_LimitsRevision := r\<rparr>) = pending p engine stage e d"
  by (simp_all add: pending_def)

lemma allow_ok:
  assumes "pending p engine stage e d" and "dn_ReasonCodes d = []"
  shows "decision_ok p engine stage e (d\<lparr>dn_Outcome := OutcomeAllow, dn_CredentialExpiresAt :=
      (if stage = StageCredentialIssue then
         let credentialExpiry = pd_clock p + cs_TTLSeconds (en_CredentialScope e) * Second in
         if After credentialExpiry (zt_instant (en_ExpiresAt e)) then zt_instant (en_ExpiresAt e)
         else credentialExpiry
       else dn_CredentialExpiresAt d)\<rparr>, None)"
  using assms by (simp add: decision_ok_def pending_def Let_def min_def)

lemma evaluate_policy_ok:
  assumes "pending p engine stage e d" and "dn_ReasonCodes d = []" and "pd_ctx p = None"
  shows "decision_ok p engine stage e (evaluate_policy x p engine stage e target risk d)"
  unfolding evaluate_policy_def Let_def
  using assms allow_ok [OF assms(1,2), unfolded Let_def]
  by (auto intro!: withReasons_ok deny_ok split: cel_result.splits)

lemma evaluate_risk_ok:
  assumes "pending p engine stage e d" and "dn_ReasonCodes d = []" and "pd_ctx p = None"
  shows "decision_ok p engine stage e (evaluate_risk x p engine stage e target d)"
  unfolding evaluate_risk_def Let_def
  using assms by (auto intro!: deny_ok evaluate_policy_ok split: option.splits)

lemma evaluate_target_ok:
  assumes "pending p engine stage e d" and "dn_ReasonCodes d = []" and "pd_ctx p = None"
  shows "decision_ok p engine stage e (evaluate_target x p engine stage e d)"
  unfolding evaluate_target_def Let_def
  using assms by (auto intro!: deny_ok evaluate_risk_ok split: option.splits)

lemma evaluate_scoped_ok:
  assumes "pending p engine stage e d" and "dn_ReasonCodes d = []" and "pd_ctx p = None"
  shows "decision_ok p engine stage e (evaluate_scoped x p engine stage e g d)"
  unfolding evaluate_scoped_def Let_def
  using assms by (auto intro!: deny_ok evaluate_target_ok split: option.splits)

text \<open>
  C28. Every decision is well formed and fails closed: it names the engine's version, the stage, the
  plan and the instant; its reason codes are sorted without repetition, and empty exactly when the
  action is allowed or the call was cancelled before the first gate; approval is asked for only at
  plan submission; an error always comes with a denial; and a credential expiry is given exactly
  when a credential issue is allowed, the earlier of now plus the signed lifetime and the
  envelope's end.
\<close>

theorem policy_decision_well_formed:
  "decision_ok p engine stage e (evaluate x p engine stage e)"
proof (cases "pd_ctx p")
  case None
  have "pending p engine stage e (initial_decision p engine stage e)"
    and "dn_ReasonCodes (initial_decision p engine stage e) = []"
    by (simp_all add: pending_def initial_decision_def)
  with None show ?thesis
    unfolding evaluate_def Let_def by (auto intro!: deny_ok evaluate_scoped_ok split: option.splits)
next
  case (Some c)
  then show ?thesis by (simp add: evaluate_def Let_def decision_ok_def initial_decision_def)
qed


section \<open>Versions bind the policy's source\<close>

lemma trim_left_clean: "leading_space (trim_left s) = None"
proof (induction s rule: trim_left.induct)
  case (1 s)
  then show ?case by (cases "leading_space s") (simp_all add: trim_left.simps [of s])
qed

lemma trim_right_clean: "ending_space (trim_right s) = None"
proof (induction s rule: trim_right.induct)
  case (1 s)
  then show ?case by (cases "ending_space s") (simp_all add: trim_right.simps [of s])
qed

lemma trim_right_take: "\<exists>n. trim_right s = take n s"
proof (induction s rule: trim_right.induct)
  case (1 s)
  show ?case
  proof (cases "ending_space s")
    case None
    then show ?thesis by (intro exI [of _ "length s"]) (simp add: trim_right.simps)
  next
    case (Some r)
    with 1 obtain n where "trim_right (take (length s - length r) s) = take n (take (length s - length r) s)" by blast
    with Some show ?thesis by (auto simp: trim_right.simps [of s])
  qed
qed

lemma leading_space_take: "leading_space s = None \<Longrightarrow> leading_space (take n s) = None"
  by (fastforce simp: leading_space_def find_None_iff min_def split: if_splits)

lemma TrimSpace_idem: "TrimSpace (TrimSpace s) = TrimSpace s"
proof -
  have "leading_space (TrimSpace s) = None"
    using leading_space_take [OF trim_left_clean] trim_right_take by (metis TrimSpace_def)
  then have "trim_left (TrimSpace s) = TrimSpace s" by (simp add: trim_left.simps)
  moreover have "ending_space (TrimSpace s) = None" by (simp add: TrimSpace_def trim_right_clean)
  ultimately show ?thesis by (simp add: TrimSpace_def trim_right.simps [of "trim_right (trim_left s)"])
qed

lemma unix_newlines_plain: "CHR 0x0D \<notin> set s \<Longrightarrow> unix_newlines s = s"
  by (induction s rule: unix_newlines.induct) auto

lemma normalizeExpression_idem: "normalizeExpression s = Some n \<Longrightarrow> normalizeExpression n = Some n"
  by (auto simp: normalizeExpression_def Let_def unix_newlines_plain TrimSpace_idem split: if_splits)

lemma label_no_at: "definitionLabelPattern l \<Longrightarrow> CHR ''@'' \<notin> set l"
proof -
  assume l: "definitionLabelPattern l"
  have "\<not> is_alnum (CHR ''@'')" by code_simp
  with l show ?thesis by (cases l) (auto simp: definitionLabelPattern_def list_all_iff simp del: is_alnum_def)
qed

lemma split_at_sign:
  assumes "a @ CHR ''@'' # u = b @ CHR ''@'' # v" and "CHR ''@'' \<notin> set a" and "CHR ''@'' \<notin> set b"
  shows "a = b \<and> u = v"
  using assms
proof (induction a arbitrary: b)
  case Nil
  then show ?case by (cases b) auto
next
  case (Cons c a)
  then show ?case by (cases b) auto
qed

text \<open>
  C29. A definition that \<open>NewDefinition\<close> produced is accepted by \<open>NewEngine\<close> as it is, and the engine
  then runs the program compiled from its expression. An engine exists only for a definition whose
  version is that of its label and source, so, as long as SHA-256 does not collide on the two
  sources, two engines of the same version have the same label and the same expression: an
  envelope signed for a policy version is never judged by other rules.
\<close>

theorem policy_version_binds:
  assumes "NewEngine x d1 deps1 = Inr engine1" and "NewEngine x d2 deps2 = Inr engine2"
    and "df_Version (eg_definition engine1) = df_Version (eg_definition engine2)"
    and "\<And>m n. px_sha x m = px_sha x n \<Longrightarrow>
      m = ''aiops-cel-policy.v1'' @ CHR 0x00 # df_Expression (eg_definition engine1) \<Longrightarrow>
      n = ''aiops-cel-policy.v1'' @ CHR 0x00 # df_Expression (eg_definition engine2) \<Longrightarrow> m = n"
  shows "eg_definition engine1 = eg_definition engine2 \<and> eg_program engine1 = eg_program engine2 \<and>
    NewEngine x (eg_definition engine1) True = Inr engine1"
proof -
  have new: "\<exists>label source. NewDefinition x label source = Inr (eg_definition g) \<and>
      px_cel x (df_Expression (eg_definition g)) = Some (eg_program g)"
    if "NewEngine x d deps = Inr g" for d deps g
    using that by (fastforce simp: NewEngine_def split: sum.splits if_splits option.splits)
  have known: "definitionLabelPattern (df_Label f) \<and> normalizeExpression (df_Expression f) = Some (df_Expression f) \<and>
      df_Version f = policy_version (px_sha x) (df_Label f) (df_Expression f)"
    if "NewDefinition x label source = Inr f" for label source f
    using that by (auto simp: NewDefinition_def normalizeExpression_idem split: if_splits option.splits)
  obtain l1 s1 l2 s2 where
    "NewDefinition x l1 s1 = Inr (eg_definition engine1)" "NewDefinition x l2 s2 = Inr (eg_definition engine2)"
    and cel: "px_cel x (df_Expression (eg_definition engine1)) = Some (eg_program engine1)"
      "px_cel x (df_Expression (eg_definition engine2)) = Some (eg_program engine2)"
    using new [OF assms(1)] new [OF assms(2)] by blast
  note facts = known [OF this(1)] known [OF this(2)]
  have eq: "df_Label (eg_definition engine1) = df_Label (eg_definition engine2) \<and>
    ''sha256:'' @ px_sha x (''aiops-cel-policy.v1'' @ CHR 0x00 # df_Expression (eg_definition engine1)) =
    ''sha256:'' @ px_sha x (''aiops-cel-policy.v1'' @ CHR 0x00 # df_Expression (eg_definition engine2))"
    using assms(3) facts by (intro split_at_sign) (simp_all add: policy_version_def label_no_at)
  then have same: "df_Expression (eg_definition engine1) = df_Expression (eg_definition engine2)"
    using assms(4) by simp
  have "eg_definition engine1 = eg_definition engine2"
    using eq same assms(3) by (intro Definition.equality) simp_all
  moreover have "NewEngine x (eg_definition engine1) True = Inr engine1"
    using facts(1) cel(1) by (simp add: NewEngine_def NewDefinition_def)
  ultimately show ?thesis using cel by simp
qed

section \<open>A plan that is approved\<close>

text \<open>
  The concrete run: the plan of \<open>Action_Envelope\<close> under a policy that only allows low risk, a
  service with fresh switches and facts, and a second person's approval.
\<close>

definition pl_canon :: "Envelope \<Rightarrow> string option" where
  "pl_canon e = Some (if en_PlanHash e = '''' then ''plan'' else ''message'')"

definition pl_source :: string where
  "pl_source = ''risk_level=='' @ [CHR 0x22] @ ''LOW'' @ [CHR 0x22]"

definition pl_program :: cel_program where
  "pl_program i = CelBool (ci_risk_level i = ''LOW'')"

definition pl_ext :: policy_ext where
  "pl_ext = \<lparr>px_canon = pl_canon, px_sha = (\<lambda>_. demo_hash), px_edverify = (\<lambda>_ m s. s = demo_sign '''' m),
     px_cel = (\<lambda>source. if source = pl_source then Some pl_program else None)\<rparr>"

definition pl_definition :: Definition where
  "pl_definition = \<lparr>df_Label = ''p'', df_Version = ''p@sha256:'' @ demo_hash, df_Expression = pl_source\<rparr>"

definition pl_engine :: Engine where
  "pl_engine = \<lparr>eg_definition = pl_definition, eg_program = pl_program\<rparr>"

definition pl_envelope :: Envelope where
  "pl_envelope = demo_sealed\<lparr>en_PolicyVersion := df_Version pl_definition\<rparr>"

definition pl_approval :: Approval where
  "pl_approval = \<lparr>av_SubjectID = ''bob'', av_Decision = ApprovalApproved, av_WorkspaceID = ''ws-1'',
     av_ActionID = ''act-1'', av_PlanHash = demo_hash, av_PolicyVersion = df_Version pl_definition,
     av_TargetDigest = demo_hash, av_DecidedAt = 2000, av_ExpiresAt = 10 * Minute\<rparr>"

definition pl_principal :: "string \<Rightarrow> Principal option" where
  "pl_principal subject = Some \<lparr>pp_CanonicalID = subject, pp_Active = True, pp_Roles = [RoleSRE]\<rparr>"

definition pl_deps :: "Approval list \<Rightarrow> policy_deps" where
  "pl_deps approvals = \<lparr>pd_clock = 5000, pd_ctx = None, pd_keys = RotatingKeySet_Resolve None [(''k1'', demo_record)],
     pd_global = Some \<lparr>gs_Enabled = True, gs_Revision = ''g1'', gs_ObservedAt = 4000\<rparr>,
     pd_scoped = Some \<lparr>sc_WorkspaceID = ''ws-1'', sc_EnvironmentID = ''env-1'', sc_ConnectorID = ''k8s'',
       sc_ActionType = ActionKubernetesScale, sc_EnvironmentEnabled = True, sc_ConnectorEnabled = True,
       sc_ActionEnabled = True, sc_Revision = ''s1'', sc_ObservedAt = 4000\<rparr>,
     pd_target = Some \<lparr>ts_WorkspaceID = ''ws-1'', ts_ServiceID = ''svc-1'', ts_EnvironmentID = ''env-1'',
       ts_ConnectorID = ''k8s'', ts_ActionType = ActionKubernetesScale, ts_MappingResult = ''EXACT'',
       ts_Whitelisted = True, ts_TargetVersion = ''42'',
       ts_Kubernetes = Some \<lparr>kf_ClusterID = ''c1'', kf_Namespace = ''pay'', kf_Name = ''api'', kf_UID = ''u1'',
         kf_ResourceVersion = ''42'', kf_Generation = 7, kf_Replicas = 2, kf_AvailableReplicas = 2,
         kf_UpdatedReplicas = 2, kf_HPAAbsent = True, kf_PDBChecked = True, kf_QuotaChecked = True\<rparr>,
       ts_GitOps = None, ts_AWX = None, ts_Revision = ''t1'', ts_ObservedAt = 4000\<rparr>,
     pd_risk = Some \<lparr>rk_WorkspaceID = ''ws-1'', rk_ActionID = ''act-1'', rk_PlanHash = demo_hash,
       rk_TargetDigest = demo_hash, rk_PolicyVersion = df_Version pl_definition, rk_Level = ''LOW'',
       rk_ReasonCodes = [''bounded''], rk_Revision = ''r1'', rk_ObservedAt = 4000\<rparr>,
     pd_limits = Some \<lparr>lm_WorkspaceID = ''ws-1'', lm_ServiceID = ''svc-1'', lm_EnvironmentID = ''env-1'',
       lm_ActionType = ActionKubernetesScale, lm_MinimumReplicas = 1, lm_MaximumReplicas = 5,
       lm_MaxAWXHosts = 0, lm_Revision = ''l1'', lm_ObservedAt = 4000\<rparr>,
     pd_approvals = Some approvals, pd_principal = (\<lambda>_. pl_principal)\<rparr>"

lemma pl_plan_valid: "Validate (demo_plan\<lparr>en_PolicyVersion := df_Version pl_definition\<rparr>) = None"
  by code_simp

lemma pl_unsealed:
  "pl_envelope\<lparr>en_PlanHash := '''', en_Signature := zero_Signature\<rparr> =
   demo_plan\<lparr>en_PolicyVersion := df_Version pl_definition\<rparr>"
  by (simp add: pl_envelope_def demo_sealed_def demo_signed_def demo_plan_def)

lemma pl_sealed_by:
  "en_PlanHash pl_envelope = demo_hash"
  "en_Signature pl_envelope =
     \<lparr>sg_Algorithm = SignatureEd25519, sg_KeyID = ''k1'', sg_Value = b64_encode (demo_sign '''' ''message'')\<rparr>"
  "zt_instant (en_NotBefore pl_envelope) = 1000" "zt_instant (en_ExpiresAt pl_envelope) = 1000 + 20 * Minute"
  by (simp_all add: pl_envelope_def demo_sealed_def demo_signed_def demo_plan_def)

lemma pl_valid: "Validate pl_envelope = None"
proof -
  have same: "pl_envelope = pl_envelope\<lparr>en_PlanHash := demo_hash, en_Signature :=
     \<lparr>sg_Algorithm = SignatureEd25519, sg_KeyID = ''k1'', sg_Value = b64_encode (demo_sign '''' ''message'')\<rparr>\<rparr>"
    by (simp add: pl_sealed_by [symmetric])
  show ?thesis
    by (subst same, rule Validate_sealed [where ?h0.0 = "''''" and ?g0.0 = zero_Signature])
      (simp_all only: pl_unsealed pl_plan_valid demo_match simp_thms Signature_sealed [OF demo_tokens(1) demo_sign_length])
qed

lemma pl_verified:
  "Verify pl_canon (\<lambda>_. demo_hash) (\<lambda>_ m s. s = demo_sign '''' m)
     (Some (RotatingKeySet_Resolve None [(''k1'', demo_record)])) pl_envelope 5000 = None"
proof -
  have "demo_hash \<noteq> ''''" by (simp add: demo_hash_def)
  moreover have "key_usable demo_record 5000" by code_simp
  ultimately show ?thesis
    unfolding verify_accepts_characterized [OF demo_match]
    by (simp add: pl_valid pl_sealed_by RotatingKeySet_Resolve_def plan_hash_of_def signed_by_def pl_canon_def
        b64_roundtrip zero_Signature_def SignatureEd25519_def)
qed

lemma pl_digest: "TargetDigest (\<lambda>_. demo_hash) pl_envelope = Some demo_hash"
  by (simp add: TargetDigest_def pl_valid)

lemmas pl_plan_fields = pl_envelope_def demo_sealed_def demo_signed_def demo_plan_def

lemma pl_fields:
  "en_WorkspaceID pl_envelope = ''ws-1''" "en_ActionID pl_envelope = ''act-1''" "en_RequestedBy pl_envelope = ''alice''"
  "en_ActionType pl_envelope = ActionKubernetesScale" "en_PolicyVersion pl_envelope = df_Version pl_definition"
  "en_Target pl_envelope = en_Target demo_plan" "en_Parameters pl_envelope = en_Parameters demo_plan"
  "en_ObservedState pl_envelope = en_ObservedState demo_plan" "en_Risk pl_envelope = en_Risk demo_plan"
  "en_CredentialScope pl_envelope = en_CredentialScope demo_plan"
  by (simp_all add: pl_plan_fields)

lemma pl_fresh: "policy_fresh 5000 4000 MaxSafetySnapshotAge" "policy_fresh 5000 4000 MaxTargetSnapshotAge"
  by code_simp+

lemma pl_snapshots:
  "switches_on (pl_deps as) pl_envelope (the (pd_global (pl_deps as))) (the (pd_scoped (pl_deps as)))"
  "target_unchanged (pl_deps as) pl_envelope (the (pd_target (pl_deps as)))"
  "risk_unchanged pl_ext (pl_deps as) pl_envelope (the (pd_risk (pl_deps as)))"
  "limits_unchanged (pl_deps as) pl_envelope (the (pd_limits (pl_deps as)))"
  by (simp_all add: switches_on_def target_unchanged_def risk_unchanged_def limits_unchanged_def pl_deps_def pl_fields
      pl_sealed_by pl_fresh pl_digest pl_ext_def targetMatchesEnvelope_def limitsMatchEnvelope_def)
    (simp_all add: demo_plan_def pl_fields)

lemma pl_approved: "approvals_suffice pl_ext (pl_deps [pl_approval]) pl_envelope 5000"
proof -
  have "validRoles [RoleSRE]" by code_simp
  then have "ballots ApprovalApproved (pl_deps [pl_approval]) pl_envelope demo_hash 5000 ''alice'' 1 [pl_approval] \<noteq> []"
    "ballots ApprovalRejected (pl_deps [pl_approval]) pl_envelope demo_hash 5000 ''alice'' 1 [pl_approval] = []"
    by (simp_all add: eligible_def pl_deps_def pl_principal_def pl_approval_def approvalBindingValid_def pl_fields
        pl_sealed_by)
  then show ?thesis
    by (simp add: approvals_suffice_def pl_ext_def pl_digest pl_deps_def pl_principal_def pl_fields Let_def)
qed

theorem policy_allow_iff_witness:
  "dn_Outcome (fst (evaluate pl_ext (pl_deps [pl_approval]) pl_engine StageCredentialIssue pl_envelope)) = OutcomeAllow"
proof -
  have "permits pl_ext (pl_deps [pl_approval]) pl_engine StageCredentialIssue pl_envelope"
    unfolding permits_def
    using pl_verified pl_snapshots [of "[pl_approval]"] pl_approved
    by (simp add: pl_ext_def pl_deps_def pl_engine_def pl_fields pl_program_def cel_variables_def)
  then show ?thesis by (simp only: policy_allow_iff)
qed

lemma pl_definition_new: "NewDefinition pl_ext ''p'' pl_source = Inr pl_definition"
  by code_simp

lemma pl_engine_new: "NewEngine pl_ext pl_definition True = Inr pl_engine"
  using pl_definition_new
  by (simp add: NewEngine_def pl_definition_def pl_engine_def) (simp add: pl_ext_def)

theorem policy_version_binds_witness:
  "NewEngine pl_ext pl_definition True = Inr pl_engine \<and>
   NewEngine pl_ext (eg_definition pl_engine) True = Inr pl_engine"
  using policy_version_binds [OF pl_engine_new pl_engine_new refl] pl_engine_new by blast

end
