(* ===== verification/Credential_Revocation.thy ===== *)
theory Credential_Revocation
  imports Go_Strings
begin

text \<open>
  The credential-revocation domain of \<^verbatim>\<open>internal/credential/revocation.go\<close>: the
  durations that bound a credential's life, the record of one credential and its statuses, the
  requests, and the validators of their fields. A \<^verbatim>\<open>*SensitiveReference\<close> is the bytes
  it holds (\<open>None\<close> for a nil pointer, the empty string once it is destroyed).
\<close>

section \<open>Durations\<close>

definition MinRevocationClaimLease :: duration where "MinRevocationClaimLease = Second"
definition MaxRevocationClaimLease :: duration where "MaxRevocationClaimLease = 30 * Second"
definition MaxRevocationClaimBatch :: int where "MaxRevocationClaimBatch = 100"
definition MinRevocationRetryDelay :: duration where "MinRevocationRetryDelay = 5 * Second"
definition MaxRevocationRetryDelay :: duration where "MaxRevocationRetryDelay = 15 * Minute"
definition MaxRevocationAttempts :: int where "MaxRevocationAttempts = 12"
definition MaxRevocationElapsed :: duration where "MaxRevocationElapsed = 120 * Minute"
definition ManagedAnchorRecoveryGrace :: duration where "ManagedAnchorRecoveryGrace = 2 * Minute"
definition FailureDetailExhaustedWithoutAck :: string where
  "FailureDetailExhaustedWithoutAck = ''credential.revocation.exhausted_without_ack.v1''"
definition FailureDetailProtectedRefInvalid :: string where
  "FailureDetailProtectedRefInvalid = ''credential.revocation.protected_reference_invalid.v1''"
definition Credential_MaxCredentialTTL :: duration where "Credential_MaxCredentialTTL = 15 * Minute"
definition MinPrepareFenceWindow :: duration where "MinPrepareFenceWindow = Second"
definition MinPostChildFenceWindow :: duration where "MinPostChildFenceWindow = Second"
definition VaultChildCreateServerMaxDuration :: duration where "VaultChildCreateServerMaxDuration = 10 * Second"
definition MaxChildCreateDBCommitLatency :: duration where "MaxChildCreateDBCommitLatency = Second"
definition MaxChildCreateVaultIngressLatency :: duration where "MaxChildCreateVaultIngressLatency = 2 * Second"
definition MaxVaultAheadOfDatabaseClock :: duration where "MaxVaultAheadOfDatabaseClock = Second"
definition VaultTTLQuantum :: duration where "VaultTTLQuantum = Second"
definition ChildCreateExpiryReserve :: duration where
  "ChildCreateExpiryReserve = MaxChildCreateDBCommitLatency + MaxChildCreateVaultIngressLatency +
     VaultChildCreateServerMaxDuration + MaxVaultAheadOfDatabaseClock + VaultTTLQuantum"
definition ChildCreateVaultCallBudget :: duration where
  "ChildCreateVaultCallBudget = MaxChildCreateVaultIngressLatency + VaultChildCreateServerMaxDuration"
definition MinChildCreateTTL :: duration where "MinChildCreateTTL = Second"
definition PreparedRecoveryGrace :: duration where "PreparedRecoveryGrace = Minute"

lemmas credential_durations = MinRevocationClaimLease_def MaxRevocationClaimLease_def
  MaxRevocationClaimBatch_def MinRevocationRetryDelay_def MaxRevocationRetryDelay_def
  MaxRevocationAttempts_def MaxRevocationElapsed_def ManagedAnchorRecoveryGrace_def
  Credential_MaxCredentialTTL_def MinPrepareFenceWindow_def MinPostChildFenceWindow_def
  VaultChildCreateServerMaxDuration_def MaxChildCreateDBCommitLatency_def
  MaxChildCreateVaultIngressLatency_def MaxVaultAheadOfDatabaseClock_def VaultTTLQuantum_def
  ChildCreateExpiryReserve_def ChildCreateVaultCallBudget_def MinChildCreateTTL_def
  PreparedRecoveryGrace_def

text \<open>
  An instant truncated to the microsecond: \<^verbatim>\<open>UnixMicro\<close> rounds towards the past, and the
  Unix epoch lies a whole number of microseconds after Go's zero instant. (Instants whose
  microseconds do not fit 64 bits, some 292000 years away, are outside the model.)
\<close>

definition CanonicalCredentialExpiry :: "time \<Rightarrow> time" where
  "CanonicalCredentialExpiry t = (if IsZero t then 0 else t div 1000 * 1000)"

text \<open>Go's integer division, which truncates towards zero.\<close>

definition go_quot :: "int \<Rightarrow> int \<Rightarrow> int" where
  "go_quot a b = sgn a * sgn b * (\<bar>a\<bar> div \<bar>b\<bar>)"

section \<open>Statuses, failures and errors\<close>

datatype RevocationStatus =
    StatusPrepared | StatusAnchored | StatusActive | StatusRevocationPending | StatusRevoking
  | StatusRevoked | StatusManualRequired | StatusNoCredential | RevocationStatusRaw string

datatype FailureCode =
    FailureIssuerUnavailable | FailureRateLimited | FailureTimeout | FailureAuthentication
  | FailurePermissionDenied | FailureReferenceMissing | FailureInvalidReference | FailureUnknown
  | FailureRaw string

datatype cred_error =
    ErrInvalidRevocationRequest | ErrRevocationNotFound | CredIdempotencyConflict
  | CredInvalidTransition | ErrStaleActionFence | ErrStaleClaim | CredCompletionConflict
  | ErrEvidenceConflict | ErrPlatformAdminRequired | ErrReferenceProtection | ErrRevocationPersistence
  | ErrAtomicActionSourceRequired | ErrChildCreateAlreadyAuthorized | ErrChildCreateWindowExpired
  | ErrStaleChildCreatePermit | CredCtx ctx_error | ActionSourceFailed

section \<open>Fences, actions and requests\<close>

record ActionFence =
  af_ActionID :: string
  af_RunnerID :: string
  af_Token :: string
  af_Epoch :: int

definition zero_ActionFence :: ActionFence where
  "zero_ActionFence = \<lparr>af_ActionID = '''', af_RunnerID = '''', af_Token = '''', af_Epoch = 0\<rparr>"

datatype ActionStatus = ActionStatusQueued | ActionStatusLeased | ActionStatusRunning | ActionStatusRaw string

record ActionMetadata =
  am_ActionID :: string
  am_TenantID :: string
  am_WorkspaceID :: string
  am_EnvironmentID :: string
  am_TargetKey :: string
  am_Production :: bool
  am_RunnerID :: string
  am_LeaseEpoch :: int
  am_Status :: ActionStatus
  am_LeaseExpiresAt :: time
  am_AuthorizationExpiresAt :: time
  am_CancelRequestedAt :: time
  am_RunnerEnabled :: bool
  am_RunnerPool :: string
  am_ScopeRevision :: int
  am_RunnerScopeRevision :: int
  am_ExactScopeAuthorized :: bool
  am_ActionType :: string
  am_ConnectorID :: string
  am_Permission :: string
  am_Resource :: string
  am_CredentialTTLSeconds :: int

record ActionInspection =
  ai_Metadata :: ActionMetadata
  ai_LeaseTokenSHA256 :: string

record PrepareRequest =
  pr_RevocationID :: string
  pr_Fence :: ActionFence
  pr_Issuer :: string
  pr_IssuerRevision :: string
  pr_CredentialExpiresAt :: time

record ChildCreatePermit =
  pm_RevocationID :: string
  pm_Token :: string

record AuthorizeChildCreateRequest =
  ar_Permit :: ChildCreatePermit
  ar_Fence :: ActionFence

record RecordAnchorRequest =
  an_RevocationID :: string
  an_Fence :: ActionFence
  an_Accessor :: "string option"

record ActionTransitionRequest =
  atr_RevocationID :: string
  atr_Fence :: ActionFence

record ClaimRevocationsRequest =
  cr_WorkerID :: string
  cr_Limit :: int
  cr_LeaseDuration :: duration

record ClaimFence =
  cf_RevocationID :: string
  cf_WorkerID :: string
  cf_Token :: string
  cf_Epoch :: int

record CredHeartbeatRequest =
  hb_Fence :: ClaimFence
  hb_Extension :: duration

record RetryRevocationRequest =
  rt_Fence :: ClaimFence
  rt_Delay :: duration
  rt_FailureCode :: FailureCode
  rt_FailureDetail :: string

record RequireManualRequest =
  rm_Fence :: ClaimFence
  rm_FailureCode :: FailureCode
  rm_FailureDetail :: string

record RequeueManualRequest =
  rqm_RevocationID :: string
  rqm_ActorSubject :: string

record ExternalConfirmationRequest =
  ecq_RevocationID :: string
  ecq_Subject :: string
  ecq_EvidenceHash :: string
  ecq_PlatformAdmin :: bool

record ListFilter =
  lfi_WorkspaceID :: string
  lfi_Status :: RevocationStatus
  lfi_Limit :: int

section \<open>The record of one credential\<close>

record Revocation =
  rv_ID :: string
  rv_TenantID :: string
  rv_WorkspaceID :: string
  rv_EnvironmentID :: string
  rv_ActionID :: string
  rv_TargetKey :: string
  rv_Production :: bool
  rv_RunnerID :: string
  rv_ActionLeaseEpoch :: int
  rv_Issuer :: string
  rv_IssuerRevision :: string
  rv_ActionType :: string
  rv_ConnectorID :: string
  rv_Permission :: string
  rv_Resource :: string
  rv_CredentialTTLSeconds :: int
  rv_CredentialExpiresAt :: time
  rv_Status :: RevocationStatus
  rv_AccessorPresent :: bool
  rv_AccessorHMAC :: string
  rv_EncryptionKeyID :: string
  rv_ClaimEpoch :: int
  rv_ClaimedBy :: string
  rv_ClaimedAt :: time
  rv_ClaimExpiresAt :: time
  rv_LastHeartbeatAt :: time
  rv_Attempt :: int
  rv_FailureCount :: int
  rv_FailureCode :: FailureCode
  rv_FailureDetailSHA256 :: string
  rv_AvailableAt :: time
  rv_EvidenceHash :: string
  rv_CreatedAt :: time
  rv_UpdatedAt :: time
  rv_AnchoredAt :: time
  rv_ActivatedAt :: time
  rv_RevocationRequestedAt :: time
  rv_ManualRequiredAt :: time
  rv_RevokedAt :: time
  rv_Version :: int

record PrepareResult =
  prs_Revocation :: Revocation
  prs_Created :: bool
  prs_Permit :: "ChildCreatePermit option"

record ChildCreateAuthorization =
  ca_Revocation :: Revocation
  ca_DatabaseAuthorizedAt :: time
  ca_CredentialExpiresAt :: time
  ca_TTL :: duration
  ca_VaultCallBudget :: duration

record ClaimedRevocation =
  cl_Revocation :: Revocation
  cl_Fence :: ClaimFence
  cl_Accessor :: "string option"

record ExternalConfirmation =
  ec_Subject :: string
  ec_EvidenceHash :: string
  ec_PlatformAdmin :: bool
  ec_CreatedAt :: time

record ConfirmationResult =
  cfr_Revocation :: Revocation
  cfr_Confirmations :: "ExternalConfirmation list"

definition Revocation_Terminal :: "Revocation \<Rightarrow> bool" where
  "Revocation_Terminal v \<longleftrightarrow> rv_Status v = StatusRevoked \<or> rv_Status v = StatusNoCredential"

text \<open>
  What the execution service hands to the durable broker and gets from it. A prepared credential
  is its id and the address of its state.
\<close>

record DurableIssuerResolveRequest =
  ir_TenantID :: string
  ir_WorkspaceID :: string
  ir_EnvironmentID :: string
  ir_Production :: bool
  ir_ActionType :: string
  ir_ConnectorID :: string
  ir_Permission :: string
  ir_Resource :: string

record PrepareDurableCredentialRequest =
  pq_Fence :: ActionFence
  pq_Selection :: DurableIssuerResolveRequest
  pq_RequestedTTL :: duration
  pq_PolicyExpiresAt :: time

record PreparedDurableCredential =
  pc_revocationID :: string
  pc_state :: nat

section \<open>Validators\<close>

fun ValidRevocationStatus :: "RevocationStatus \<Rightarrow> bool" where
  "ValidRevocationStatus (RevocationStatusRaw _) = False"
| "ValidRevocationStatus _ = True"

fun ValidFailureCode :: "FailureCode \<Rightarrow> bool" where
  "ValidFailureCode (FailureRaw _) = False"
| "ValidFailureCode _ = True"

definition uuidPattern :: "string \<Rightarrow> bool" where
  "uuidPattern s \<longleftrightarrow> length s = 36 \<and>
     list_all (\<lambda>i. if i \<in> {8, 13, 18, 23} then s ! i = CHR ''-'' else is_hex (s ! i)) [0..<36] \<and>
     in_range CHR ''1'' (s ! 14) CHR ''5'' \<and> s ! 19 \<in> set ''89ab''"

definition ValidRevocationID :: "string \<Rightarrow> bool" where "ValidRevocationID s = uuidPattern s"

definition ValidIdentifier :: "string \<Rightarrow> nat \<Rightarrow> bool" where
  "ValidIdentifier value maximum \<longleftrightarrow> 1 \<le> length value \<and> length value \<le> maximum \<and> match_identifier value"

definition ValidOpaqueText :: "string \<Rightarrow> nat \<Rightarrow> bool" where
  "ValidOpaqueText value maximum \<longleftrightarrow> value \<noteq> '''' \<and> length value \<le> maximum \<and> is_trimmed value \<and>
     \<not> contains_control value"

definition ValidSHA256 :: "string \<Rightarrow> bool" where "ValidSHA256 s = match_hex 64 s"

definition Credential_validActionFence :: "ActionFence \<Rightarrow> bool" where
  "Credential_validActionFence f \<longleftrightarrow> ValidIdentifier (af_ActionID f) 256 \<and> ValidIdentifier (af_RunnerID f) 256 \<and>
     ValidOpaqueText (af_Token f) 4096 \<and> 0 < af_Epoch f"

definition validClaimFence :: "ClaimFence \<Rightarrow> bool" where
  "validClaimFence f \<longleftrightarrow> ValidRevocationID (cf_RevocationID f) \<and> ValidIdentifier (cf_WorkerID f) 256 \<and>
     ValidOpaqueText (cf_Token f) 4096 \<and> 0 < cf_Epoch f"

definition validClaimDuration :: "duration \<Rightarrow> bool" where
  "validClaimDuration d \<longleftrightarrow> MinRevocationClaimLease \<le> d \<and> d \<le> MaxRevocationClaimLease"

definition validFailure :: "FailureCode \<Rightarrow> string \<Rightarrow> bool" where
  "validFailure code detail \<longleftrightarrow> ValidFailureCode code \<and> 0 < length detail \<and> length detail \<le> 1048576"

definition validSubject :: "string \<Rightarrow> bool" where
  "validSubject s \<longleftrightarrow> length ''oidc:'' < length s \<and> take 5 s = ''oidc:'' \<and> ValidOpaqueText s 512"

definition ValidSensitiveReference :: "string option \<Rightarrow> bool" where
  "ValidSensitiveReference r = (case r of None \<Rightarrow> False | Some value \<Rightarrow> 0 < length value)"

definition redactedRevocation :: "Revocation \<Rightarrow> Revocation" where
  "redactedRevocation v = v"

text \<open>An identifier holds no NUL byte, so joining one to a number with NUL is unambiguous.\<close>

lemma ValidIdentifier_no_nul: "ValidIdentifier s n \<Longrightarrow> CHR 0x00 \<notin> set s"
  using match_identifier_no_nul by (simp add: ValidIdentifier_def)

lemma CanonicalCredentialExpiry_le: "CanonicalCredentialExpiry t \<le> t"
proof -
  have "t div 1000 * 1000 = t - t mod 1000" by (rule minus_mod_eq_div_mult [symmetric])
  moreover have "0 \<le> t mod 1000" by simp
  ultimately have "t div 1000 * 1000 \<le> t" by linarith
  then show ?thesis by (simp only: CanonicalCredentialExpiry_def split: if_split) simp
qed

lemma CanonicalCredentialExpiry_idem: "CanonicalCredentialExpiry (CanonicalCredentialExpiry t) = CanonicalCredentialExpiry t"
  by (simp add: CanonicalCredentialExpiry_def)

lemma CanonicalCredentialExpiry_mono: "s \<le> t \<Longrightarrow> s \<noteq> 0 \<Longrightarrow> t \<noteq> 0 \<Longrightarrow> CanonicalCredentialExpiry s \<le> CanonicalCredentialExpiry t"
  by (simp add: CanonicalCredentialExpiry_def zdiv_mono1)

lemma go_quot_pos: "0 \<le> a \<Longrightarrow> 0 < b \<Longrightarrow> go_quot a b = a div b"
  by (auto simp: go_quot_def sgn_if)

lemma go_quot_neg: "a < 0 \<Longrightarrow> 0 < b \<Longrightarrow> go_quot a b \<le> 0"
  by (simp add: go_quot_def sgn_if pos_imp_zdiv_nonneg_iff)

end
