(* ===== verification/Execution_Service.thy ===== *)
theory Execution_Service
  imports Action_Queue Policy_Engine Credential_Revocation "HOL-Library.State_Monad"
begin

text \<open>
  The write-execution service of \<^verbatim>\<open>internal/execution/service.go\<close>: \<open>Submit\<close> and \<open>RunNext\<close>,
  which takes one action from the queue through every safety gate, the durable credential, the
  typed executor, the receipt and the clean-up, with the heartbeat session that supervises it.

  The service keeps no state of its own; what matters is which calls it makes in which order. A
  run is a state-monad program over the list of calls made so far, each with the answer it got.
  The dependencies are the fields of \<open>service_env\<close>: each answers as a function of all the calls
  before, so they may have any state of their own and change it at will. Errors whose value the
  code never inspects are \<open>None\<close>.

  The heartbeat session runs in a goroutine of its own. Its mutex makes a checkpoint atomic against
  the foreground's own checkpoint and the dispatch; the model also takes a background checkpoint
  as atomic against the other foreground calls, and lets \<open>ve_beats\<close> of them happen between any two.
  The branch a \<^verbatim>\<open>select\<close> takes is an answer of the environment too.
\<close>

section \<open>Data\<close>

definition MaxEnvironmentSnapshotAge :: duration where "MaxEnvironmentSnapshotAge = 15 * Second"
definition Service_MaxSafetySnapshotAge :: duration where "Service_MaxSafetySnapshotAge = 5 * Second"
definition MaxPreExecutionDecisionAge :: duration where "MaxPreExecutionDecisionAge = 5 * Second"
definition maximumClockSkew :: duration where "maximumClockSkew = Second"
definition maximumLease :: duration where "maximumLease = 30 * Minute"
definition maximumFinalize :: duration where "maximumFinalize = 30 * Second"
definition MaxSensitiveValueSize :: nat where "MaxSensitiveValueSize = 65536"

record EnvironmentSnapshot =
  es_WorkspaceID :: string
  es_EnvironmentID :: string
  es_Production :: bool
  es_Revision :: string
  es_ObservedAt :: time

datatype SafetyPhase = SafetyPhaseClaim | SafetyPhaseStart

record SafetyRequest =
  sq_Phase :: SafetyPhase
  sq_Pool :: Pool
  sq_RunnerID :: string
  sq_WorkspaceID :: string
  sq_EnvironmentID :: string
  sq_ConnectorID :: string
  sq_ActionType :: ActionType

record ClaimSafetySnapshot =
  cy_Enabled :: bool
  cy_Pool :: Pool
  cy_RunnerID :: string
  cy_WorkspaceID :: string
  cy_EnvironmentID :: string
  cy_ConnectorID :: string
  cy_ActionType :: ActionType
  cy_Revision :: string
  cy_ObservedAt :: time

record CommandIdentity =
  id_ActionID :: string
  id_WorkspaceID :: string
  id_IncidentID :: string
  id_ServiceID :: string
  id_EnvironmentID :: string
  id_TraceID :: string

record KubernetesRolloutRestartCommand =
  kr_Identity :: CommandIdentity
  kr_Target :: KubernetesDeploymentTarget
  kr_Parameters :: KubernetesRolloutRestartParameters
  kr_ObservedState :: KubernetesDeploymentObservedState
  kr_Preconditions :: Preconditions
  kr_Verification :: VerificationPlan

record KubernetesScaleCommand =
  kc_Identity :: CommandIdentity
  kc_Target :: KubernetesDeploymentTarget
  kc_Parameters :: KubernetesScaleParameters
  kc_ObservedState :: KubernetesDeploymentObservedState
  kc_Preconditions :: Preconditions
  kc_Verification :: VerificationPlan

record GitOpsRevertCommand =
  gr_Identity :: CommandIdentity
  gr_Target :: GitOpsTarget
  gr_Parameters :: GitOpsRevertParameters
  gr_ObservedState :: GitOpsObservedState
  gr_Preconditions :: Preconditions
  gr_Verification :: VerificationPlan

record AWXServiceRestartCommand =
  aw_Identity :: CommandIdentity
  aw_Target :: AWXTarget
  aw_Parameters :: AWXServiceRestartParameters
  aw_ObservedState :: AWXServiceObservedState
  aw_Preconditions :: Preconditions
  aw_Verification :: VerificationPlan

datatype command =
    ExecuteRolloutRestart KubernetesRolloutRestartCommand
  | ExecuteScale KubernetesScaleCommand
  | ExecuteGitOpsRevert GitOpsRevertCommand
  | ExecuteAWXServiceRestart AWXServiceRestartCommand

text \<open>
  An issued credential of durable_broker.go as far as the service reads it: the bytes and the
  expiry its state holds.
\<close>

record DurableCredential =
  dc_revocationID :: string
  dc_secret :: string
  dc_expiresAt :: time

record Options =
  op_RunnerID :: string
  op_LeaseDuration :: duration
  op_HeartbeatInterval :: duration
  op_FinalizeTimeout :: duration

record Service =
  sv_runnerID :: string
  sv_leaseDuration :: duration
  sv_heartbeatInterval :: duration
  sv_finalizeTimeout :: duration

text \<open>The calls a run makes and their answers; the last few are steps of the run itself.\<close>

datatype svc_error = Exec exec_error | SvcCtx ctx_error | SvcClockZero | BrokerErr | ExecutorErr | InvalidTarget

datatype dispatch_end = ExecutorDone "ExecutorResult option" | HeartbeatsDone | ContextDone

datatype event =
    Clock time
  | LocalClock time
  | CtxErr "ctx_error option"
  | Registered "RunnerRegistration option"
  | Safety SafetyRequest "ClaimSafetySnapshot option"
  | Environment string string "EnvironmentSnapshot option"
  | Verified Envelope time "action_error option"
  | Decided Stage "Decision option"
  | Claimed ActionClaimRequest "exec_error + ClaimedAction"
  | Submitted ActionSubmission "exec_error + Execution"
  | Rejected ActionRejectRequest "exec_error + Execution"
  | Nacked ActionNackRequest "exec_error + Execution"
  | Prepared PrepareDurableCredentialRequest "PreparedDurableCredential option"
  | NoCredential PreparedDurableCredential "Revocation option"
  | Started LeaseIdentity "exec_error + Execution"
  | Beat ActionHeartbeatRequest "exec_error + ActionHeartbeatResult"
  | CancelExecution
  | Issued PreparedDurableCredential "DurableCredential option"
  | Dispatched command DurableCredential
  | Ended dispatch_end
  | Completed ActionCompleteRequest "exec_error + Execution"
  | Revoking DurableCredential "Revocation option"
  | Finalized LeaseIdentity "exec_error + Execution"

type_synonym history = "event list"

record service_env =
  ve_clock :: "history \<Rightarrow> time"
  ve_local :: "history \<Rightarrow> time"
  ve_ctx :: "history \<Rightarrow> ctx_error option"
  ve_deadline :: "time option"
  ve_keys :: "history \<Rightarrow> string \<Rightarrow> action_error + KeyRecord"
  ve_registration :: "history \<Rightarrow> RunnerRegistration option"
  ve_safety :: "SafetyRequest \<Rightarrow> history \<Rightarrow> ClaimSafetySnapshot option"
  ve_environment :: "history \<Rightarrow> EnvironmentSnapshot option"
  ve_decision :: "Stage \<Rightarrow> history \<Rightarrow> Decision option"
  ve_claim :: "ActionClaimRequest \<Rightarrow> history \<Rightarrow> exec_error + ClaimedAction"
  ve_submit :: "ActionSubmission \<Rightarrow> history \<Rightarrow> exec_error + Execution"
  ve_reject :: "ActionRejectRequest \<Rightarrow> history \<Rightarrow> exec_error + Execution"
  ve_nack :: "ActionNackRequest \<Rightarrow> history \<Rightarrow> exec_error + Execution"
  ve_start :: "LeaseIdentity \<Rightarrow> history \<Rightarrow> exec_error + Execution"
  ve_heartbeat :: "ActionHeartbeatRequest \<Rightarrow> history \<Rightarrow> exec_error + ActionHeartbeatResult"
  ve_complete :: "ActionCompleteRequest \<Rightarrow> history \<Rightarrow> exec_error + Execution"
  ve_finalize :: "LeaseIdentity \<Rightarrow> history \<Rightarrow> exec_error + Execution"
  ve_prepare :: "PrepareDurableCredentialRequest \<Rightarrow> history \<Rightarrow> PreparedDurableCredential option"
  ve_issue :: "PreparedDurableCredential \<Rightarrow> history \<Rightarrow> DurableCredential option"
  ve_no_credential :: "PreparedDurableCredential \<Rightarrow> history \<Rightarrow> Revocation option"
  ve_revoke :: "DurableCredential \<Rightarrow> history \<Rightarrow> Revocation option"
  ve_select :: "history \<Rightarrow> dispatch_end"
  ve_beats :: "history \<Rightarrow> nat"

record service_ext =
  vx_canon :: "Envelope \<Rightarrow> string option"
  vx_sha :: "string \<Rightarrow> string"
  vx_edverify :: "string \<Rightarrow> string \<Rightarrow> string \<Rightarrow> bool"

text \<open>The run so far, with the fields of \<^verbatim>\<open>actionHeartbeatSession\<close> that change.\<close>

record run_log =
  rn_log :: history
  rn_failure :: "svc_error option"
  rn_completeAcked :: bool
  rn_nextSequence :: int
  rn_done :: bool

type_synonym 'a run = "(run_log, 'a) state"

definition ask :: "(history \<Rightarrow> 'a) \<Rightarrow> ('a \<Rightarrow> event) \<Rightarrow> 'a run" where
  "ask answer call = State (\<lambda>s. let a = answer (rn_log s) in (a, s\<lparr>rn_log := rn_log s @ [call a]\<rparr>))"

definition new_run :: run_log where
  "new_run = \<lparr>rn_log = [], rn_failure = None, rn_completeAcked = False, rn_nextSequence = 0, rn_done = False\<rparr>"

abbreviation ret :: "'a \<Rightarrow> 'a run" where "ret \<equiv> State_Monad.return"

section \<open>Validation\<close>

definition NewService :: "bool \<Rightarrow> Options \<Rightarrow> time \<Rightarrow> string + Service" where
  "NewService dependencies options clock =
     (if \<not> dependencies then Inl ''all execution trust and typed executor dependencies are required''
      else if \<not> validIdentifier (op_RunnerID options) 256 \<or> op_LeaseDuration options < minimumActionLease \<or>
         maximumLease < op_LeaseDuration options
      then Inl ''enabled write runner registration with exact scope bindings and bounded lease duration is required''
      else let finalize = (if op_FinalizeTimeout options = 0 then 5 * Second else op_FinalizeTimeout options) in
      if finalize < 0 \<or> maximumFinalize < finalize then Inl ''finalize timeout must be at most 30 seconds''
      else let interval = (if op_HeartbeatInterval options = 0 then op_LeaseDuration options div 3
             else op_HeartbeatInterval options) in
      if interval \<le> 0 \<or> op_LeaseDuration options div 3 < interval
      then Inl ''heartbeat interval must be positive and at most one third of the lease duration''
      else if IsZero clock then Inl ''execution clock returned zero time''
      else Inr \<lparr>sv_runnerID = op_RunnerID options, sv_leaseDuration = op_LeaseDuration options,
             sv_heartbeatInterval = interval, sv_finalizeTimeout = finalize\<rparr>)"

definition service_fresh :: "time \<Rightarrow> time \<Rightarrow> duration \<Rightarrow> bool" where
  "service_fresh t observedAt maximumAge \<longleftrightarrow>
     \<not> IsZero observedAt \<and> \<not> After observedAt (t + maximumClockSkew) \<and> time_Sub t observedAt \<le> maximumAge"

definition validCredentialIssueDecision :: "Decision \<Rightarrow> Envelope \<Rightarrow> time \<Rightarrow> bool" where
  "validCredentialIssueDecision d e t \<longleftrightarrow>
     (let requestedTTL = cs_TTLSeconds (en_CredentialScope e) * Second;
          deadline = dn_EvaluatedAt d + requestedTTL;
          signedCredentialDeadline =
            (if Before (zt_instant (en_ExpiresAt e)) deadline then zt_instant (en_ExpiresAt e) else deadline) in
      dn_Outcome d = OutcomeAllow \<and> dn_Stage d = StageCredentialIssue \<and>
      dn_PolicyVersion d = en_PolicyVersion e \<and> dn_PlanHash d = en_PlanHash e \<and>
      dn_SafetyRevision d \<noteq> '''' \<and> dn_TargetRevision d \<noteq> '''' \<and> dn_RiskRevision d \<noteq> '''' \<and>
      dn_LimitsRevision d \<noteq> '''' \<and> \<not> IsZero (dn_EvaluatedAt d) \<and>
      \<not> After (dn_EvaluatedAt d) (t + maximumClockSkew) \<and>
      time_Sub t (dn_EvaluatedAt d) \<le> MaxPreExecutionDecisionAge \<and>
      After (dn_CredentialExpiresAt d) t \<and> \<not> After (dn_CredentialExpiresAt d) signedCredentialDeadline)"

definition samePolicySnapshot :: "Decision \<Rightarrow> Decision \<Rightarrow> bool" where
  "samePolicySnapshot a b \<longleftrightarrow>
     dn_PolicyVersion a = dn_PolicyVersion b \<and> dn_PlanHash a = dn_PlanHash b \<and>
     dn_SafetyRevision a = dn_SafetyRevision b \<and> dn_TargetRevision a = dn_TargetRevision b \<and>
     dn_RiskRevision a = dn_RiskRevision b \<and> dn_LimitsRevision a = dn_LimitsRevision b"

definition validPreExecutionDecision :: "Decision \<Rightarrow> Envelope \<Rightarrow> time \<Rightarrow> bool" where
  "validPreExecutionDecision d e t \<longleftrightarrow>
     dn_Outcome d = OutcomeAllow \<and> dn_Stage d = StagePreExecution \<and>
     dn_PolicyVersion d = en_PolicyVersion e \<and> dn_PlanHash d = en_PlanHash e \<and>
     dn_SafetyRevision d \<noteq> '''' \<and> dn_TargetRevision d \<noteq> '''' \<and> dn_RiskRevision d \<noteq> '''' \<and>
     dn_LimitsRevision d \<noteq> '''' \<and> \<not> IsZero (dn_EvaluatedAt d) \<and>
     \<not> After (dn_EvaluatedAt d) (t + maximumClockSkew) \<and>
     time_Sub t (dn_EvaluatedAt d) \<le> MaxPreExecutionDecisionAge \<and> ValidateAt e t = None"

definition boundedExecutionDeadline :: "time option \<Rightarrow> Envelope \<Rightarrow> time \<Rightarrow> time \<Rightarrow> time option" where
  "boundedExecutionDeadline contextDeadline e credentialExpiresAt t =
     (let earlier = (\<lambda>deadline candidate. if Before candidate deadline then candidate else deadline);
          timeout = t + vp_TimeoutSeconds (en_Verification e) * Second;
          deadline = foldl earlier timeout [zt_instant (en_ExpiresAt e), credentialExpiresAt];
          bounded = (case contextDeadline of None \<Rightarrow> deadline | Some c \<Rightarrow> earlier deadline c) in
      if \<not> After bounded t then None else Some bounded)"

definition mappedExecutionDeadline :: "time \<Rightarrow> time \<Rightarrow> time \<Rightarrow> time option" where
  "mappedExecutionDeadline deadline logicalObservedAt localObservedAt =
     (if IsZero deadline \<or> IsZero logicalObservedAt \<or> IsZero localObservedAt then None
      else let remaining = time_Sub deadline logicalObservedAt in
      if remaining \<le> 0 then None else Some (localObservedAt + remaining))"

definition validDurableCredential :: "DurableCredential \<Rightarrow> Envelope \<Rightarrow> time \<Rightarrow> time \<Rightarrow> bool" where
  "validDurableCredential c e policyExpiresAt t \<longleftrightarrow>
     ValidRevocationID (dc_revocationID c) \<and> 0 < length (dc_secret c) \<and> length (dc_secret c) \<le> MaxSensitiveValueSize \<and>
     After (dc_expiresAt c) t \<and> \<not> After (dc_expiresAt c) policyExpiresAt \<and>
     \<not> After (dc_expiresAt c) (zt_instant (en_ExpiresAt e))"

definition zero_ExecutorResult :: ExecutorResult where
  "zero_ExecutorResult = \<lparr>er_Outcome = ExecutorRaw '''', er_Code = '''', er_Verification = VerificationRaw '''',
     er_Changed = False, er_ExternalOperationRefHash = ''''\<rparr>"

definition unknown_result :: "string \<Rightarrow> ExecutorResult" where
  "unknown_result code = \<lparr>er_Outcome = ExecutorUncertain, er_Code = code, er_Verification = VerificationUnknown,
     er_Changed = False, er_ExternalOperationRefHash = ''''\<rparr>"

definition classifyResult :: "ExecutorResult \<Rightarrow> svc_error list \<Rightarrow> Status \<times> ExecutorResult" where
  "classifyResult result executorErr =
     (if executorErr \<noteq> [] then (StatusUncertain, unknown_result ''EXECUTOR_OUTCOME_UNKNOWN'')
      else if \<not> validExecutorResult result then (StatusUncertain, unknown_result ''INVALID_EXECUTOR_RESULT'')
      else case er_Outcome result of
        ExecutorSucceeded \<Rightarrow> (StatusSucceeded, result)
      | ExecutorFailed \<Rightarrow> (StatusFailed, result)
      | _ \<Rightarrow> (StatusUncertain, result))"

definition queueReason :: "service_ext \<Rightarrow> string \<Rightarrow> ActionQueueReason" where
  "queueReason x code = \<lparr>qr_Code = code,
     qr_DetailHash = vx_sha x (''aiops-action-queue-reason-detail.v1'' @ CHR 0x00 # code)\<rparr>"

section \<open>The target key\<close>

definition target_kind :: "Envelope \<Rightarrow> string option" where
  "target_kind e = (case en_ActionType e of
       ActionKubernetesRolloutRestart \<Rightarrow> Some ''k8s-deployment''
     | ActionKubernetesScale \<Rightarrow> Some ''k8s-deployment''
     | ActionGitOpsRevert \<Rightarrow> Some ''gitops-application-path''
     | ActionAWXServiceRestart \<Rightarrow> Some ''awx-inventory''
     | ActionRaw _ \<Rightarrow> None)"

text \<open>
  The fields of the anonymous identity struct, in order, with their JSON values. \<open>None\<close> is the nil
  pointer a validated envelope never has.
\<close>

definition target_identity :: "Envelope \<Rightarrow> (string \<times> string) list option" where
  "target_identity e =
     (let scope = [(''WorkspaceID'', json_string (en_WorkspaceID e)),
                   (''EnvironmentID'', json_string (tr_EnvironmentID (en_Target e)))];
          deployment = map_option (\<lambda>t. scope @ [(''ClusterID'', json_string (kt_ClusterID t)),
            (''Namespace'', json_string (kt_Namespace t)), (''Name'', json_string (kt_Name t)),
            (''UID'', json_string (kt_UID t))]) (tr_KubernetesDeployment (en_Target e)) in
      case en_ActionType e of
        ActionKubernetesRolloutRestart \<Rightarrow> deployment
      | ActionKubernetesScale \<Rightarrow> deployment
      | ActionGitOpsRevert \<Rightarrow> map_option (\<lambda>t. scope @ [(''RepositoryID'', json_string (gt_RepositoryID t)),
            (''Application'', json_string (gt_Application t)), (''Path'', json_string (gt_Path t))])
            (tr_GitOpsApplication (en_Target e))
      | ActionAWXServiceRestart \<Rightarrow> map_option (\<lambda>t. scope @ [(''InventoryID'', FormatInt (at_InventoryID t))])
            (tr_AWXHosts (en_Target e))
      | ActionRaw _ \<Rightarrow> None)"

definition deriveTargetKey :: "service_ext \<Rightarrow> Envelope \<Rightarrow> string option" where
  "deriveTargetKey x e =
     (case Validate e of Some _ \<Rightarrow> None | None \<Rightarrow>
      case target_kind e of None \<Rightarrow> None | Some kind \<Rightarrow>
      case target_identity e of None \<Rightarrow> None | Some identity \<Rightarrow>
      Some (kind @ '':sha256:'' @
        vx_sha x (''aiops-target-lock.v1'' @ CHR 0x00 # kind @ CHR 0x00 # json_object identity)))"

section \<open>Trusted reads\<close>

definition service_now :: "service_env \<Rightarrow> (svc_error + time) run" where
  "service_now v = do {
     t \<leftarrow> ask (ve_clock v) Clock;
     ret (if IsZero t then Inl SvcClockZero else Inr t) }"

definition resolveRunnerScope :: "service_env \<Rightarrow> Service \<Rightarrow> RunnerScope option run" where
  "resolveRunnerScope v sv = do {
     registration \<leftarrow> ask (ve_registration v) Registered;
     ret (case registration of None \<Rightarrow> None | Some r \<Rightarrow>
       (case Scope r of Inl _ \<Rightarrow> None | Inr scope \<Rightarrow>
          if rs_pool scope \<noteq> PoolWrite \<or> rs_runnerID scope \<noteq> sv_runnerID sv then None else Some scope)) }"

definition safety_holds :: "SafetyRequest \<Rightarrow> ClaimSafetySnapshot \<Rightarrow> time \<Rightarrow> bool" where
  "safety_holds request snapshot t \<longleftrightarrow>
     \<not> (\<not> cy_Enabled snapshot \<or> \<not> validIdentifier (cy_Revision snapshot) 256 \<or>
        \<not> service_fresh t (cy_ObservedAt snapshot) Service_MaxSafetySnapshotAge \<or>
        cy_Pool snapshot \<noteq> sq_Pool request \<or> cy_RunnerID snapshot \<noteq> sq_RunnerID request) \<and>
     (if sq_Phase request = SafetyPhaseClaim
      then \<not> (cy_WorkspaceID snapshot \<noteq> '''' \<or> cy_EnvironmentID snapshot \<noteq> '''' \<or>
              cy_ConnectorID snapshot \<noteq> '''' \<or> cy_ActionType snapshot \<noteq> ActionRaw '''')
      else \<not> (cy_WorkspaceID snapshot \<noteq> sq_WorkspaceID request \<or> cy_EnvironmentID snapshot \<noteq> sq_EnvironmentID request \<or>
              cy_ConnectorID snapshot \<noteq> sq_ConnectorID request \<or> cy_ActionType snapshot \<noteq> sq_ActionType request))"

text \<open>Every failure is \<open>ErrClaimsDisabled\<close>, here \<open>None\<close>.\<close>

definition checkSafety :: "service_env \<Rightarrow> SafetyRequest \<Rightarrow> ClaimSafetySnapshot option run" where
  "checkSafety v request = do {
     answer \<leftarrow> ask (ve_safety v request) (Safety request);
     case answer of None \<Rightarrow> ret None | Some snapshot \<Rightarrow> do {
       now \<leftarrow> service_now v;
       ret (case now of Inl _ \<Rightarrow> None | Inr t \<Rightarrow> if safety_holds request snapshot t then Some snapshot else None) } }"

definition environment_holds :: "Envelope \<Rightarrow> EnvironmentSnapshot \<Rightarrow> time \<Rightarrow> bool" where
  "environment_holds e snapshot t \<longleftrightarrow>
     \<not> (es_WorkspaceID snapshot \<noteq> en_WorkspaceID e \<or> es_EnvironmentID snapshot \<noteq> tr_EnvironmentID (en_Target e) \<or>
        \<not> validIdentifier (es_Revision snapshot) 256 \<or>
        \<not> service_fresh t (es_ObservedAt snapshot) MaxEnvironmentSnapshotAge)"

text \<open>Every failure is \<open>ErrEnvironmentUnavailable\<close>, here \<open>None\<close>.\<close>

definition resolveEnvironment :: "service_env \<Rightarrow> Envelope \<Rightarrow> EnvironmentSnapshot option run" where
  "resolveEnvironment v e = do {
     answer \<leftarrow> ask (ve_environment v) (Environment (en_WorkspaceID e) (tr_EnvironmentID (en_Target e)));
     case answer of None \<Rightarrow> ret None | Some snapshot \<Rightarrow> do {
       now \<leftarrow> service_now v;
       ret (case now of Inl _ \<Rightarrow> None | Inr t \<Rightarrow> if environment_holds e snapshot t then Some snapshot else None) } }"

definition verify_envelope :: "service_ext \<Rightarrow> service_env \<Rightarrow> Envelope \<Rightarrow> time \<Rightarrow> action_error option run" where
  "verify_envelope x v e t =
     ask (\<lambda>h. Verify (vx_canon x) (vx_sha x) (vx_edverify x) (Some (ve_keys v h)) e t) (Verified e t)"

section \<open>Submission\<close>

definition Submit :: "service_ext \<Rightarrow> service_env \<Rightarrow> Service \<Rightarrow> Envelope \<Rightarrow> (svc_error + Execution) run" where
  "Submit x v sv e = do {
     cancelled \<leftarrow> ask (ve_ctx v) CtxErr;
     case cancelled of Some c \<Rightarrow> ret (Inl (SvcCtx c)) | None \<Rightarrow> do {
     now \<leftarrow> service_now v;
     case now of Inl err \<Rightarrow> ret (Inl err) | Inr t \<Rightarrow> do {
     invalid \<leftarrow> verify_envelope x v e t;
     case invalid of Some err \<Rightarrow> ret (Inl (Exec (ErrInvalidAction err))) | None \<Rightarrow> do {
     runnerScope \<leftarrow> resolveRunnerScope v sv;
     case runnerScope of None \<Rightarrow> ret (Inl (Exec ErrClaimsDisabled)) | Some scope \<Rightarrow>
     if \<not> allows scope (en_WorkspaceID e) (tr_EnvironmentID (en_Target e))
     then ret (Inl (Exec ErrEnvironmentNotAllowed))
     else do {
     environment \<leftarrow> resolveEnvironment v e;
     case environment of None \<Rightarrow> ret (Inl (Exec ErrEnvironmentUnavailable)) | Some snapshot \<Rightarrow>
     case deriveTargetKey x e of None \<Rightarrow> ret (Inl InvalidTarget)
     | Some targetKey \<Rightarrow> do {
     submitted \<leftarrow>
       (let submission = \<lparr>as_Envelope = e, as_PlanHash = en_PlanHash e, as_TargetKey = targetKey,
              as_EnvironmentRevision = es_Revision snapshot, as_Production = es_Production snapshot,
              as_Pool = PoolWrite\<rparr> in ask (ve_submit v submission) (Submitted submission));
     ret (case submitted of Inl err \<Rightarrow> Inl (Exec err) | Inr ex \<Rightarrow> Inr ex) } } } } } }"

section \<open>Giving an action back\<close>

definition rejectClaim ::
  "service_ext \<Rightarrow> service_env \<Rightarrow> ClaimedAction \<Rightarrow> string \<Rightarrow> svc_error \<Rightarrow> (Execution \<times> svc_error list) run" where
  "rejectClaim x v claimed code cause = do {
     rejected \<leftarrow>
       (let request = \<lparr>rj_Lease = Fence (ca_Execution claimed), rj_Reason = queueReason x code\<rparr>
        in ask (ve_reject v request) (Rejected request));
     ret (case rejected of Inl err \<Rightarrow> (redactActionExecution (ca_Execution claimed), [Exec err])
          | Inr ex \<Rightarrow> (ex, [cause])) }"

definition nackClaim ::
  "service_ext \<Rightarrow> service_env \<Rightarrow> ClaimedAction \<Rightarrow> string \<Rightarrow> svc_error \<Rightarrow> (Execution \<times> svc_error list) run" where
  "nackClaim x v claimed code cause = do {
     released \<leftarrow>
       (let request = \<lparr>nk_Lease = Fence (ca_Execution claimed), nk_Reason = queueReason x code,
              nk_RetryAfter = 15 * Second\<rparr>
        in ask (ve_nack v request) (Nacked request));
     ret (case released of Inl err \<Rightarrow> (redactActionExecution (ca_Execution claimed), [Exec err])
          | Inr ex \<Rightarrow> (ex, [cause])) }"

definition recordNoCredential :: "service_env \<Rightarrow> PreparedDurableCredential \<Rightarrow> svc_error list run" where
  "recordNoCredential v prepared = do {
     answer \<leftarrow> ask (ve_no_credential v prepared) (NoCredential prepared);
     ret (case answer of None \<Rightarrow> [BrokerErr] | Some revocation \<Rightarrow>
       if rv_Status revocation \<noteq> StatusNoCredential \<or> \<not> Revocation_Terminal revocation
       then [Exec ErrCredentialCleanupPending] else []) }"

section \<open>Heartbeats\<close>

text \<open>The answer \<open>heartbeatOnce\<close> accepts.\<close>

definition beat_accepted :: "RunnerScope \<Rightarrow> LeaseIdentity \<Rightarrow> exec_error + ActionHeartbeatResult \<Rightarrow> bool" where
  "beat_accepted claimedScope lease answer =
     (case answer of Inl _ \<Rightarrow> False | Inr response \<Rightarrow>
        \<not> (ahr_Directive response \<noteq> HeartbeatContinue \<or>
           ex_ExecutionID (ahr_Execution response) \<noteq> li_ExecutionID lease \<or>
           ex_RunnerID (ahr_Execution response) \<noteq> li_RunnerID lease \<or>
           ex_LeaseEpoch (ahr_Execution response) \<noteq> li_Epoch lease \<or>
           ex_ScopeRevision (ahr_Execution response) \<noteq> rs_scopeRevision claimedScope \<or>
           ex_Status (ahr_Execution response) \<noteq> StatusRunning))"

definition heartbeatOnce ::
  "service_env \<Rightarrow> Service \<Rightarrow> RunnerScope \<Rightarrow> LeaseIdentity \<Rightarrow> int \<Rightarrow> svc_error option run" where
  "heartbeatOnce v sv claimedScope lease sequence = do {
     current \<leftarrow> resolveRunnerScope v sv;
     case current of
       None \<Rightarrow> do {
         cancelled \<leftarrow> ask (ve_ctx v) CtxErr;
         ret (case cancelled of Some c \<Rightarrow> Some (SvcCtx c) | None \<Rightarrow> Some (Exec ErrExecutionUncertain)) }
     | Some scope \<Rightarrow>
       if rs_runnerID scope \<noteq> rs_runnerID claimedScope \<or> rs_tenantID scope \<noteq> rs_tenantID claimedScope \<or>
          rs_pool scope \<noteq> rs_pool claimedScope \<or> rs_scopeRevision scope \<noteq> rs_scopeRevision claimedScope
       then ret (Some (Exec ErrExecutionUncertain))
       else do {
         answer \<leftarrow>
           (let request = \<lparr>ah_Lease = lease, ah_Sequence = sequence, ah_Extension = sv_leaseDuration sv\<rparr>
            in ask (ve_heartbeat v request) (Beat request));
         ret (case answer of Inl err \<Rightarrow> Some (Exec err)
              | Inr _ \<Rightarrow> if beat_accepted claimedScope lease answer then None else Some (Exec ErrExecutionUncertain)) } }"

definition startHeartbeatSession :: "int \<Rightarrow> unit run" where
  "startHeartbeatSession firstSequence =
     State_Monad.update (\<lambda>s. s\<lparr>rn_failure := None, rn_completeAcked := False, rn_nextSequence := firstSequence,
       rn_done := False\<rparr>)"

definition session_fail :: "svc_error \<Rightarrow> unit run" where
  "session_fail err = do {
     s \<leftarrow> State_Monad.get;
     if rn_failure s = None \<and> \<not> rn_completeAcked s
     then do {
       State_Monad.update (\<lambda>s. s\<lparr>rn_failure := Some err\<rparr>);
       ask (\<lambda>_. ()) (\<lambda>_. CancelExecution) }
     else ret () }"

definition DispatchError :: "service_env \<Rightarrow> svc_error option run" where
  "DispatchError v = do {
     s \<leftarrow> State_Monad.get;
     case rn_failure s of Some err \<Rightarrow> ret (Some err) | None \<Rightarrow> do {
       cancelled \<leftarrow> ask (ve_ctx v) CtxErr;
       ret (map_option SvcCtx cancelled) } }"

definition checkpoint :: "service_env \<Rightarrow> Service \<Rightarrow> RunnerScope \<Rightarrow> LeaseIdentity \<Rightarrow> svc_error option run" where
  "checkpoint v sv claimedScope lease = do {
     stopped \<leftarrow> DispatchError v;
     case stopped of Some err \<Rightarrow> ret (Some err) | None \<Rightarrow> do {
       s \<leftarrow> State_Monad.get;
       failed \<leftarrow> heartbeatOnce v sv claimedScope lease (rn_nextSequence s);
       case failed of
         Some err \<Rightarrow> do {
           cancelled \<leftarrow> ask (ve_ctx v) CtxErr;
           (if cancelled = None then session_fail err else ret ());
           ret (Some err) }
       | None \<Rightarrow> do {
           State_Monad.update (\<lambda>s. s\<lparr>rn_nextSequence := wrap64 (rn_nextSequence s + 1)\<rparr>);
           ret None } } }"

text \<open>\<open>n\<close> ticks of \<^verbatim>\<open>heartbeatLoop\<close>; the loop ends at the first checkpoint that fails.\<close>

fun heartbeatLoop :: "service_env \<Rightarrow> Service \<Rightarrow> RunnerScope \<Rightarrow> LeaseIdentity \<Rightarrow> nat \<Rightarrow> unit run" where
  "heartbeatLoop v sv claimedScope lease 0 = ret ()"
| "heartbeatLoop v sv claimedScope lease (Suc n) = do {
     s \<leftarrow> State_Monad.get;
     if rn_done s then ret ()
     else do {
       failed \<leftarrow> checkpoint v sv claimedScope lease;
       if failed = None then heartbeatLoop v sv claimedScope lease n
       else State_Monad.update (\<lambda>s. s\<lparr>rn_done := True\<rparr>) } }"

definition background :: "service_env \<Rightarrow> Service \<Rightarrow> RunnerScope \<Rightarrow> LeaseIdentity \<Rightarrow> unit run" where
  "background v sv claimedScope lease = do {
     s \<leftarrow> State_Monad.get;
     heartbeatLoop v sv claimedScope lease (ve_beats v (rn_log s)) }"

definition Failure :: "svc_error option run" where
  "Failure = do { s \<leftarrow> State_Monad.get; ret (rn_failure s) }"

definition AcknowledgeComplete :: "unit run" where
  "AcknowledgeComplete = State_Monad.update (\<lambda>s. s\<lparr>rn_completeAcked := True, rn_failure := None\<rparr>)"

definition Stop :: "service_env \<Rightarrow> Service \<Rightarrow> RunnerScope \<Rightarrow> LeaseIdentity \<Rightarrow> svc_error option run" where
  "Stop v sv claimedScope lease = do { background v sv claimedScope lease; Failure }"

section \<open>Dispatch\<close>

definition command_identity :: "Envelope \<Rightarrow> CommandIdentity" where
  "command_identity e = \<lparr>id_ActionID = en_ActionID e, id_WorkspaceID = en_WorkspaceID e,
     id_IncidentID = en_IncidentID e, id_ServiceID = tr_ServiceID (en_Target e),
     id_EnvironmentID = tr_EnvironmentID (en_Target e), id_TraceID = en_TraceID e\<rparr>"

text \<open>
  The executor call of \<^verbatim>\<open>dispatchSafely\<close>. \<open>None\<close> is an unsupported type or a nil pointer,
  whose panic is recovered: an error in both cases, and no executor is called.
\<close>

definition dispatch_command :: "Envelope \<Rightarrow> command option" where
  "dispatch_command e = (case en_ActionType e of
     ActionKubernetesRolloutRestart \<Rightarrow>
       (case (tr_KubernetesDeployment (en_Target e), ap_KubernetesRolloutRestart (en_Parameters e),
              os_KubernetesDeployment (en_ObservedState e)) of
          (Some t, Some p, Some st) \<Rightarrow> Some (ExecuteRolloutRestart \<lparr>kr_Identity = command_identity e, kr_Target = t,
             kr_Parameters = p, kr_ObservedState = st, kr_Preconditions = en_Preconditions e,
             kr_Verification = en_Verification e\<rparr>)
        | _ \<Rightarrow> None)
   | ActionKubernetesScale \<Rightarrow>
       (case (tr_KubernetesDeployment (en_Target e), ap_KubernetesScale (en_Parameters e),
              os_KubernetesDeployment (en_ObservedState e)) of
          (Some t, Some p, Some st) \<Rightarrow> Some (ExecuteScale \<lparr>kc_Identity = command_identity e, kc_Target = t,
             kc_Parameters = p, kc_ObservedState = st, kc_Preconditions = en_Preconditions e,
             kc_Verification = en_Verification e\<rparr>)
        | _ \<Rightarrow> None)
   | ActionGitOpsRevert \<Rightarrow>
       (case (tr_GitOpsApplication (en_Target e), ap_GitOpsRevert (en_Parameters e),
              os_GitOpsApplication (en_ObservedState e)) of
          (Some t, Some p, Some st) \<Rightarrow> Some (ExecuteGitOpsRevert \<lparr>gr_Identity = command_identity e, gr_Target = t,
             gr_Parameters = p, gr_ObservedState = st, gr_Preconditions = en_Preconditions e,
             gr_Verification = en_Verification e\<rparr>)
        | _ \<Rightarrow> None)
   | ActionAWXServiceRestart \<Rightarrow>
       (case (tr_AWXHosts (en_Target e), ap_AWXServiceRestart (en_Parameters e),
              os_AWXService (en_ObservedState e)) of
          (Some t, Some p, Some st) \<Rightarrow> Some (ExecuteAWXServiceRestart \<lparr>aw_Identity = command_identity e, aw_Target = t,
             aw_Parameters = p, aw_ObservedState = st, aw_Preconditions = en_Preconditions e,
             aw_Verification = en_Verification e\<rparr>)
        | _ \<Rightarrow> None)
   | ActionRaw _ \<Rightarrow> None)"

definition dispatchSafely :: "Envelope \<Rightarrow> DurableCredential \<Rightarrow> bool run" where
  "dispatchSafely e executionCredential =
     (case dispatch_command e of None \<Rightarrow> ret False
      | Some command \<Rightarrow> ask (\<lambda>_. True) (\<lambda>_. Dispatched command executionCredential))"

definition dispatchWithHeartbeat ::
  "service_env \<Rightarrow> Service \<Rightarrow> RunnerScope \<Rightarrow> LeaseIdentity \<Rightarrow> Envelope \<Rightarrow> DurableCredential \<Rightarrow>
   (ExecutorResult \<times> svc_error list) run" where
  "dispatchWithHeartbeat v sv claimedScope lease e executionCredential = do {
     stopped \<leftarrow> DispatchError v;
     case stopped of Some err \<Rightarrow> ret (zero_ExecutorResult, [err]) | None \<Rightarrow> do {
     entered \<leftarrow> dispatchSafely e executionCredential;
     background v sv claimedScope lease;
     ended \<leftarrow> ask (ve_select v) Ended;
     case ended of
       ExecutorDone result \<Rightarrow> do {
         cancelled \<leftarrow> ask (ve_ctx v) CtxErr;
         failure \<leftarrow> Failure;
         ret (case (cancelled, failure) of
            (Some c, _) \<Rightarrow> (zero_ExecutorResult, [SvcCtx c])
          | (None, Some err) \<Rightarrow> (zero_ExecutorResult, [err])
          | (None, None) \<Rightarrow>
              (case if entered then result else None of
                 None \<Rightarrow> (zero_ExecutorResult, [ExecutorErr]) | Some r \<Rightarrow> (r, []))) }
     | HeartbeatsDone \<Rightarrow> do {
         failure \<leftarrow> Failure;
         case failure of Some err \<Rightarrow> ret (zero_ExecutorResult, [err]) | None \<Rightarrow> do {
           cancelled \<leftarrow> ask (ve_ctx v) CtxErr;
           ret (zero_ExecutorResult, [case cancelled of Some c \<Rightarrow> SvcCtx c | None \<Rightarrow> Exec ErrExecutionUncertain]) } }
     | ContextDone \<Rightarrow> do {
         cancelled \<leftarrow> ask (ve_ctx v) CtxErr;
         failure \<leftarrow> Failure;
         ret (zero_ExecutorResult, (case cancelled of Some c \<Rightarrow> [SvcCtx c] | None \<Rightarrow> []) @
           (case failure of Some err \<Rightarrow> [err] | None \<Rightarrow> [])) } } }"

section \<open>Running one action\<close>

definition joined :: "svc_error option \<Rightarrow> svc_error list" where
  "joined err = (case err of None \<Rightarrow> [] | Some e \<Rightarrow> [e])"

text \<open>\<^verbatim>\<open>requestRevocation\<close>: nothing when no credential was issued.\<close>

definition requestRevocation ::
  "service_env \<Rightarrow> DurableCredential option \<Rightarrow> (svc_error list \<times> Revocation option) run" where
  "requestRevocation v issued =
     (case issued of None \<Rightarrow> ret ([], None) | Some executionCredential \<Rightarrow> do {
        answer \<leftarrow> ask (ve_revoke v executionCredential) (Revoking executionCredential);
        ret (case answer of None \<Rightarrow> ([BrokerErr], None) | Some revocation \<Rightarrow> ([], Some revocation)) })"

text \<open>From the receipt to the end: \<open>Complete\<close>, the revocation, \<open>Finalize\<close>.\<close>

definition finish_run ::
  "service_env \<Rightarrow> Service \<Rightarrow> RunnerScope \<Rightarrow> LeaseIdentity \<Rightarrow> Execution \<Rightarrow> DurableCredential option \<Rightarrow>
   ExecutorResult \<Rightarrow> svc_error list \<Rightarrow> (Execution \<times> svc_error list) run" where
  "finish_run v sv scope leaseFence started issued executorResult executorErr = do {
     background v sv scope leaseFence;
     heartbeatErr \<leftarrow> checkpoint v sv scope leaseFence;
     background v sv scope leaseFence;
     let summary = snd (if heartbeatErr = None then classifyResult executorResult executorErr
           else classifyResult zero_ExecutorResult (joined heartbeatErr));
     let request = \<lparr>ac_Lease = leaseFence, ac_Summary = summary\<rparr>;
     finalizing \<leftarrow> ask (ve_complete v request) (Completed request);
     background v sv scope leaseFence;
     (case finalizing of Inr _ \<Rightarrow> AcknowledgeComplete | Inl _ \<Rightarrow> ret ());
     stopErr \<leftarrow> Stop v sv scope leaseFence;
     (cleanupErr, revocation) \<leftarrow> requestRevocation v issued;
     case finalizing of
       Inl completeErr \<Rightarrow>
         ret (redactActionExecution started,
              [Exec ErrExecutionUncertain, Exec completeErr] @ joined stopErr @ cleanupErr)
     | Inr finalizing \<Rightarrow>
       if cleanupErr \<noteq> [] then ret (finalizing, Exec ErrCredentialCleanupPending # cleanupErr)
       else let completionStatus = (case ResultSummaryStatus summary of Inr st \<Rightarrow> st | Inl _ \<Rightarrow> StatusRaw '''') in
       if completionStatus \<noteq> StatusUncertain \<and> issued \<noteq> None \<and>
          \<not> (case revocation of None \<Rightarrow> False | Some r \<Rightarrow> Revocation_Terminal r)
       then ret (finalizing, [Exec ErrCredentialCleanupPending])
       else do {
         completed \<leftarrow> ask (ve_finalize v leaseFence) (Finalized leaseFence);
         ret (case completed of
            Inl err \<Rightarrow>
              if err = ErrCredentialCleanupPending then (finalizing, [Exec ErrCredentialCleanupPending])
              else (finalizing, [Exec ErrExecutionUncertain, Exec err])
          | Inr completed \<Rightarrow>
              (completed,
               if ex_Status completed = StatusFailed then [Exec ErrExecutionFailed]
               else if ex_Status completed = StatusUncertain then [Exec ErrExecutionUncertain] else [])) } }"

text \<open>The heartbeat session is running: issue the credential and dispatch.\<close>

definition supervised_run ::
  "service_env \<Rightarrow> Service \<Rightarrow> RunnerScope \<Rightarrow> LeaseIdentity \<Rightarrow> Envelope \<Rightarrow> Decision \<Rightarrow>
   PreparedDurableCredential \<Rightarrow> Execution \<Rightarrow> (Execution \<times> svc_error list) run" where
  "supervised_run v sv scope leaseFence e credentialDecision prepared started = do {
     background v sv scope leaseFence;
     issued \<leftarrow> ask (ve_issue v prepared) (Issued prepared);
     case issued of
       None \<Rightarrow> finish_run v sv scope leaseFence started None zero_ExecutorResult [Exec ErrCredentialDenied]
     | Some executionCredential \<Rightarrow> do {
       background v sv scope leaseFence;
       localIssueObservedAt \<leftarrow> ask (ve_local v) LocalClock;
       issueNow \<leftarrow> service_now v;
       if (case issueNow of Inl _ \<Rightarrow> True | Inr t \<Rightarrow>
             \<not> validDurableCredential executionCredential e (dn_CredentialExpiresAt credentialDecision) t \<or>
             mappedExecutionDeadline (dc_expiresAt executionCredential) t localIssueObservedAt = None)
       then finish_run v sv scope leaseFence started issued zero_ExecutorResult [Exec ErrCredentialDenied]
       else do {
         background v sv scope leaseFence;
         heartbeatErr \<leftarrow> checkpoint v sv scope leaseFence;
         case heartbeatErr of
           Some err \<Rightarrow> finish_run v sv scope leaseFence started issued zero_ExecutorResult [err]
         | None \<Rightarrow> do {
             background v sv scope leaseFence;
             (executorResult, executorErr) \<leftarrow>
               dispatchWithHeartbeat v sv scope leaseFence e executionCredential;
             finish_run v sv scope leaseFence started issued executorResult executorErr } } } }"

definition abandon ::
  "service_env \<Rightarrow> PreparedDurableCredential \<Rightarrow> Execution \<Rightarrow> svc_error list \<Rightarrow> (Execution \<times> svc_error list) run" where
  "abandon v prepared ex causes = do {
     noCredentialErr \<leftarrow> recordNoCredential v prepared;
     ret (redactActionExecution ex, causes @ noCredentialErr) }"

text \<open>The credential is prepared: start, beat once, map the deadline.\<close>

definition start_run ::
  "service_env \<Rightarrow> Service \<Rightarrow> RunnerScope \<Rightarrow> ClaimedAction \<Rightarrow> Decision \<Rightarrow> time \<Rightarrow>
   PreparedDurableCredential \<Rightarrow> (Execution \<times> svc_error list) run" where
  "start_run v sv scope claimed credentialDecision executorDeadline prepared =
     (let leased = ca_Execution claimed; leaseFence = Fence leased in do {
     answer \<leftarrow> ask (ve_start v leaseFence) (Started leaseFence);
     case answer of Inl err \<Rightarrow> abandon v prepared leased [Exec err] | Inr started \<Rightarrow> do {
     heartbeatErr \<leftarrow> heartbeatOnce v sv scope leaseFence 1;
     case heartbeatErr of Some err \<Rightarrow> abandon v prepared started [Exec ErrExecutionUncertain, err] | None \<Rightarrow> do {
     localExecutorObservedAt \<leftarrow> ask (ve_local v) LocalClock;
     now \<leftarrow> service_now v;
     case now of
       Inl err \<Rightarrow> abandon v prepared started [Exec ErrExecutionUncertain, err]
     | Inr t \<Rightarrow>
       if \<not> After executorDeadline t \<or> mappedExecutionDeadline executorDeadline t localExecutorObservedAt = None
       then abandon v prepared started [Exec ErrExecutionUncertain, Exec ErrPreExecutionDenied]
       else do {
         startHeartbeatSession 2;
         supervised_run v sv scope leaseFence (ca_Envelope claimed) credentialDecision prepared started } } } })"

definition prepare_request :: "RunnerScope \<Rightarrow> ClaimedAction \<Rightarrow> Decision \<Rightarrow> PrepareDurableCredentialRequest" where
  "prepare_request scope claimed credentialDecision =
     (let f = Fence (ca_Execution claimed); e = ca_Envelope claimed in
      \<lparr>pq_Fence = \<lparr>af_ActionID = li_ExecutionID f, af_RunnerID = li_RunnerID f, af_Token = li_Token f,
                    af_Epoch = li_Epoch f\<rparr>,
       pq_Selection = \<lparr>ir_TenantID = rs_tenantID scope, ir_WorkspaceID = en_WorkspaceID e,
         ir_EnvironmentID = tr_EnvironmentID (en_Target e), ir_Production = ca_Production claimed,
         ir_ActionType = ActionType_string (en_ActionType e), ir_ConnectorID = cs_ConnectorID (en_CredentialScope e),
         ir_Permission = cs_Permission (en_CredentialScope e), ir_Resource = cs_Resource (en_CredentialScope e)\<rparr>,
       pq_RequestedTTL = cs_TTLSeconds (en_CredentialScope e) * Second,
       pq_PolicyExpiresAt = dn_CredentialExpiresAt credentialDecision\<rparr>)"

definition start_safety_request :: "RunnerScope \<Rightarrow> Envelope \<Rightarrow> SafetyRequest" where
  "start_safety_request scope e = \<lparr>sq_Phase = SafetyPhaseStart, sq_Pool = PoolWrite, sq_RunnerID = rs_runnerID scope,
     sq_WorkspaceID = en_WorkspaceID e, sq_EnvironmentID = tr_EnvironmentID (en_Target e),
     sq_ConnectorID = cs_ConnectorID (en_CredentialScope e), sq_ActionType = en_ActionType e\<rparr>"

text \<open>Both policy decisions are in: the last gates before the credential.\<close>

definition gated_run ::
  "service_ext \<Rightarrow> service_env \<Rightarrow> Service \<Rightarrow> RunnerScope \<Rightarrow> ClaimedAction \<Rightarrow> Decision \<Rightarrow> Decision \<Rightarrow>
   (Execution \<times> svc_error list) run" where
  "gated_run x v sv scope claimed credentialDecision decision =
     (let e = ca_Envelope claimed in do {
     startSafety \<leftarrow> checkSafety v (start_safety_request scope e);
     case startSafety of
       None \<Rightarrow> nackClaim x v claimed ''SAFETY_TEMPORARILY_DISABLED'' (Exec ErrClaimsDisabled)
     | Some safety \<Rightarrow>
       if cy_Revision safety \<noteq> dn_SafetyRevision decision \<or>
          cy_Revision safety \<noteq> dn_SafetyRevision credentialDecision
       then nackClaim x v claimed ''SAFETY_TEMPORARILY_DISABLED'' (Exec ErrClaimsDisabled)
       else do {
     finalEnvironment \<leftarrow> resolveEnvironment v e;
     case finalEnvironment of
       None \<Rightarrow> nackClaim x v claimed ''ENVIRONMENT_TEMPORARILY_UNAVAILABLE'' (Exec ErrEnvironmentUnavailable)
     | Some environment \<Rightarrow>
       if es_Revision environment \<noteq> ca_EnvironmentRevision claimed \<or> es_Production environment \<noteq> ca_Production claimed
       then rejectClaim x v claimed ''ENVIRONMENT_DRIFT'' (Exec ErrEnvironmentDrift)
       else do {
     now \<leftarrow> service_now v;
     case now of Inl err \<Rightarrow> nackClaim x v claimed ''CLOCK_TEMPORARILY_UNAVAILABLE'' err | Inr t \<Rightarrow>
     if \<not> service_fresh t (cy_ObservedAt safety) Service_MaxSafetySnapshotAge \<or>
        \<not> validPreExecutionDecision decision e t \<or> \<not> validCredentialIssueDecision credentialDecision e t \<or>
        \<not> samePolicySnapshot credentialDecision decision
     then nackClaim x v claimed ''PRE_START_STATE_EXPIRED'' (Exec ErrClaimsDisabled)
     else case boundedExecutionDeadline (ve_deadline v) e (dn_CredentialExpiresAt credentialDecision) t of
       None \<Rightarrow> rejectClaim x v claimed ''EXECUTION_DEADLINE_EXPIRED'' (Exec ErrPreExecutionDenied)
     | Some executorDeadline \<Rightarrow> do {
         answer \<leftarrow>
           (let request = prepare_request scope claimed credentialDecision
            in ask (ve_prepare v request) (Prepared request));
         case answer of
           None \<Rightarrow> ret (redactActionExecution (ca_Execution claimed), [Exec ErrCredentialDenied, BrokerErr])
         | Some prepared \<Rightarrow> start_run v sv scope claimed credentialDecision executorDeadline prepared } } } })"

definition decided_run ::
  "service_ext \<Rightarrow> service_env \<Rightarrow> Service \<Rightarrow> RunnerScope \<Rightarrow> ClaimedAction \<Rightarrow> (Execution \<times> svc_error list) run" where
  "decided_run x v sv scope claimed =
     (let e = ca_Envelope claimed in do {
     issueAnswer \<leftarrow> ask (ve_decision v StageCredentialIssue) (Decided StageCredentialIssue);
     case issueAnswer of
       None \<Rightarrow> do {
         cancelled \<leftarrow> ask (ve_ctx v) CtxErr;
         case cancelled of
           Some c \<Rightarrow> nackClaim x v claimed ''CREDENTIAL_POLICY_CANCELLED'' (SvcCtx c)
         | None \<Rightarrow> nackClaim x v claimed ''CREDENTIAL_POLICY_TEMPORARILY_UNAVAILABLE'' (Exec ErrCredentialDenied) }
     | Some credentialDecision \<Rightarrow> do {
     now \<leftarrow> service_now v;
     case now of Inl err \<Rightarrow> nackClaim x v claimed ''CLOCK_TEMPORARILY_UNAVAILABLE'' err | Inr t \<Rightarrow>
     if \<not> validCredentialIssueDecision credentialDecision e t
     then rejectClaim x v claimed ''CREDENTIAL_POLICY_DENIED'' (Exec ErrCredentialDenied)
     else do {
     preAnswer \<leftarrow> ask (ve_decision v StagePreExecution) (Decided StagePreExecution);
     case preAnswer of
       None \<Rightarrow> do {
         cancelled \<leftarrow> ask (ve_ctx v) CtxErr;
         case cancelled of
           Some c \<Rightarrow> nackClaim x v claimed ''PRE_EXECUTION_CANCELLED'' (SvcCtx c)
         | None \<Rightarrow> nackClaim x v claimed ''POLICY_TEMPORARILY_UNAVAILABLE'' (Exec ErrPreExecutionDenied) }
     | Some decision \<Rightarrow> do {
     now \<leftarrow> service_now v;
     case now of Inl err \<Rightarrow> nackClaim x v claimed ''CLOCK_TEMPORARILY_UNAVAILABLE'' err | Inr t \<Rightarrow>
     if \<not> validPreExecutionDecision decision e t \<or> \<not> samePolicySnapshot credentialDecision decision
     then rejectClaim x v claimed ''PRE_EXECUTION_POLICY_DENIED'' (Exec ErrPreExecutionDenied)
     else gated_run x v sv scope claimed credentialDecision decision } } } })"

text \<open>What the queue's answer must agree with before anything in it is trusted.\<close>

definition claim_consistent :: "RunnerScope \<Rightarrow> ClaimedAction \<Rightarrow> bool" where
  "claim_consistent scope claimed \<longleftrightarrow>
     (let leased = ca_Execution claimed; e = ca_Envelope claimed in
      \<not> (ex_ExecutionID leased \<noteq> en_ActionID e \<or> ex_TargetKey leased \<noteq> ca_TargetKey claimed \<or>
         ex_Pool leased \<noteq> PoolWrite \<or> ex_Production leased \<noteq> ca_Production claimed \<or>
         ca_PlanHash claimed \<noteq> en_PlanHash e \<or> ex_Production leased \<or> ex_RunnerID leased \<noteq> rs_runnerID scope \<or>
         ex_RunnerTenantID leased \<noteq> rs_tenantID scope \<or> ex_RunnerWorkspaceID leased \<noteq> en_WorkspaceID e \<or>
         ex_RunnerEnvironmentID leased \<noteq> tr_EnvironmentID (en_Target e) \<or>
         ex_ScopeRevision leased \<noteq> rs_scopeRevision scope \<or>
         \<not> allows scope (en_WorkspaceID e) (tr_EnvironmentID (en_Target e))))"

definition claimed_run ::
  "service_ext \<Rightarrow> service_env \<Rightarrow> Service \<Rightarrow> RunnerScope \<Rightarrow> ClaimedAction \<Rightarrow> (Execution \<times> svc_error list) run" where
  "claimed_run x v sv scope claimed =
     (let e = ca_Envelope claimed; leased = ca_Execution claimed in
      if \<not> claim_consistent scope claimed then ret (redactActionExecution leased, [Exec ErrJobConflict])
      else do {
     now \<leftarrow> service_now v;
     case now of Inl err \<Rightarrow> nackClaim x v claimed ''CLOCK_TEMPORARILY_UNAVAILABLE'' err | Inr t \<Rightarrow> do {
     invalid \<leftarrow> verify_envelope x v e t;
     case invalid of Some err \<Rightarrow> rejectClaim x v claimed ''INVALID_VERIFIED_ACTION'' (Exec (ErrInvalidAction err)) | None \<Rightarrow>
     if ex_ExecutionID leased \<noteq> en_ActionID e \<or> ex_TargetKey leased \<noteq> ca_TargetKey claimed \<or>
        ex_Pool leased \<noteq> PoolWrite \<or> ex_Production leased \<noteq> ca_Production claimed \<or> ca_PlanHash claimed \<noteq> en_PlanHash e
     then rejectClaim x v claimed ''QUEUE_METADATA_CONFLICT'' (Exec ErrJobConflict)
     else do {
     answer \<leftarrow> resolveEnvironment v e;
     case answer of
       None \<Rightarrow> nackClaim x v claimed ''ENVIRONMENT_TEMPORARILY_UNAVAILABLE'' (Exec ErrEnvironmentUnavailable)
     | Some environment \<Rightarrow>
       if es_Revision environment \<noteq> ca_EnvironmentRevision claimed \<or> es_Production environment \<noteq> ca_Production claimed
       then rejectClaim x v claimed ''ENVIRONMENT_DRIFT'' (Exec ErrEnvironmentDrift)
       else decided_run x v sv scope claimed } } })"

definition claim_safety_request :: "RunnerScope \<Rightarrow> SafetyRequest" where
  "claim_safety_request scope = \<lparr>sq_Phase = SafetyPhaseClaim, sq_Pool = PoolWrite, sq_RunnerID = rs_runnerID scope,
     sq_WorkspaceID = '''', sq_EnvironmentID = '''', sq_ConnectorID = '''', sq_ActionType = ActionRaw ''''\<rparr>"

definition RunNext ::
  "service_ext \<Rightarrow> service_env \<Rightarrow> Service \<Rightarrow> (Execution \<times> svc_error list) run" where
  "RunNext x v sv = do {
     runnerScope \<leftarrow> resolveRunnerScope v sv;
     case runnerScope of None \<Rightarrow> ret (zero_Execution, [Exec ErrClaimsDisabled]) | Some scope \<Rightarrow> do {
     safety \<leftarrow> checkSafety v (claim_safety_request scope);
     case safety of None \<Rightarrow> ret (zero_Execution, [Exec ErrClaimsDisabled]) | Some _ \<Rightarrow> do {
     answer \<leftarrow>
       (let request = \<lparr>acq_Scope = scope, acq_LeaseDuration = sv_leaseDuration sv\<rparr>
        in ask (ve_claim v request) (Claimed request));
     case answer of Inl err \<Rightarrow> ret (zero_Execution, [Exec err]) | Inr claimed \<Rightarrow>
     claimed_run x v sv scope claimed } } }"

end
