(* ===== verification/Service_Safety.thy ===== *)
theory Service_Safety
  imports Execution_Service
begin

text \<open>
  What a run of the write-execution service guarantees. The first part is a small logic of runs:
  rules that say which call may follow which history, a judgement that a program keeps them, and one
  proof rule per construct. With it every stage of \<open>RunNext\<close> is shown to keep the rules of a run; the
  properties are read off them. The last part is a concrete run in which every gate opens.
\<close>

section \<open>Reasoning about runs\<close>

text \<open>
  A rule says which calls may follow which history. \<open>obeys\<close> is a history in which every call
  follows the rule; \<open>runs\<close> is the judgement that a program, started with the calls of \<open>L\<close> already made
  and no call outside the kinds \<open>K\<close>, extends such a history to one that ends with \<open>Q\<close>.
\<close>

datatype kind = KRead | KVerify | KClaim | KSubmit | KReject | KNack | KPrepare | KNoCredential | KStart | KBeat | KIssue
  | KDispatch | KEnd | KComplete | KRevoke | KFinalize

fun kind_of :: "event \<Rightarrow> kind" where
  "kind_of (Verified _ _ _) = KVerify"
| "kind_of (Claimed _ _) = KClaim"
| "kind_of (Submitted _ _) = KSubmit"
| "kind_of (Rejected _ _) = KReject"
| "kind_of (Nacked _ _) = KNack"
| "kind_of (Prepared _ _) = KPrepare"
| "kind_of (NoCredential _ _) = KNoCredential"
| "kind_of (Started _ _) = KStart"
| "kind_of (Beat _ _) = KBeat"
| "kind_of CancelExecution = KBeat"
| "kind_of (Issued _ _) = KIssue"
| "kind_of (Dispatched _ _) = KDispatch"
| "kind_of (Ended _) = KEnd"
| "kind_of (Completed _ _) = KComplete"
| "kind_of (Revoking _ _) = KRevoke"
| "kind_of (Finalized _ _) = KFinalize"
| "kind_of _ = KRead"

type_synonym rule = "history \<Rightarrow> event \<Rightarrow> bool"

definition knows :: "event set \<Rightarrow> kind set \<Rightarrow> history \<Rightarrow> bool" where
  "knows L K h \<longleftrightarrow> L \<subseteq> set h \<and> kind_of ` set h \<subseteq> K"

definition runs :: "rule \<Rightarrow> (history \<Rightarrow> bool) \<Rightarrow> event set \<Rightarrow> kind set \<Rightarrow> 'a run \<Rightarrow> bool" where
  "runs R Q L K m \<longleftrightarrow>
     (\<forall>s. knows L K (rn_log s) \<longrightarrow> obeys R (rn_log s) \<longrightarrow>
        obeys R (rn_log (snd (run_state m s))) \<and> Q (rn_log (snd (run_state m s))))"

lemma knows_snoc: "knows L K h \<Longrightarrow> knows (insert c L) (insert (kind_of c) K) (h @ [c])"
  by (auto simp: knows_def)

lemma runs_ret:
  "(\<And>h. knows L K h \<Longrightarrow> obeys R h \<Longrightarrow> Q h) \<Longrightarrow> runs R Q L K (ret a)"
  by (simp add: runs_def)

lemma runs_ask:
  assumes "\<And>a h. knows L K h \<Longrightarrow> obeys R h \<Longrightarrow> R h (call a)"
    and "\<And>a. runs R Q (insert (call a) L) (insert (kind_of (call a)) K) (k a)"
  shows "runs R Q L K (State_Monad.bind (ask answer call) k)"
  using assms by (simp add: runs_def ask_def Let_def knows_snoc)

lemma runs_get: "(\<And>s. runs R Q L K (k s)) \<Longrightarrow> runs R Q L K (State_Monad.bind State_Monad.get k)"
  by (simp add: runs_def)

lemma runs_update:
  assumes "\<And>s. rn_log (f s) = rn_log s" and "runs R Q L K (k ())"
  shows "runs R Q L K (State_Monad.bind (State_Monad.update f) k)"
proof -
  have "run_state (State_Monad.update f) s = ((), f s)" for s
    by (simp add: State_Monad.update_def)
  with assms show ?thesis by (simp add: runs_def)
qed

lemma runs_bind_ret: "runs R Q L K (k a) \<Longrightarrow> runs R Q L K (State_Monad.bind (ret a) k)"
  by simp

lemma runs_mono: "runs R Q L' K' m \<Longrightarrow> L' \<subseteq> L \<Longrightarrow> K \<subseteq> K' \<Longrightarrow> runs R Q L K m"
  unfolding runs_def knows_def by blast


text \<open>
  Programs that only read and beat: the heartbeat session, in the foreground and the background.
\<close>

definition quiet :: "'a run \<Rightarrow> bool" where
  "quiet m \<longleftrightarrow> (\<forall>s. \<exists>ext. rn_log (snd (run_state m s)) = rn_log s @ ext \<and> kind_of ` set ext \<subseteq> {KRead, KBeat})"

definition unruled :: "rule \<Rightarrow> bool" where
  "unruled R \<longleftrightarrow> (\<forall>h c. kind_of c = KRead \<or> kind_of c = KBeat \<longrightarrow> R h c)"

named_theorems quiet_intros \<open>programs that only read and beat\<close>

lemma quiet_ret [quiet_intros]: "quiet (ret a)"
  by (simp add: quiet_def)

lemma quiet_get [quiet_intros]: "quiet State_Monad.get"
  by (simp add: quiet_def)

lemma quiet_update [quiet_intros]: "(\<And>s. rn_log (f s) = rn_log s) \<Longrightarrow> quiet (State_Monad.update f)"
  by (simp add: quiet_def State_Monad.update_def)

lemma quiet_ask [quiet_intros]: "(\<And>a. kind_of (call a) \<in> {KRead, KBeat}) \<Longrightarrow> quiet (ask answer call)"
  unfolding quiet_def ask_def by (auto simp: Let_def)

lemma quiet_bind [quiet_intros]:
  assumes m: "quiet m" and k: "\<And>a. quiet (k a)"
  shows "quiet (State_Monad.bind m k)"
  unfolding quiet_def
proof
  fix s :: run_log
  obtain a s1 where m1: "run_state m s = (a, s1)" by (cases "run_state m s")
  obtain e1 where e1: "rn_log s1 = rn_log s @ e1" "kind_of ` set e1 \<subseteq> {KRead, KBeat}"
    using m [unfolded quiet_def, rule_format, of s] m1 by auto
  obtain e2 where e2: "rn_log (snd (run_state (k a) s1)) = rn_log s1 @ e2" "kind_of ` set e2 \<subseteq> {KRead, KBeat}"
    using k [unfolded quiet_def, rule_format, of a s1] by blast
  show "\<exists>ext. rn_log (snd (run_state (State_Monad.bind m k) s)) = rn_log s @ ext \<and> kind_of ` set ext \<subseteq> {KRead, KBeat}"
    using e1 e2 by (intro exI [of _ "e1 @ e2"]) (auto simp: m1)
qed

lemma obeys_append_quiet:
  "unruled R \<Longrightarrow> obeys R h \<Longrightarrow> kind_of ` set ext \<subseteq> {KRead, KBeat} \<Longrightarrow> obeys R (h @ ext)"
proof (induction ext rule: rev_induct)
  case (snoc c ext)
  then have "R (h @ ext) c" by (auto simp: unruled_def)
  with snoc show ?case by (simp add: obeys_snoc [of R "h @ ext" c, simplified])
qed simp

lemma runs_quiet:
  assumes R: "unruled R" and m: "quiet m" and K: "KRead \<in> K" "KBeat \<in> K"
    and k: "\<And>a. runs R Q L K (k a)"
  shows "runs R Q L K (State_Monad.bind m k)"
  unfolding runs_def
proof (intro allI impI)
  fix s :: run_log assume s: "knows L K (rn_log s)" "obeys R (rn_log s)"
  obtain a s1 where m1: "run_state m s = (a, s1)" by (cases "run_state m s")
  obtain e1 where e1: "rn_log s1 = rn_log s @ e1" "kind_of ` set e1 \<subseteq> {KRead, KBeat}"
    using m [unfolded quiet_def, rule_format, of s] m1 by auto
  have "knows L K (rn_log s1)" using s(1) e1 K by (auto simp: knows_def)
  moreover have "obeys R (rn_log s1)" using obeys_append_quiet [OF R s(2) e1(2)] e1(1) by simp
  ultimately show "obeys R (rn_log (snd (run_state (State_Monad.bind m k) s))) \<and>
      Q (rn_log (snd (run_state (State_Monad.bind m k) s)))"
    using k [of a] by (simp add: m1 runs_def)
qed

lemma quiet_scope [quiet_intros]: "quiet (resolveRunnerScope v sv)"
  unfolding resolveRunnerScope_def by (intro quiet_intros) simp

lemma quiet_heartbeatOnce [quiet_intros]: "quiet (heartbeatOnce v sv scope lease sequence)"
  unfolding heartbeatOnce_def Let_def
  by (rule quiet_bind [OF quiet_scope]) (auto intro!: quiet_intros split: option.splits)

lemma quiet_session_fail [quiet_intros]: "quiet (session_fail err)"
  unfolding session_fail_def by (auto intro!: quiet_intros)

lemma quiet_DispatchError [quiet_intros]: "quiet (DispatchError v)"
  unfolding DispatchError_def by (auto intro!: quiet_intros split: option.splits)

lemma quiet_checkpoint [quiet_intros]: "quiet (checkpoint v sv scope lease)"
  unfolding checkpoint_def by (rule quiet_bind [OF quiet_DispatchError]) (auto intro!: quiet_intros split: option.splits)

lemma quiet_heartbeatLoop [quiet_intros]: "quiet (heartbeatLoop v sv scope lease n)"
  by (induction n) (auto intro!: quiet_intros)

lemma quiet_background [quiet_intros]: "quiet (background v sv scope lease)"
  unfolding background_def by (intro quiet_intros)

lemma quiet_Failure [quiet_intros]: "quiet Failure"
  unfolding Failure_def by (intro quiet_intros)

lemma quiet_Stop [quiet_intros]: "quiet (Stop v sv scope lease)"
  unfolding Stop_def by (intro quiet_intros)

lemma quiet_Acknowledge [quiet_intros]: "quiet AcknowledgeComplete"
  unfolding AcknowledgeComplete_def by (intro quiet_intros) simp

lemma quiet_startSession [quiet_intros]: "quiet (startHeartbeatSession n)"
  unfolding startHeartbeatSession_def by (intro quiet_intros) simp

text \<open>The trusted reads, with what the calls they make show.\<close>

lemma runs_read:
  assumes "unruled R" and "KRead \<in> K" and "\<And>a. kind_of (call a) = KRead"
    and "\<And>a. runs R Q (insert (call a) L) K (k a)"
  shows "runs R Q L K (State_Monad.bind (ask answer call) k)"
  using assms by (intro runs_ask) (auto simp: unruled_def insert_absorb)

lemma runs_now:
  assumes "unruled R" and "KRead \<in> K" and "runs R Q L K (k (Inl SvcClockZero))"
    and "\<And>t. t \<noteq> 0 \<Longrightarrow> runs R Q (insert (Clock t) L) K (k (Inr t))"
  shows "runs R Q L K (State_Monad.bind (service_now v) k)"
proof -
  have "runs R Q (insert (Clock t) L) K (k (if IsZero t then Inl SvcClockZero else Inr t))" for t
    using assms(3,4) runs_mono [OF assms(3), of "insert (Clock t) L" K] by auto
  with assms(1,2) show ?thesis
    unfolding service_now_def by (simp add: runs_read)
qed

lemma runs_scope:
  assumes "unruled R" and "KRead \<in> K" and "runs R Q L K (k None)"
    and "\<And>registration scope. Scope registration = Inr scope \<Longrightarrow> rs_pool scope = PoolWrite \<Longrightarrow>
      rs_runnerID scope = sv_runnerID sv \<Longrightarrow> runs R Q (insert (Registered (Some registration)) L) K (k (Some scope))"
  shows "runs R Q L K (State_Monad.bind (resolveRunnerScope v sv) k)"
  unfolding resolveRunnerScope_def State_Monad.bind_assoc State_Monad.bind_left_identity
  by (rule runs_read)
    (use assms runs_mono [OF assms(3), of "insert _ L" K] in \<open>auto split: option.splits sum.splits\<close>)

lemma runs_safety:
  assumes "unruled R" and "KRead \<in> K" and "runs R Q L K (k None)"
    and "\<And>snapshot t. safety_holds request snapshot t \<Longrightarrow>
      runs R Q (insert (Clock t) (insert (Safety request (Some snapshot)) L)) K (k (Some snapshot))"
  shows "runs R Q L K (State_Monad.bind (checkSafety v request) k)"
  unfolding checkSafety_def State_Monad.bind_assoc
proof (rule runs_read, goal_cases)
  case (4 answer)
  note weaker = runs_mono [OF assms(3), of _ K]
  show ?case
  proof (cases answer)
    case None
    then show ?thesis by (simp add: weaker subset_insertI)
  next
    case (Some snapshot)
    then show ?thesis
      using assms(1,2,4) by (auto intro!: runs_now weaker)
  qed
qed (use assms in auto)

lemma runs_verify:
  assumes "\<And>h. R h (Verified e t (Verify (vx_canon x) (vx_sha x) (vx_edverify x) (Some (ve_keys v h)) e t))"
    and "\<And>a. runs R Q (insert (Verified e t a) L) (insert KVerify K) (k a)"
  shows "runs R Q L K (State_Monad.bind (verify_envelope x v e t) k)"
  using assms unfolding verify_envelope_def runs_def ask_def
  by (simp add: Let_def knows_snoc [where c = "Verified _ _ _", simplified])

lemma runs_environment:
  assumes "unruled R" and "KRead \<in> K" and "runs R Q L K (k None)"
    and "\<And>snapshot t. environment_holds e snapshot t \<Longrightarrow>
      runs R Q (insert (Clock t) (insert (Environment (en_WorkspaceID e) (tr_EnvironmentID (en_Target e)) (Some snapshot)) L))
        K (k (Some snapshot))"
  shows "runs R Q L K (State_Monad.bind (resolveEnvironment v e) k)"
  unfolding resolveEnvironment_def State_Monad.bind_assoc
proof (rule runs_read, goal_cases)
  case (4 answer)
  note weaker = runs_mono [OF assms(3), of _ K]
  show ?case
  proof (cases answer)
    case None
    then show ?thesis by (simp add: weaker subset_insertI)
  next
    case (Some snapshot)
    then show ?thesis
      using assms(1,2,4) by (auto intro!: runs_now weaker)
  qed
qed (use assms in auto)


section \<open>The rules of a run\<close>

text \<open>
  What is known, from the calls of a history, once every gate before the credential is open: the
  runner's scope, the claimed action, and the two policy decisions, each call answered as the code
  requires at an instant the clock gave.
\<close>

definition gates_open ::
  "service_env \<Rightarrow> Service \<Rightarrow> history \<Rightarrow> RunnerScope \<Rightarrow> ClaimedAction \<Rightarrow> Decision \<Rightarrow> Decision \<Rightarrow> bool" where
  "gates_open v sv h scope c issue pre \<longleftrightarrow>
     (let e = ca_Envelope c; at = (\<lambda>P. \<exists>t. Clock t \<in> set h \<and> t \<noteq> 0 \<and> P t) in
      (\<exists>registration. Registered (Some registration) \<in> set h \<and> Scope registration = Inr scope) \<and>
      rs_pool scope = PoolWrite \<and> rs_runnerID scope = sv_runnerID sv \<and>
      (\<exists>snapshot t. Safety (claim_safety_request scope) (Some snapshot) \<in> set h \<and> Clock t \<in> set h \<and>
         safety_holds (claim_safety_request scope) snapshot t) \<and>
      Claimed \<lparr>acq_Scope = scope, acq_LeaseDuration = sv_leaseDuration sv\<rparr> (Inr c) \<in> set h \<and>
      claim_consistent scope c \<and>
      at (\<lambda>t. Verified e t None \<in> set h) \<and>
      Decided StageCredentialIssue (Some issue) \<in> set h \<and> Decided StagePreExecution (Some pre) \<in> set h \<and>
      samePolicySnapshot issue pre \<and>
      (\<exists>snapshot t. Environment (en_WorkspaceID e) (tr_EnvironmentID (en_Target e)) (Some snapshot) \<in> set h \<and>
         Clock t \<in> set h \<and> environment_holds e snapshot t \<and>
         es_Revision snapshot = ca_EnvironmentRevision c \<and> es_Production snapshot = ca_Production c) \<and>
      (\<exists>snapshot. Safety (start_safety_request scope e) (Some snapshot) \<in> set h \<and>
         cy_Revision snapshot = dn_SafetyRevision issue \<and>
         (\<exists>t. Clock t \<in> set h \<and> safety_holds (start_safety_request scope e) snapshot t) \<and>
         at (\<lambda>t. service_fresh t (cy_ObservedAt snapshot) Service_MaxSafetySnapshotAge \<and>
           validCredentialIssueDecision issue e t \<and> validPreExecutionDecision pre e t \<and>
           boundedExecutionDeadline (ve_deadline v) e (dn_CredentialExpiresAt issue) t \<noteq> None)))"

definition made :: "kind \<Rightarrow> history \<Rightarrow> bool" where
  "made k h \<longleftrightarrow> k \<in> kind_of ` set h"

definition leased_to :: "LeaseIdentity \<Rightarrow> history \<Rightarrow> bool" where
  "leased_to f h \<longleftrightarrow> (\<exists>q c. Claimed q (Inr c) \<in> set h \<and> f = Fence (ca_Execution c))"

fun service_rule :: "service_ext \<Rightarrow> service_env \<Rightarrow> Service \<Rightarrow> rule" where
  "service_rule x v sv h (Verified e t r) = (r = Verify (vx_canon x) (vx_sha x) (vx_edverify x) (Some (ve_keys v h)) e t)"
| "service_rule x v sv h (Claimed q a) = (\<not> made KClaim h)"
| "service_rule x v sv h (Rejected q a) = (\<not> made KPrepare h \<and> leased_to (rj_Lease q) h)"
| "service_rule x v sv h (Nacked q a) = (\<not> made KPrepare h \<and> leased_to (nk_Lease q) h)"
| "service_rule x v sv h (Prepared q a) = (\<not> made KPrepare h \<and>
     (\<exists>scope c issue pre. gates_open v sv h scope c issue pre \<and> q = prepare_request scope c issue))"
| "service_rule x v sv h (Started f a) = (leased_to f h \<and> (\<exists>q p. Prepared q (Some p) \<in> set h))"
| "service_rule x v sv h (NoCredential p a) = (\<not> made KIssue h \<and> (\<exists>q. Prepared q (Some p) \<in> set h))"
| "service_rule x v sv h (Issued p a) = (\<not> made KIssue h \<and> \<not> made KNoCredential h \<and>
     (\<exists>q. Prepared q (Some p) \<in> set h) \<and> (\<exists>f ex. leased_to f h \<and> Started f (Inr ex) \<in> set h))"
| "service_rule x v sv h (Dispatched command cred) = (\<not> made KDispatch h \<and> \<not> made KComplete h \<and>
     (\<exists>scope c issue pre p ex t. gates_open v sv h scope c issue pre \<and>
        Prepared (prepare_request scope c issue) (Some p) \<in> set h \<and>
        Started (Fence (ca_Execution c)) (Inr ex) \<in> set h \<and> Issued p (Some cred) \<in> set h \<and>
        Clock t \<in> set h \<and>
        validDurableCredential cred (ca_Envelope c) (dn_CredentialExpiresAt issue) t \<and>
        dispatch_command (ca_Envelope c) = Some command))"
| "service_rule x v sv h (Completed q a) = (\<not> made KComplete h \<and> made KIssue h \<and>
     leased_to (ac_Lease q) h \<and> (\<exists>ex. Started (ac_Lease q) (Inr ex) \<in> set h))"
| "service_rule x v sv h (Revoking cred a) = (\<not> made KRevoke h \<and> made KComplete h \<and>
     (\<exists>p. Issued p (Some cred) \<in> set h))"
| "service_rule x v sv h (Finalized f a) = (\<not> made KFinalize h \<and>
     (\<exists>q ex. Completed q (Inr ex) \<in> set h \<and> ac_Lease q = f \<and>
        (\<forall>p cred. Issued p (Some cred) \<in> set h \<longrightarrow>
           (\<exists>r. Revoking cred (Some r) \<in> set h \<and>
              (Revocation_Terminal r \<or> ResultSummaryStatus (ac_Summary q) = Inr StatusUncertain)))))"
| "service_rule x v sv h _ = True"

text \<open>At the end, a prepared credential is recorded as never issued, failed to issue, or was handed to revocation.\<close>

definition credential_settled :: "history \<Rightarrow> bool" where
  "credential_settled h \<longleftrightarrow> (\<forall>q p. Prepared q (Some p) \<in> set h \<longrightarrow>
     (\<exists>a. NoCredential p a \<in> set h) \<or> Issued p None \<in> set h \<or>
     (\<exists>cred a. Issued p (Some cred) \<in> set h \<and> Revoking cred a \<in> set h))"

lemma unruled_service: "unruled (service_rule x v sv)"
  unfolding unruled_def by (intro allI impI; case_tac c) simp_all

lemma at_most_once:
  assumes "obeys R h" and "a \<in> set h" and "b \<in> set h" and "kind_of a = k" and "kind_of b = k"
    and rule: "\<And>pre c. R pre c \<Longrightarrow> kind_of c = k \<Longrightarrow> \<not> made k pre"
  shows "a = b"
  using assms(1-5)
proof (induction h rule: rev_induct)
  case (snoc c h)
  then have "obeys R h" "R h c" by simp_all
  have "\<not> made k h" if "kind_of c = k" using rule [OF \<open>R h c\<close> that] .
  then have "d \<notin> set h" if "kind_of c = k" "kind_of d = k" for d
    using that unfolding made_def by (metis imageI)
  with snoc show ?case by auto
qed simp

lemma service_once:
  assumes "obeys (service_rule x v sv) h" and "a \<in> set h" and "b \<in> set h" and "kind_of a = k" and "kind_of b = k"
    and "k \<in> {KClaim, KPrepare, KIssue, KDispatch, KComplete, KRevoke, KFinalize}"
  shows "a = b"
proof (rule at_most_once [OF assms(1-5)])
  fix pre c assume "service_rule x v sv pre c" "kind_of c = k"
  with assms(6) show "\<not> made k pre" by (cases c) auto
qed


section \<open>Every run follows the rules\<close>

lemma knowsD: "knows L K h \<Longrightarrow> c \<in> L \<Longrightarrow> c \<in> set h"
  by (auto simp: knows_def)

lemma knows_made: "knows L K h \<Longrightarrow> k \<notin> K \<Longrightarrow> \<not> made k h"
  by (auto simp: knows_def made_def)

lemma made_I: "c \<in> set h \<Longrightarrow> kind_of c = k \<Longrightarrow> made k h"
  by (auto simp: made_def)

abbreviation follows :: "service_ext \<Rightarrow> service_env \<Rightarrow> Service \<Rightarrow> event set \<Rightarrow> kind set \<Rightarrow> 'a run \<Rightarrow> bool" where
  "follows x v sv \<equiv> runs (service_rule x v sv) credential_settled"

lemma unprepared_settled: "knows L K h \<Longrightarrow> KPrepare \<notin> K \<Longrightarrow> credential_settled h"
  by (force simp: credential_settled_def knows_def)

lemma leased_toI: "knows L K h \<Longrightarrow> Claimed q (Inr c) \<in> L \<Longrightarrow> leased_to (Fence (ca_Execution c)) h"
  by (auto simp: leased_to_def dest: knowsD)

lemma follows_give_back:
  assumes "KPrepare \<notin> K" and "Claimed q (Inr claimed) \<in> L"
  shows "follows x v sv L K (rejectClaim x v claimed code cause)"
    and "follows x v sv L K (nackClaim x v claimed code cause)"
  using assms unfolding rejectClaim_def nackClaim_def Let_def
  by (auto intro!: runs_ask runs_ret leased_toI intro: unprepared_settled simp: knows_made)

lemma settledI:
  assumes "obeys (service_rule x v sv) h" and "Prepared q (Some p) \<in> set h"
    and "(\<exists>a. NoCredential p a \<in> set h) \<or> Issued p None \<in> set h \<or>
      (\<exists>cred a. Issued p (Some cred) \<in> set h \<and> Revoking cred a \<in> set h)"
  shows "credential_settled h"
  unfolding credential_settled_def
proof (intro allI impI)
  fix q' p' assume "Prepared q' (Some p') \<in> set h"
  with service_once [OF assms(1) this assms(2), of KPrepare] have "p' = p" by simp
  with assms(3) show "(\<exists>a. NoCredential p' a \<in> set h) \<or> Issued p' None \<in> set h \<or>
     (\<exists>cred a. Issued p' (Some cred) \<in> set h \<and> Revoking cred a \<in> set h)" by simp
qed

lemma finalize_allowed:
  assumes "obeys (service_rule x v sv) h" and "\<not> made KFinalize h"
    and "Completed q (Inr ex) \<in> set h" and "Issued p issued \<in> set h"
    and "\<And>cred. issued = Some cred \<Longrightarrow> \<exists>r. Revoking cred (Some r) \<in> set h \<and>
      (Revocation_Terminal r \<or> ResultSummaryStatus (ac_Summary q) = Inr StatusUncertain)"
  shows "service_rule x v sv h (Finalized (ac_Lease q) a)"
proof -
  have "issued = Some cred" if "Issued p' (Some cred) \<in> set h" for p' cred
    using service_once [OF assms(1) that assms(4), of KIssue] by simp
  with assms show ?thesis by auto
qed

text \<open>The last stage, for a credential that was issued or not.\<close>

lemma finalize_follows:
  assumes "KFinalize \<notin> K" and "Prepared q (Some p) \<in> L" and "Issued p issued \<in> L"
    and "Completed request (Inr ex) \<in> L" and "ac_Lease request = f"
    and "\<And>cred. issued = Some cred \<Longrightarrow> \<exists>r. Revoking cred (Some r) \<in> L \<and>
      (Revocation_Terminal r \<or> ResultSummaryStatus (ac_Summary request) = Inr StatusUncertain)"
  shows "follows x v sv L K (State_Monad.bind (ask (ve_finalize v f) (Finalized f)) (\<lambda>a. ret (k a)))"
proof (rule runs_ask, goal_cases)
  case (1 a h)
  note in_h = knowsD [OF 1(1)]
  have "service_rule x v sv h (Finalized (ac_Lease request) a)"
    using assms(6) by (intro finalize_allowed [OF 1(2) knows_made [OF 1(1) assms(1)] in_h [OF assms(4)] in_h [OF assms(3)]])
      (blast intro: in_h)
  with assms(5) show ?case by simp
next
  case (2 a)
  show ?case
  proof (rule runs_ret)
    fix h assume h: "knows (insert (Finalized f a) L) (insert (kind_of (Finalized f a)) K) h" "obeys (service_rule x v sv) h"
    note in_h = knowsD [OF h(1)]
    show "credential_settled h"
    proof (cases issued)
      case None
      then show ?thesis using assms(2,3) by (intro settledI [OF h(2) in_h [of "Prepared q (Some p)"]]) (auto intro: in_h)
    next
      case (Some cred)
      with assms(6) obtain r' where "Revoking cred (Some r') \<in> L" by blast
      with Some show ?thesis
        using assms(2,3) by (intro settledI [OF h(2) in_h [of "Prepared q (Some p)"]]) (auto intro: in_h)
    qed
  qed
qed

lemma settled_ret:
  assumes "Prepared q (Some p) \<in> L" and "Issued p issued \<in> L"
    and "\<And>cred. issued = Some cred \<Longrightarrow> \<exists>a. Revoking cred a \<in> L"
  shows "follows x v sv L K (ret b)"
proof (rule runs_ret)
  fix h assume h: "knows L K h" "obeys (service_rule x v sv) h"
  note in_h = knowsD [OF h(1)]
  show "credential_settled h"
    using assms by (cases issued; intro settledI [OF h(2) in_h [OF assms(1)]]) (auto intro: in_h)
qed

lemma finish_run_follows:
  assumes K: "KRead \<in> K" "KBeat \<in> K" "KComplete \<notin> K" "KRevoke \<notin> K" "KFinalize \<notin> K"
    and p: "Prepared q (Some p) \<in> L" and i: "Issued p issued \<in> L"
    and c: "Claimed r (Inr c) \<in> L" and st: "Started (Fence (ca_Execution c)) (Inr ex) \<in> L"
  shows "follows x v sv L K (finish_run v sv scope (Fence (ca_Execution c)) started issued result errs)"
proof -
  note quietly = runs_quiet [OF unruled_service]
  have acked: "quiet (case fin of Inl e \<Rightarrow> ret () | Inr e \<Rightarrow> AcknowledgeComplete)" for fin :: "exec_error + Execution"
    by (auto intro: quiet_intros split: sum.splits)
  show ?thesis
    unfolding finish_run_def Let_def
  proof (rule quietly [OF quiet_background K(1,2)], rule quietly [OF quiet_checkpoint K(1,2)],
      rule quietly [OF quiet_background K(1,2)], rule runs_ask, goal_cases)
    case (1 _ hb _ a h)
    have "made KIssue h" using knowsD [OF 1(1) i] by (rule made_I) simp
    with 1 K c st show ?case
      by (auto simp: knows_made intro: leased_toI dest: knowsD)
  next
    case (2 _ hb _ fin)
    let ?request = "\<lparr>ac_Lease = Fence (ca_Execution c), ac_Summary = snd (if hb = None then classifyResult result errs
        else classifyResult zero_ExecutorResult (joined hb))\<rparr>"
    let ?L = "insert (Completed ?request fin) L" and ?K = "insert KComplete K"
    have K': "KRead \<in> ?K" "KBeat \<in> ?K" using K by simp_all
    show ?case
      unfolding kind_of.simps
    proof (rule quietly [OF quiet_background K'], rule quietly [OF acked K'], rule quietly [OF quiet_Stop K'], goal_cases)
      case (1 _ _ se)
      show ?case
      proof (cases issued)
        case None
        with p i K show ?thesis
          by (auto simp: requestRevocation_def intro!: settled_ret finalize_follows [where request = ?request]
              split: sum.splits)
      next
        case (Some cred)
        have "follows x v sv (insert (Revoking cred a) ?L) (insert KRevoke ?K) (ret b)" for a and b :: "Execution \<times> svc_error list"
          using p i Some by (intro settled_ret [of q p _ issued]) auto
        moreover have "follows x v sv (insert (Revoking cred (Some r)) ?L) (insert KRevoke ?K)
            (State_Monad.bind (ask (ve_finalize v (Fence (ca_Execution c))) (Finalized (Fence (ca_Execution c)))) (\<lambda>a. ret (k a)))"
          if "Revocation_Terminal r \<or> ResultSummaryStatus (ac_Summary ?request) = Inr StatusUncertain" "fin = Inr ex'"
          for r ex' and k :: "exec_error + Execution \<Rightarrow> Execution \<times> svc_error list"
          using p i K Some that by (intro finalize_follows [of _ q p _ issued ?request ex']) auto
        ultimately show ?thesis
          unfolding Some requestRevocation_def option.case State_Monad.bind_assoc State_Monad.bind_left_identity
        proof (intro runs_ask, goal_cases)
          case (1 a h)
          have "made KComplete h" using knowsD [OF 1(3), of "Completed ?request fin"] by (rule made_I) simp_all
          with 1(3) i Some K show ?case by (auto simp: knows_made dest: knowsD)
        next
          case (2 a)
          then show ?case by (cases fin; cases a) (auto split: sum.splits)
        qed
      qed
    qed
  qed
qed


text \<open>Dispatching: the executor is called only under the rule, and whatever ends the wait, only reads follow.\<close>

lemma dispatch_follows:
  assumes K: "KRead \<in> K" "KBeat \<in> K"
    and allowed: "\<And>h command. knows L K h \<Longrightarrow> dispatch_command e = Some command \<Longrightarrow>
      service_rule x v sv h (Dispatched command cred)"
    and k: "\<And>a. follows x v sv L (insert KEnd (insert KDispatch K)) (k a)"
  shows "follows x v sv L K (State_Monad.bind (dispatchWithHeartbeat v sv scope lease e cred) k)"
proof -
  note quietly = runs_quiet [OF unruled_service]
  have waits: "follows x v sv L' K' (State_Monad.bind (background v sv scope lease) (\<lambda>_. State_Monad.bind (ask (ve_select v) Ended)
      (\<lambda>ended. State_Monad.bind (m ended) k)))"
    if "L \<subseteq> L'" "KRead \<in> K'" "KBeat \<in> K'" "insert KEnd K' \<subseteq> insert KEnd (insert KDispatch K)" "\<And>ended. quiet (m ended)"
    for L' K' and m :: "dispatch_end \<Rightarrow> (ExecutorResult \<times> svc_error list) run"
  proof (rule quietly [OF quiet_background that(2,3)], rule runs_ask, goal_cases)
    case (2 _ ended)
    show ?case
    proof (rule quietly [OF that(5)])
      fix a show "follows x v sv (insert (Ended ended) L') (insert (kind_of (Ended ended)) K') (k a)"
        using that(1,4) by (intro runs_mono [OF k]) auto
    qed (use that in auto)
  qed simp
  have ends: "quiet (case ended of
       ExecutorDone result \<Rightarrow> do {
         cancelled \<leftarrow> ask (ve_ctx v) CtxErr;
         failure \<leftarrow> Failure;
         ret (f result cancelled failure) }
     | HeartbeatsDone \<Rightarrow> do {
         failure \<leftarrow> Failure;
         case failure of Some err \<Rightarrow> ret (zero_ExecutorResult, [err]) | None \<Rightarrow> do {
           cancelled \<leftarrow> ask (ve_ctx v) CtxErr;
           ret (g cancelled) } }
     | ContextDone \<Rightarrow> do {
         cancelled \<leftarrow> ask (ve_ctx v) CtxErr;
         failure \<leftarrow> Failure;
         ret (h cancelled failure) })" for ended f g h
    by (auto intro!: quiet_intros split: dispatch_end.splits option.splits)
  show ?thesis
    unfolding dispatchWithHeartbeat_def State_Monad.bind_assoc
  proof (rule quietly [OF quiet_DispatchError K], goal_cases)
    case (1 stopped)
    show ?case
    proof (cases stopped)
      case (Some err)
      then show ?thesis by (simp add: runs_mono [OF k] subset_insertI2)
    next
      case None
      then show ?thesis
      proof (cases "dispatch_command e")
        case None
        with \<open>stopped = None\<close> show ?thesis
          by (simp add: dispatchSafely_def) (rule waits, use K ends in auto)
      next
        case (Some command)
        with \<open>stopped = None\<close> show ?thesis
          apply (simp add: dispatchSafely_def)
          apply (rule runs_ask)
          using allowed Some apply simp
          apply (rule waits)
          using K ends apply auto
          done
      qed
    qed
  qed
qed

lemma supervised_run_follows:
  assumes K: "KRead \<in> K" "KBeat \<in> K" "KIssue \<notin> K" "KNoCredential \<notin> K" "KDispatch \<notin> K" "KComplete \<notin> K" "KRevoke \<notin> K" "KFinalize \<notin> K"
    and gates: "\<And>h. L \<subseteq> set h \<Longrightarrow> gates_open v sv h scope c issue pre"
    and p: "Prepared (prepare_request scope c issue) (Some p) \<in> L"
    and c: "Claimed r (Inr c) \<in> L" and st: "Started (Fence (ca_Execution c)) (Inr ex) \<in> L"
  shows "follows x v sv L K (supervised_run v sv scope (Fence (ca_Execution c)) (ca_Envelope c) issue p started)"
proof -
  note quietly = runs_quiet [OF unruled_service]
  note finish = finish_run_follows [OF _ _ _ _ _ _ _ _, where q = "prepare_request scope c issue" and p = p and r = r and ex = ex]
  show ?thesis
    unfolding supervised_run_def
  proof (rule quietly [OF quiet_background K(1,2)], rule runs_ask, goal_cases)
    case (1 _ a h)
    with K p c st show ?case by (auto simp: knows_made intro: leased_toI dest: knowsD)
  next
    case (2 _ issued)
    let ?L = "insert (Issued p issued) L" and ?K = "insert KIssue K"
    have K': "KRead \<in> ?K" "KBeat \<in> ?K" "KComplete \<notin> ?K" "KRevoke \<notin> ?K" "KFinalize \<notin> ?K" using K by auto
    have fin: "follows x v sv L' K' (finish_run v sv scope (Fence (ca_Execution c)) started issued res errs)"
      if "?L \<subseteq> L'" "KRead \<in> K'" "KBeat \<in> K'" "KComplete \<notin> K'" "KRevoke \<notin> K'" "KFinalize \<notin> K'" for L' K' res errs
      using p c st that by (intro finish) auto
    show ?case
    proof (cases issued)
      case None
      with fin [of ?L ?K] K' show ?thesis by simp
    next
      case (Some cred)
      show ?thesis
        unfolding Some option.case kind_of.simps
      proof (rule quietly [OF quiet_background K'(1,2)], rule runs_read [OF unruled_service K'(1)], simp,
          rule runs_now [OF unruled_service K'(1)], goal_cases)
        case (1 _ loc)
        then show ?case using K' Some fin by (simp, intro fin [unfolded Some]) auto
      next
        case (2 _ loc t)
        let ?L2 = "insert (Clock t) (insert (LocalClock loc) ?L)"
        show ?case
        proof (cases "validDurableCredential cred (ca_Envelope c) (dn_CredentialExpiresAt issue) t")
          case False
          then show ?thesis using K' fin [unfolded Some, of ?L2] Some by (simp, intro fin [unfolded Some]) auto
        next
          case True
          have allowed: "service_rule x v sv h (Dispatched command cred)"
            if h: "knows ?L2 ?K h" and cmd: "dispatch_command (ca_Envelope c) = Some command" for h command
          proof -
            have "gates_open v sv h scope c issue pre" using h by (intro gates) (auto simp: knows_def)
            moreover have "\<not> made KDispatch h" "\<not> made KComplete h" using K by (simp_all add: knows_made [OF h])
            moreover have "Prepared (prepare_request scope c issue) (Some p) \<in> set h"
              "Started (Fence (ca_Execution c)) (Inr ex) \<in> set h" "Issued p (Some cred) \<in> set h" "Clock t \<in> set h"
              using p st Some by (auto intro: knowsD [OF h])
            ultimately show ?thesis
              using True cmd unfolding service_rule.simps by (intro conjI exI) assumption+
          qed
          have "follows x v sv ?L2 ?K (finish_run v sv scope (Fence (ca_Execution c)) started (Some cred) res errs)" for res errs
            using K' Some by (intro fin [unfolded Some]) auto
          moreover have "follows x v sv ?L2 ?K (State_Monad.bind (dispatchWithHeartbeat v sv scope (Fence (ca_Execution c))
              (ca_Envelope c) cred) (\<lambda>(res, errs). finish_run v sv scope (Fence (ca_Execution c)) started (Some cred) res errs))"
            using K' allowed Some by (intro dispatch_follows) (auto intro!: fin [unfolded Some] split: prod.splits)
          ultimately show ?thesis
            using True Some K' by (auto intro!: quietly quiet_intros split: option.splits)
        qed
      qed
    qed
  qed
qed


lemma abandon_follows:
  assumes "KIssue \<notin> K" and "Prepared q (Some p) \<in> L"
  shows "follows x v sv L K (abandon v p ex causes)"
  unfolding abandon_def recordNoCredential_def State_Monad.bind_assoc State_Monad.bind_left_identity
proof (rule runs_ask, goal_cases)
  case (1 a h)
  with assms show ?case by (auto simp: knows_made dest: knowsD)
next
  case (2 a)
  show ?case
  proof (rule runs_ret)
    fix h assume h: "knows (insert (NoCredential p a) L) (insert (kind_of (NoCredential p a)) K) h"
      "obeys (service_rule x v sv) h"
    show "credential_settled h"
      using assms(2) by (intro settledI [OF h(2) knowsD [OF h(1), of "Prepared q (Some p)"]]) (auto intro: knowsD [OF h(1)])
  qed
qed

lemma start_run_follows:
  assumes K: "KRead \<in> K" "KBeat \<in> K" "KStart \<notin> K" "KIssue \<notin> K" "KNoCredential \<notin> K" "KDispatch \<notin> K" "KComplete \<notin> K"
      "KRevoke \<notin> K" "KFinalize \<notin> K"
    and gates: "\<And>h. L \<subseteq> set h \<Longrightarrow> gates_open v sv h scope c issue pre"
    and p: "Prepared (prepare_request scope c issue) (Some p) \<in> L"
    and c: "Claimed r (Inr c) \<in> L"
  shows "follows x v sv L K (start_run v sv scope c issue deadline p)"
  unfolding start_run_def Let_def
proof (rule runs_ask, goal_cases)
  case (1 a h)
  with p c show ?case by (auto intro: leased_toI dest: knowsD)
next
  case (2 answer)
  let ?L = "insert (Started (Fence (ca_Execution c)) answer) L" and ?K = "insert KStart K"
  have K': "KRead \<in> ?K" "KBeat \<in> ?K" "KIssue \<notin> ?K" using K by auto
  have p': "Prepared (prepare_request scope c issue) (Some p) \<in> ?L" using p by simp
  show ?case
  proof (cases answer)
    case (Inl err)
    with abandon_follows [OF K'(3) p'] show ?thesis by simp
  next
    case (Inr started)
    have go: "follows x v sv L' ?K (supervised_run v sv scope (Fence (ca_Execution c)) (ca_Envelope c) issue p started)"
      if "?L \<subseteq> L'" for L'
      using that K p c Inr by (intro supervised_run_follows [of ?K L' v sv scope c issue pre p r]) (auto intro!: gates)
    have quit: "follows x v sv L' ?K (abandon v p ex causes)" if "?L \<subseteq> L'" for L' ex causes
      using that p' by (intro abandon_follows [OF K'(3)]) auto
    show ?thesis
      unfolding Inr sum.case kind_of.simps
    proof (rule runs_quiet [OF unruled_service quiet_heartbeatOnce K'(1,2)], goal_cases)
      case (1 beatErr)
      show ?case
      proof (cases beatErr)
        case (Some err)
        then show ?thesis by (simp add: quit [unfolded Inr] subset_insertI)
      next
        case None
        show ?thesis
          unfolding None option.case
        proof (rule runs_read [OF unruled_service K'(1)], simp, rule runs_now [OF unruled_service K'(1)], goal_cases)
          case (1 loc)
          then show ?case by (auto intro!: quit [unfolded Inr])
        next
          case (2 loc t)
          then show ?case
            using quit [unfolded Inr, of "insert (Clock t) (insert (LocalClock loc) (insert (Started (Fence (ca_Execution c)) (Inr started)) L))"]
              go [unfolded Inr, of "insert (Clock t) (insert (LocalClock loc) (insert (Started (Fence (ca_Execution c)) (Inr started)) L))"] K'
            by (auto intro!: runs_quiet [OF unruled_service quiet_startSession])
        qed
      qed
    qed
  qed
qed


text \<open>The calls before a stage that show the gates open so far.\<close>

definition scope_known :: "Service \<Rightarrow> event set \<Rightarrow> RunnerScope \<Rightarrow> ClaimedAction \<Rightarrow> bool" where
  "scope_known sv L scope c \<longleftrightarrow>
     (\<exists>registration. Registered (Some registration) \<in> L \<and> Scope registration = Inr scope) \<and>
     rs_pool scope = PoolWrite \<and> rs_runnerID scope = sv_runnerID sv \<and>
     (\<exists>snapshot t. Safety (claim_safety_request scope) (Some snapshot) \<in> L \<and> Clock t \<in> L \<and>
        safety_holds (claim_safety_request scope) snapshot t) \<and>
     Claimed \<lparr>acq_Scope = scope, acq_LeaseDuration = sv_leaseDuration sv\<rparr> (Inr c) \<in> L \<and>
     claim_consistent scope c"

definition envelope_known :: "event set \<Rightarrow> ClaimedAction \<Rightarrow> bool" where
  "envelope_known L c \<longleftrightarrow> (\<exists>t. Clock t \<in> L \<and> t \<noteq> 0 \<and> Verified (ca_Envelope c) t None \<in> L)"

lemma known_mono:
  "scope_known sv L scope c \<Longrightarrow> L \<subseteq> L' \<Longrightarrow> scope_known sv L' scope c"
  "envelope_known L c \<Longrightarrow> L \<subseteq> L' \<Longrightarrow> envelope_known L' c"
  unfolding scope_known_def envelope_known_def by blast+

lemma scope_known_claimed: "scope_known sv L scope c \<Longrightarrow> \<exists>q. Claimed q (Inr c) \<in> L"
  unfolding scope_known_def by blast

lemma gates_openI:
  assumes "scope_known sv L scope c" and "envelope_known L c" and "L \<subseteq> set h"
    and "Decided StageCredentialIssue (Some issue) \<in> L" and "Decided StagePreExecution (Some pre) \<in> L"
    and "samePolicySnapshot issue pre"
    and "Environment (en_WorkspaceID (ca_Envelope c)) (tr_EnvironmentID (en_Target (ca_Envelope c))) (Some env) \<in> L"
    and "Clock t1 \<in> L" and "environment_holds (ca_Envelope c) env t1"
    and "es_Revision env = ca_EnvironmentRevision c" and "es_Production env = ca_Production c"
    and "Safety (start_safety_request scope (ca_Envelope c)) (Some snapshot) \<in> L"
    and "cy_Revision snapshot = dn_SafetyRevision issue"
    and "Clock t2 \<in> L" and "safety_holds (start_safety_request scope (ca_Envelope c)) snapshot t2"
    and "Clock t3 \<in> L" and "t3 \<noteq> 0" and "service_fresh t3 (cy_ObservedAt snapshot) Service_MaxSafetySnapshotAge"
    and "validCredentialIssueDecision issue (ca_Envelope c) t3" and "validPreExecutionDecision pre (ca_Envelope c) t3"
    and "boundedExecutionDeadline (ve_deadline v) (ca_Envelope c) (dn_CredentialExpiresAt issue) t3 \<noteq> None"
  shows "gates_open v sv h scope c issue pre"
proof -
  have "\<exists>snapshot. Safety (start_safety_request scope (ca_Envelope c)) (Some snapshot) \<in> set h \<and>
       cy_Revision snapshot = dn_SafetyRevision issue \<and>
       (\<exists>t. Clock t \<in> set h \<and> safety_holds (start_safety_request scope (ca_Envelope c)) snapshot t) \<and>
       (\<exists>t. Clock t \<in> set h \<and> t \<noteq> 0 \<and> service_fresh t (cy_ObservedAt snapshot) Service_MaxSafetySnapshotAge \<and>
         validCredentialIssueDecision issue (ca_Envelope c) t \<and> validPreExecutionDecision pre (ca_Envelope c) t \<and>
         boundedExecutionDeadline (ve_deadline v) (ca_Envelope c) (dn_CredentialExpiresAt issue) t \<noteq> None)"
    using assms(3,12-21) by (intro exI [of _ snapshot] conjI exI [of _ t2] exI [of _ t3]) auto
  moreover have "\<exists>env t. Environment (en_WorkspaceID (ca_Envelope c)) (tr_EnvironmentID (en_Target (ca_Envelope c))) (Some env) \<in> set h \<and>
      Clock t \<in> set h \<and> environment_holds (ca_Envelope c) env t \<and>
      es_Revision env = ca_EnvironmentRevision c \<and> es_Production env = ca_Production c"
    using assms(3,7-11) by (intro exI [of _ env] exI [of _ t1]) auto
  ultimately show ?thesis
    using known_mono(1) [OF assms(1,3)] known_mono(2) [OF assms(2,3)] assms(3-6)
    unfolding gates_open_def Let_def scope_known_def envelope_known_def by auto
qed

text \<open>The kinds of call that may have been made before the credential is prepared.\<close>

abbreviation before_prepare :: "kind set" where "before_prepare \<equiv> {KRead, KBeat, KVerify, KClaim}"

lemma prepare_follows:
  assumes gates: "\<And>h. L \<subseteq> set h \<Longrightarrow> gates_open v sv h scope c issue pre" and claimed: "Claimed q (Inr c) \<in> L"
  shows "follows x v sv L before_prepare (State_Monad.bind
      (ask (ve_prepare v (prepare_request scope c issue)) (Prepared (prepare_request scope c issue)))
      (\<lambda>answer. case answer of None \<Rightarrow> ret (redactActionExecution (ca_Execution c), [Exec ErrCredentialDenied, BrokerErr])
        | Some prepared \<Rightarrow> start_run v sv scope c issue deadline prepared))"
proof (rule runs_ask, goal_cases)
  case (1 a h)
  then have "gates_open v sv h scope c issue pre" by (intro gates) (simp add: knows_def)
  then show ?case using knows_made [OF 1(1)] by auto
next
  case (2 answer)
  show ?case
  proof (cases answer)
    case None
    have "credential_settled h"
      if "obeys (service_rule x v sv) h" "Prepared (prepare_request scope c issue) None \<in> set h" for h
      using service_once [OF that(1) _ that(2), of "Prepared _ (Some _)" KPrepare] by (auto simp: credential_settled_def)
    with None show ?thesis by (auto intro!: runs_ret dest: knowsD [of _ _ _ "Prepared (prepare_request scope c issue) None"])
  next
    case (Some p)
    then show ?thesis
      using claimed by (simp, intro start_run_follows [where r = q and pre = pre]) (auto intro!: gates)
  qed
qed

lemma checked_run_follows:
  assumes "scope_known sv L scope c" and "envelope_known L c" and "Claimed q (Inr c) \<in> L"
    and "Decided StageCredentialIssue (Some issue) \<in> L" and "Decided StagePreExecution (Some pre) \<in> L"
    and "Environment (en_WorkspaceID (ca_Envelope c)) (tr_EnvironmentID (en_Target (ca_Envelope c))) (Some env) \<in> L"
    and "Clock t1 \<in> L" and "environment_holds (ca_Envelope c) env t1"
    and "es_Revision env = ca_EnvironmentRevision c" and "es_Production env = ca_Production c"
    and "Safety (start_safety_request scope (ca_Envelope c)) (Some snapshot) \<in> L"
    and "cy_Revision snapshot = dn_SafetyRevision issue"
    and "Clock t2 \<in> L" and "safety_holds (start_safety_request scope (ca_Envelope c)) snapshot t2"
    and "Clock t3 \<in> L" and "t3 \<noteq> 0"
  shows "follows x v sv L before_prepare
    (if \<not> service_fresh t3 (cy_ObservedAt snapshot) Service_MaxSafetySnapshotAge \<or>
        \<not> validPreExecutionDecision pre (ca_Envelope c) t3 \<or> \<not> validCredentialIssueDecision issue (ca_Envelope c) t3 \<or>
        \<not> samePolicySnapshot issue pre
     then nackClaim x v c code1 cause1
     else case boundedExecutionDeadline (ve_deadline v) (ca_Envelope c) (dn_CredentialExpiresAt issue) t3 of
       None \<Rightarrow> rejectClaim x v c code2 cause2
     | Some deadline \<Rightarrow> State_Monad.bind
        (ask (ve_prepare v (prepare_request scope c issue)) (Prepared (prepare_request scope c issue)))
        (\<lambda>answer. case answer of None \<Rightarrow> ret (redactActionExecution (ca_Execution c), [Exec ErrCredentialDenied, BrokerErr])
          | Some prepared \<Rightarrow> start_run v sv scope c issue deadline prepared))"
  (is "follows x v sv L before_prepare (if ?stale then _ else _)")
proof (cases ?stale)
  case True
  then show ?thesis using assms(3) by (simp add: follows_give_back [of before_prepare q c])
next
  case False
  show ?thesis
  proof (cases "boundedExecutionDeadline (ve_deadline v) (ca_Envelope c) (dn_CredentialExpiresAt issue) t3")
    case None
    with False show ?thesis using assms(3) by (simp add: follows_give_back [of before_prepare q c])
  next
    case (Some deadline)
    have "gates_open v sv h scope c issue pre" if "L \<subseteq> set h" for h
      using False Some assms(4-16)
      by (intro gates_openI [OF assms(1,2) that, of issue pre env t1 snapshot t2 t3 v]) auto
    from prepare_follows [OF this assms(3)] False Some show ?thesis by auto
  qed
qed

lemma gated_run_follows:
  assumes scope: "scope_known sv L scope c" and env: "envelope_known L c"
    and d: "Decided StageCredentialIssue (Some issue) \<in> L" "Decided StagePreExecution (Some pre) \<in> L"
  shows "follows x v sv L before_prepare (gated_run x v sv scope c issue pre)"
proof -
  obtain q where claimed: "Claimed q (Inr c) \<in> L" using scope_known_claimed [OF scope] by blast
  note give_back = follows_give_back [of before_prepare q c]
  show ?thesis
    unfolding gated_run_def Let_def
  proof (rule runs_safety [OF unruled_service], simp, goal_cases)
    case 1
    then show ?case using claimed by (simp add: give_back)
  next
    case (2 snapshot t2)
    show ?case
    proof (cases "cy_Revision snapshot \<noteq> dn_SafetyRevision pre \<or> cy_Revision snapshot \<noteq> dn_SafetyRevision issue")
      case True
      then show ?thesis using claimed by (simp add: give_back)
    next
      case same: False
      show ?thesis
        unfolding option.case if_not_P [OF same]
      proof (rule runs_environment [OF unruled_service], simp, goal_cases)
        case 1
        then show ?case using claimed by (simp add: give_back)
      next
        case env_ok: (2 env t1)
        show ?case
        proof (cases "es_Revision env \<noteq> ca_EnvironmentRevision c \<or> es_Production env \<noteq> ca_Production c")
          case True
          then show ?thesis using claimed by (simp add: give_back)
        next
          case False
          show ?thesis
            unfolding option.case if_not_P [OF False]
          proof (rule runs_now [OF unruled_service], simp, goal_cases)
            case 1
            then show ?case using claimed by (simp add: give_back)
          next
            case (2 t3)
            show ?case
              unfolding sum.case
              using claimed d 2 env_ok \<open>safety_holds _ _ _\<close> same False
              by (intro checked_run_follows [of sv _ scope c q issue pre env t1 snapshot t2 t3] known_mono(1) [OF scope]
                  known_mono(2) [OF env]) auto
          qed
        qed
      qed
    qed
  qed
qed


lemma decided_run_follows:
  assumes scope: "scope_known sv L scope c" and env: "envelope_known L c"
  shows "follows x v sv L before_prepare (decided_run x v sv scope c)"
proof -
  obtain q where claimed: "Claimed q (Inr c) \<in> L" using scope_known_claimed [OF scope] by blast
  have returned: "follows x v sv L' before_prepare (rejectClaim x v c code cause)"
    "follows x v sv L' before_prepare (nackClaim x v c code cause)" if "L \<subseteq> L'" for L' code cause
    using that claimed by (auto intro!: follows_give_back [of before_prepare q c])
  have cancelled: "follows x v sv L' before_prepare (State_Monad.bind (ask (ve_ctx v) CtxErr)
      (\<lambda>cancelled. case cancelled of Some e \<Rightarrow> nackClaim x v c code1 (SvcCtx e) | None \<Rightarrow> nackClaim x v c code2 cause2))"
    if "L \<subseteq> L'" for L' code1 code2 cause2
    using that by (intro runs_read [OF unruled_service]) (auto intro!: returned split: option.splits)
  show ?thesis
    unfolding decided_run_def Let_def
  proof (rule runs_read [OF unruled_service], simp, simp, goal_cases)
    case (1 issueAnswer)
    show ?case
    proof (cases issueAnswer)
      case None
      then show ?thesis using cancelled by (simp add: subset_insertI)
    next
      case (Some issue)
      show ?thesis
        unfolding Some option.case
      proof (rule runs_now [OF unruled_service], simp, goal_cases)
        case 1
        show ?case by (simp add: returned subset_insertI)
      next
        case (2 t)
        let ?L1 = "insert (Clock t) (insert (Decided StageCredentialIssue (Some issue)) L)"
        have grown: "L \<subseteq> ?L1" by blast
        show ?case
        proof (cases "validCredentialIssueDecision issue (ca_Envelope c) t")
          case False
          then show ?thesis using returned [OF grown] by simp
        next
          case True
          then have ok: "\<not> \<not> validCredentialIssueDecision issue (ca_Envelope c) t" by simp
          show ?thesis
            unfolding sum.case if_not_P [OF ok]
          proof (rule runs_read [OF unruled_service], simp, simp, goal_cases)
            case (1 preAnswer)
            have grown2: "L \<subseteq> insert (Decided StagePreExecution preAnswer) ?L1" using grown by blast
            show ?case
            proof (cases preAnswer)
              case None
              then show ?thesis using cancelled grown2 by simp
            next
              case (Some pre)
              show ?thesis
                unfolding Some option.case
                using grown2 Some
                by (auto intro!: runs_now [OF unruled_service] returned gated_run_follows known_mono(1) [OF scope]
                    known_mono(2) [OF env])
            qed
          qed
        qed
      qed
    qed
  qed
qed

lemma claimed_run_follows:
  assumes scope: "claim_consistent scope c \<Longrightarrow> scope_known sv L scope c" and claimed: "Claimed q (Inr c) \<in> L"
  shows "follows x v sv L before_prepare (claimed_run x v sv scope c)"
proof (cases "claim_consistent scope c")
  case False
  then show ?thesis by (simp add: claimed_run_def Let_def runs_ret unprepared_settled)
next
  case True
  have returned: "follows x v sv L' before_prepare (rejectClaim x v c code cause)"
    "follows x v sv L' before_prepare (nackClaim x v c code cause)" if "L \<subseteq> L'" for L' code cause
    using that claimed by (auto intro!: follows_give_back [of before_prepare q c])
  from True have ok: "\<not> \<not> claim_consistent scope c" by simp
  show ?thesis
    unfolding claimed_run_def Let_def if_not_P [OF ok]
  proof (rule runs_now [OF unruled_service], simp, goal_cases)
    case 1
    show ?case by (simp add: returned)
  next
    case (2 t)
    show ?case
      unfolding sum.case
    proof (rule runs_verify, simp, goal_cases)
      case (1 invalid)
      let ?L1 = "insert (Verified (ca_Envelope c) t invalid) (insert (Clock t) L)"
      have env: "envelope_known ?L1 c" if "invalid = None" using that 2 by (auto simp: envelope_known_def)
      have go: "follows x v sv L' before_prepare (decided_run x v sv scope c)" if "invalid = None" "?L1 \<subseteq> L'" for L'
        using that by (intro decided_run_follows known_mono(1) [OF scope [OF True]] known_mono(2) [OF env]) auto
      have K: "insert KVerify before_prepare = before_prepare" by blast
      show ?case
        unfolding K by (auto intro!: returned runs_environment [OF unruled_service] go split: option.splits)
    qed
  qed
qed

lemma RunNext_follows: "follows x v sv {} {KRead, KBeat} (RunNext x v sv)"
  unfolding RunNext_def Let_def
proof (rule runs_scope [OF unruled_service], simp, goal_cases)
  case 1
  show ?case by (simp add: runs_ret unprepared_settled)
next
  case scope: (2 registration scope)
  show ?case
    unfolding option.case
  proof (rule runs_safety [OF unruled_service], simp, goal_cases)
    case 1
    show ?case by (simp add: runs_ret unprepared_settled)
  next
    case safety: (2 snapshot t)
    show ?case
      unfolding option.case
    proof (rule runs_ask, goal_cases)
      case (1 a h)
      then show ?case by (simp add: knows_made)
    next
      case (2 answer)
      show ?case
      proof (cases answer)
        case (Inl err)
        then show ?thesis by (auto intro!: runs_ret unprepared_settled)
      next
        case (Inr c)
        let ?L = "insert (Claimed \<lparr>acq_Scope = scope, acq_LeaseDuration = sv_leaseDuration sv\<rparr> (Inr c)) (insert (Clock t)
          (insert (Safety (claim_safety_request scope) (Some snapshot)) {Registered (Some registration)}))"
        have "scope_known sv ?L scope c" if "claim_consistent scope c"
          unfolding scope_known_def using that scope safety by blast
        then have "follows x v sv ?L before_prepare (claimed_run x v sv scope c)" by (rule claimed_run_follows) (assumption, rule insertI1)
        with Inr show ?thesis by (auto intro: runs_mono)
      qed
    qed
  qed
qed

lemma RunNext_history:
  assumes "run_state (RunNext x v sv) new_run = (result, s)"
  shows "obeys (service_rule x v sv) (rn_log s) \<and> credential_settled (rn_log s)"
  using RunNext_follows [of x v sv] assms by (auto simp: runs_def knows_def new_run_def dest!: spec [of _ new_run])

lemma RunNext_call:
  assumes "run_state (RunNext x v sv) new_run = (result, s)" and "rn_log s = h @ call # later"
  shows "service_rule x v sv h call"
  using RunNext_history [OF assms(1)] assms(2) by (auto simp: obeys_def)


section \<open>A concrete run\<close>

text \<open>The plan of \<open>Policy_Engine\<close>, claimed by a write runner whose dependencies all agree.\<close>

definition sd_registration :: RunnerRegistration where
  "sd_registration = \<lparr>rr_RunnerID = ''r1'', rr_TenantID = ''t1'', rr_Pool = PoolWrite, rr_Enabled = True,
     rr_ScopeRevision = 3, rr_MaxConcurrency = 1,
     rr_ScopeBindings = [\<lparr>rb_WorkspaceID = ''ws-1'', rb_EnvironmentID = ''env-1''\<rparr>]\<rparr>"

definition sd_scope :: RunnerScope where
  "sd_scope = \<lparr>rs_runnerID = ''r1'', rs_tenantID = ''t1'', rs_pool = PoolWrite, rs_scopeRevision = 3,
     rs_maxConcurrency = 1, rs_bindings = [\<lparr>rb_WorkspaceID = ''ws-1'', rb_EnvironmentID = ''env-1''\<rparr>]\<rparr>"

definition sd_leased :: Execution where
  "sd_leased = zero_Execution\<lparr>ex_ExecutionID := ''act-1'', ex_TargetKey := ''k'', ex_Pool := PoolWrite,
     ex_Status := StatusLeased, ex_RunnerID := ''r1'', ex_RunnerTenantID := ''t1'', ex_RunnerWorkspaceID := ''ws-1'',
     ex_RunnerEnvironmentID := ''env-1'', ex_ScopeRevision := 3, ex_LeaseToken := ''tok'', ex_LeaseEpoch := 1\<rparr>"

definition sd_claimed :: ClaimedAction where
  "sd_claimed = \<lparr>ca_Execution = sd_leased, ca_Envelope = pl_envelope, ca_PlanHash = demo_hash, ca_TargetKey = ''k'',
     ca_EnvironmentRevision = ''e1'', ca_Production = False\<rparr>"

definition sd_decision :: "Stage \<Rightarrow> Decision" where
  "sd_decision stage = \<lparr>dn_Outcome = OutcomeAllow, dn_PolicyVersion = df_Version pl_definition, dn_Stage = stage,
     dn_PlanHash = demo_hash, dn_ReasonCodes = [], dn_SafetyRevision = ''s1'', dn_TargetRevision = ''t1'',
     dn_RiskRevision = ''r1'', dn_LimitsRevision = ''l1'', dn_EvaluatedAt = 5000,
     dn_CredentialExpiresAt = (if stage = StageCredentialIssue then 5000 + 600 * Second else 0)\<rparr>"

definition sd_snapshot :: "SafetyRequest \<Rightarrow> ClaimSafetySnapshot" where
  "sd_snapshot q = \<lparr>cy_Enabled = True, cy_Pool = sq_Pool q, cy_RunnerID = sq_RunnerID q, cy_WorkspaceID = sq_WorkspaceID q,
     cy_EnvironmentID = sq_EnvironmentID q, cy_ConnectorID = sq_ConnectorID q, cy_ActionType = sq_ActionType q,
     cy_Revision = ''s1'', cy_ObservedAt = 4000\<rparr>"

definition sd_environment :: EnvironmentSnapshot where
  "sd_environment = \<lparr>es_WorkspaceID = ''ws-1'', es_EnvironmentID = ''env-1'', es_Production = False,
     es_Revision = ''e1'', es_ObservedAt = 4000\<rparr>"

definition sd_credential :: DurableCredential where
  "sd_credential = \<lparr>dc_revocationID = ''11111111-1111-4111-8111-111111111111'', dc_secret = ''s3cret'',
     dc_expiresAt = 5000 + 500 * Second\<rparr>"

definition sd_revocation :: Revocation where
  "sd_revocation = \<lparr>rv_ID = ''11111111-1111-4111-8111-111111111111'', rv_TenantID = ''t1'', rv_WorkspaceID = ''ws-1'',
     rv_EnvironmentID = ''env-1'', rv_ActionID = ''act-1'', rv_TargetKey = ''k'', rv_Production = False,
     rv_RunnerID = ''r1'', rv_ActionLeaseEpoch = 1, rv_Issuer = ''i'', rv_IssuerRevision = ''1'',
     rv_ActionType = ''K8S_SCALE'', rv_ConnectorID = ''k8s'', rv_Permission = '''', rv_Resource = '''',
     rv_CredentialTTLSeconds = 600, rv_CredentialExpiresAt = 5000 + 500 * Second, rv_Status = StatusRevoked,
     rv_AccessorPresent = False, rv_AccessorHMAC = '''', rv_EncryptionKeyID = '''', rv_ClaimEpoch = 1,
     rv_ClaimedBy = '''', rv_ClaimedAt = 0, rv_ClaimExpiresAt = 0, rv_LastHeartbeatAt = 0, rv_Attempt = 1,
     rv_FailureCount = 0, rv_FailureCode = FailureRaw '''', rv_FailureDetailSHA256 = '''', rv_AvailableAt = 0,
     rv_EvidenceHash = '''', rv_CreatedAt = 4000, rv_UpdatedAt = 5000, rv_AnchoredAt = 4000, rv_ActivatedAt = 4000,
     rv_RevocationRequestedAt = 5000, rv_ManualRequiredAt = 0, rv_RevokedAt = 5000, rv_Version = 5\<rparr>"

definition sd_prepared :: PreparedDurableCredential where
  "sd_prepared = \<lparr>pc_revocationID = ''11111111-1111-4111-8111-111111111111'', pc_state = 0\<rparr>"

definition sd_result :: ExecutorResult where
  "sd_result = \<lparr>er_Outcome = ExecutorSucceeded, er_Code = ''SCALED'', er_Verification = VerificationPassed,
     er_Changed = True, er_ExternalOperationRefHash = ''''\<rparr>"

definition sd_env :: service_env where
  "sd_env = \<lparr>ve_clock = (\<lambda>_. 5000), ve_local = (\<lambda>_. 5000), ve_ctx = (\<lambda>_. None), ve_deadline = None,
     ve_keys = (\<lambda>_. RotatingKeySet_Resolve None [(''k1'', demo_record)]), ve_registration = (\<lambda>_. Some sd_registration),
     ve_safety = (\<lambda>q _. Some (sd_snapshot q)), ve_environment = (\<lambda>_. Some sd_environment),
     ve_decision = (\<lambda>stage _. Some (sd_decision stage)), ve_claim = (\<lambda>_ _. Inr sd_claimed),
     ve_submit = (\<lambda>_ _. Inr zero_Execution), ve_reject = (\<lambda>_ _. Inr zero_Execution), ve_nack = (\<lambda>_ _. Inr zero_Execution),
     ve_start = (\<lambda>_ _. Inr (sd_leased\<lparr>ex_Status := StatusRunning\<rparr>)),
     ve_heartbeat = (\<lambda>_ _. Inr \<lparr>ahr_Execution = sd_leased\<lparr>ex_Status := StatusRunning\<rparr>, ahr_Directive = HeartbeatContinue\<rparr>),
     ve_complete = (\<lambda>_ _. Inr (sd_leased\<lparr>ex_Status := StatusFinalizing\<rparr>)),
     ve_finalize = (\<lambda>_ _. Inr (sd_leased\<lparr>ex_Status := StatusSucceeded\<rparr>)),
     ve_prepare = (\<lambda>_ _. Some sd_prepared), ve_issue = (\<lambda>_ _. Some sd_credential),
     ve_no_credential = (\<lambda>_ _. None), ve_revoke = (\<lambda>_ _. Some sd_revocation),
     ve_select = (\<lambda>_. ExecutorDone (Some sd_result)), ve_beats = (\<lambda>_. 0)\<rparr>"

definition sd_ext :: service_ext where
  "sd_ext = \<lparr>vx_canon = pl_canon, vx_sha = (\<lambda>_. demo_hash), vx_edverify = (\<lambda>_ m s. s = demo_sign '''' m)\<rparr>"

definition sd_service :: Service where
  "sd_service = \<lparr>sv_runnerID = ''r1'', sv_leaseDuration = 30 * Second, sv_heartbeatInterval = 10 * Second,
     sv_finalizeTimeout = 5 * Second\<rparr>"

lemma sd_scope: "Scope sd_registration = Inr sd_scope"
  by code_simp

lemma sd_checks:
  "safety_holds (claim_safety_request sd_scope) (sd_snapshot (claim_safety_request sd_scope)) 5000"
  "safety_holds (start_safety_request sd_scope pl_envelope) (sd_snapshot (start_safety_request sd_scope pl_envelope)) 5000"
  "environment_holds pl_envelope sd_environment 5000"
  "service_fresh 5000 4000 Service_MaxSafetySnapshotAge"
proof -
  have "validIdentifier ''s1'' 256" and fresh: "service_fresh 5000 4000 Service_MaxSafetySnapshotAge" by code_simp+
  then show "safety_holds (claim_safety_request sd_scope) (sd_snapshot (claim_safety_request sd_scope)) 5000"
    "safety_holds (start_safety_request sd_scope pl_envelope) (sd_snapshot (start_safety_request sd_scope pl_envelope)) 5000"
    by (simp_all add: safety_holds_def claim_safety_request_def start_safety_request_def sd_snapshot_def)
  have "validIdentifier ''e1'' 256" "service_fresh 5000 4000 MaxEnvironmentSnapshotAge" by code_simp+
  then show "environment_holds pl_envelope sd_environment 5000"
    by (simp add: environment_holds_def sd_environment_def pl_fields) (simp add: demo_plan_def)
  show "service_fresh 5000 4000 Service_MaxSafetySnapshotAge" by (rule fresh)
qed

lemma sd_consistent: "claim_consistent sd_scope sd_claimed"
  by (simp add: claim_consistent_def sd_claimed_def sd_leased_def sd_scope_def pl_fields pl_sealed_by allows_def zero_Execution_def)
    (simp add: demo_plan_def)

lemma sd_decisions:
  "validCredentialIssueDecision (sd_decision StageCredentialIssue) pl_envelope 5000"
  "validPreExecutionDecision (sd_decision StagePreExecution) pl_envelope 5000"
  "samePolicySnapshot (sd_decision StageCredentialIssue) (sd_decision StagePreExecution)"
  "boundedExecutionDeadline None pl_envelope (5000 + 600 * Second) 5000 = Some (5000 + 300 * Second)"
proof -
  have demo: "cs_TTLSeconds (en_CredentialScope demo_plan) = 600" "en_Verification pl_envelope = en_Verification demo_plan"
    "vp_TimeoutSeconds (en_Verification demo_plan) = 300"
    by (simp_all add: pl_plan_fields)
  show "validCredentialIssueDecision (sd_decision StageCredentialIssue) pl_envelope 5000"
    "validPreExecutionDecision (sd_decision StagePreExecution) pl_envelope 5000"
    "samePolicySnapshot (sd_decision StageCredentialIssue) (sd_decision StagePreExecution)"
    "boundedExecutionDeadline None pl_envelope (5000 + 600 * Second) 5000 = Some (5000 + 300 * Second)"
    by (simp_all add: validCredentialIssueDecision_def validPreExecutionDecision_def samePolicySnapshot_def sd_decision_def
        boundedExecutionDeadline_def pl_fields pl_sealed_by demo ValidateAt_def pl_valid maximumClockSkew_def
        MaxPreExecutionDecisionAge_def time_Sub_def go_defs Let_def)
qed

lemma sd_credential_ok:
  "validDurableCredential sd_credential pl_envelope (5000 + 600 * Second) 5000"
  "mappedExecutionDeadline (dc_expiresAt sd_credential) 5000 5000 \<noteq> None"
  "mappedExecutionDeadline (5000 + 300 * Second) 5000 5000 \<noteq> None"
proof -
  have "ValidRevocationID ''11111111-1111-4111-8111-111111111111''" by code_simp
  then show "validDurableCredential sd_credential pl_envelope (5000 + 600 * Second) 5000"
    by (simp add: validDurableCredential_def sd_credential_def MaxSensitiveValueSize_def pl_sealed_by)
qed code_simp+

definition sd_command :: command where
  "sd_command = ExecuteScale \<lparr>kc_Identity = command_identity pl_envelope,
     kc_Target = the (tr_KubernetesDeployment (en_Target demo_plan)),
     kc_Parameters = the (ap_KubernetesScale (en_Parameters demo_plan)),
     kc_ObservedState = the (os_KubernetesDeployment (en_ObservedState demo_plan)),
     kc_Preconditions = en_Preconditions pl_envelope, kc_Verification = en_Verification pl_envelope\<rparr>"

lemma sd_dispatches: "dispatch_command pl_envelope = Some sd_command"
  by (simp add: dispatch_command_def pl_fields sd_command_def) (simp add: demo_plan_def)

lemma run_ask [simp]: "run_state (ask answer call) s = (answer (rn_log s), s\<lparr>rn_log := rn_log s @ [call (answer (rn_log s))]\<rparr>)"
  by (simp add: ask_def Let_def)

lemma run_update [simp]: "run_state (State_Monad.update f) s = ((), f s)"
  by (simp add: State_Monad.update_def)

lemma sd_answers [simp]:
  "ve_clock sd_env h = 5000" "ve_local sd_env h = 5000" "ve_ctx sd_env h = None" "ve_deadline sd_env = None"
  "ve_keys sd_env h = RotatingKeySet_Resolve None [(''k1'', demo_record)]"
  "ve_registration sd_env h = Some sd_registration" "ve_safety sd_env q h = Some (sd_snapshot q)"
  "ve_environment sd_env h = Some sd_environment" "ve_decision sd_env stage h = Some (sd_decision stage)"
  "ve_claim sd_env cq h = Inr sd_claimed" "ve_start sd_env f h = Inr (sd_leased\<lparr>ex_Status := StatusRunning\<rparr>)"
  "ve_heartbeat sd_env hq h = Inr \<lparr>ahr_Execution = sd_leased\<lparr>ex_Status := StatusRunning\<rparr>, ahr_Directive = HeartbeatContinue\<rparr>"
  "ve_complete sd_env cr h = Inr (sd_leased\<lparr>ex_Status := StatusFinalizing\<rparr>)"
  "ve_finalize sd_env f h = Inr (sd_leased\<lparr>ex_Status := StatusSucceeded\<rparr>)"
  "ve_prepare sd_env pq h = Some sd_prepared" "ve_issue sd_env p h = Some sd_credential"
  "ve_revoke sd_env c h = Some sd_revocation" "ve_select sd_env h = ExecutorDone (Some sd_result)" "ve_beats sd_env h = 0"
  by (simp_all add: sd_env_def)

lemma sd_background [simp]: "run_state (background sd_env sv scope lease) s = ((), s)"
  by (simp add: background_def)

lemma sd_reads [simp]:
  "run_state (service_now sd_env) s = (Inr 5000, s\<lparr>rn_log := rn_log s @ [Clock 5000]\<rparr>)"
  "run_state (resolveRunnerScope sd_env sd_service) s =
     (Some sd_scope, s\<lparr>rn_log := rn_log s @ [Registered (Some sd_registration)]\<rparr>)"
  "run_state (verify_envelope sd_ext sd_env pl_envelope 5000) s =
     (None, s\<lparr>rn_log := rn_log s @ [Verified pl_envelope 5000 None]\<rparr>)"
  using pl_verified
  by (simp_all add: service_now_def resolveRunnerScope_def verify_envelope_def sd_ext_def sd_scope)
    (simp_all add: sd_scope_def sd_service_def)

lemma sd_snapshot_reads [simp]:
  "run_state (resolveEnvironment sd_env pl_envelope) s =
     (Some sd_environment, s\<lparr>rn_log := rn_log s @ [Environment (en_WorkspaceID pl_envelope)
        (tr_EnvironmentID (en_Target pl_envelope)) (Some sd_environment), Clock 5000]\<rparr>)"
  "run_state (checkSafety sd_env (claim_safety_request sd_scope)) s =
     (Some (sd_snapshot (claim_safety_request sd_scope)), s\<lparr>rn_log := rn_log s @
        [Safety (claim_safety_request sd_scope) (Some (sd_snapshot (claim_safety_request sd_scope))), Clock 5000]\<rparr>)"
  "run_state (checkSafety sd_env (start_safety_request sd_scope pl_envelope)) s =
     (Some (sd_snapshot (start_safety_request sd_scope pl_envelope)), s\<lparr>rn_log := rn_log s @
        [Safety (start_safety_request sd_scope pl_envelope) (Some (sd_snapshot (start_safety_request sd_scope pl_envelope))),
         Clock 5000]\<rparr>)"
  by (simp_all add: checkSafety_def resolveEnvironment_def sd_checks)

abbreviation sd_beat :: "int \<Rightarrow> event" where
  "sd_beat n \<equiv> Beat \<lparr>ah_Lease = Fence sd_leased, ah_Sequence = n, ah_Extension = 30 * Second\<rparr>
     (Inr \<lparr>ahr_Execution = sd_leased\<lparr>ex_Status := StatusRunning\<rparr>, ahr_Directive = HeartbeatContinue\<rparr>)"

lemma sd_heartbeat [simp]:
  "run_state (heartbeatOnce sd_env sd_service sd_scope (Fence sd_leased) n) s =
     (None, s\<lparr>rn_log := rn_log s @ [Registered (Some sd_registration), sd_beat n]\<rparr>)"
proof -
  have "sv_leaseDuration sd_service = 30 * Second" by (simp add: sd_service_def)
  moreover have "beat_accepted sd_scope (Fence sd_leased) (Inr \<lparr>ahr_Execution = sd_leased\<lparr>ex_Status := StatusRunning\<rparr>,
      ahr_Directive = HeartbeatContinue\<rparr>)"
    by (simp add: beat_accepted_def Fence_def sd_leased_def sd_scope_def)
  ultimately show ?thesis by (simp add: heartbeatOnce_def Let_def)
qed

lemma sd_dispatch_ok [simp]:
  "rn_failure s = None \<Longrightarrow> run_state (DispatchError sd_env) s = (None, s\<lparr>rn_log := rn_log s @ [CtxErr None]\<rparr>)"
  by (simp add: DispatchError_def)

lemma sd_checkpoint [simp]:
  "rn_failure s = None \<Longrightarrow> run_state (checkpoint sd_env sd_service sd_scope (Fence sd_leased)) s =
     (None, s\<lparr>rn_log := rn_log s @ [CtxErr None, Registered (Some sd_registration), sd_beat (rn_nextSequence s)],
        rn_nextSequence := wrap64 (rn_nextSequence s + 1)\<rparr>)"
  by (simp add: checkpoint_def)

lemma sd_dispatch [simp]:
  "rn_failure s = None \<Longrightarrow>
   run_state (dispatchWithHeartbeat sd_env sd_service sd_scope (Fence sd_leased) pl_envelope sd_credential) s =
     ((sd_result, []), s\<lparr>rn_log := rn_log s @ [CtxErr None, Dispatched sd_command sd_credential,
        Ended (ExecutorDone (Some sd_result)), CtxErr None]\<rparr>)"
  by (simp add: dispatchWithHeartbeat_def dispatchSafely_def sd_dispatches Failure_def)

definition sd_complete :: ActionCompleteRequest where
  "sd_complete = \<lparr>ac_Lease = Fence sd_leased, ac_Summary = sd_result\<rparr>"

definition sd_tail :: "int \<Rightarrow> history" where
  "sd_tail n = [CtxErr None, Registered (Some sd_registration), sd_beat n,
     Completed sd_complete (Inr (sd_leased\<lparr>ex_Status := StatusFinalizing\<rparr>)), Revoking sd_credential (Some sd_revocation),
     Finalized (Fence sd_leased) (Inr (sd_leased\<lparr>ex_Status := StatusSucceeded\<rparr>))]"

lemma sd_finish [simp]:
  assumes "rn_failure s = None"
  shows "run_state (finish_run sd_env sd_service sd_scope (Fence sd_leased) started (Some sd_credential) sd_result []) s =
     ((sd_leased\<lparr>ex_Status := StatusSucceeded\<rparr>, []),
      s\<lparr>rn_log := rn_log s @ sd_tail (rn_nextSequence s), rn_nextSequence := wrap64 (rn_nextSequence s + 1),
        rn_completeAcked := True\<rparr>)"
proof -
  have "validExecutorResult sd_result" by code_simp
  then have "snd (classifyResult sd_result []) = sd_result" "ResultSummaryStatus sd_result = Inr StatusSucceeded"
    by (simp_all add: classifyResult_def ResultSummaryStatus_def sd_result_def)
  moreover have "Revocation_Terminal sd_revocation" by (simp add: Revocation_Terminal_def sd_revocation_def)
  ultimately show ?thesis
    using assms
    by (simp add: finish_run_def Stop_def Let_def AcknowledgeComplete_def Failure_def requestRevocation_def sd_complete_def sd_tail_def)
qed

lemma sd_supervised:
  assumes "rn_failure s = None"
  shows "\<exists>s'. run_state (supervised_run sd_env sd_service sd_scope (Fence sd_leased) pl_envelope
      (sd_decision StageCredentialIssue) sd_prepared started) s = ((sd_leased\<lparr>ex_Status := StatusSucceeded\<rparr>, []), s') \<and>
    rn_log s' = rn_log s @ [Issued sd_prepared (Some sd_credential), LocalClock 5000, Clock 5000, CtxErr None,
       Registered (Some sd_registration), sd_beat (rn_nextSequence s), CtxErr None, Dispatched sd_command sd_credential,
       Ended (ExecutorDone (Some sd_result)), CtxErr None] @ sd_tail (wrap64 (rn_nextSequence s + 1))"
proof -
  have "dn_CredentialExpiresAt (sd_decision StageCredentialIssue) = 5000 + 600 * Second" by (simp add: sd_decision_def)
  with assms sd_credential_ok(1,2) show ?thesis by (auto simp: supervised_run_def)
qed


lemma sd_started:
  "\<exists>s'. run_state (start_run sd_env sd_service sd_scope sd_claimed (sd_decision StageCredentialIssue) (5000 + 300 * Second)
      sd_prepared) s = ((sd_leased\<lparr>ex_Status := StatusSucceeded\<rparr>, []), s') \<and>
    rn_log s' = rn_log s @ [Started (Fence sd_leased) (Inr (sd_leased\<lparr>ex_Status := StatusRunning\<rparr>)),
      Registered (Some sd_registration), sd_beat 1, LocalClock 5000, Clock 5000,
      Issued sd_prepared (Some sd_credential), LocalClock 5000, Clock 5000, CtxErr None,
      Registered (Some sd_registration), sd_beat 2, CtxErr None, Dispatched sd_command sd_credential,
      Ended (ExecutorDone (Some sd_result)), CtxErr None] @ sd_tail 3"
proof -
  let ?s = "s\<lparr>rn_log := rn_log s @ [Started (Fence sd_leased) (Inr (sd_leased\<lparr>ex_Status := StatusRunning\<rparr>)),
      Registered (Some sd_registration), sd_beat 1, LocalClock 5000, Clock 5000], rn_failure := None, rn_completeAcked := False,
      rn_nextSequence := 2, rn_done := False\<rparr>"
  have claimed: "ca_Execution sd_claimed = sd_leased" "ca_Envelope sd_claimed = pl_envelope" by (simp_all add: sd_claimed_def)
  have three: "wrap64 3 = 3" by code_simp
  from sd_credential_ok(3) claimed have
    "run_state (start_run sd_env sd_service sd_scope sd_claimed (sd_decision StageCredentialIssue) (5000 + 300 * Second)
      sd_prepared) s = run_state (supervised_run sd_env sd_service sd_scope (Fence sd_leased) pl_envelope
      (sd_decision StageCredentialIssue) sd_prepared (sd_leased\<lparr>ex_Status := StatusRunning\<rparr>)) ?s"
    by (auto simp: start_run_def Let_def startHeartbeatSession_def)
  with sd_supervised [of ?s "sd_leased\<lparr>ex_Status := StatusRunning\<rparr>"] show ?thesis by (simp add: three)
qed

abbreviation sd_request :: PrepareDurableCredentialRequest where
  "sd_request \<equiv> prepare_request sd_scope sd_claimed (sd_decision StageCredentialIssue)"

lemma sd_gated:
  "\<exists>s' h. run_state (gated_run sd_ext sd_env sd_service sd_scope sd_claimed (sd_decision StageCredentialIssue)
      (sd_decision StagePreExecution)) s = ((sd_leased\<lparr>ex_Status := StatusSucceeded\<rparr>, []), s') \<and>
    rn_log s' = h @ [Prepared sd_request (Some sd_prepared),
      Started (Fence sd_leased) (Inr (sd_leased\<lparr>ex_Status := StatusRunning\<rparr>)),
      Registered (Some sd_registration), sd_beat 1, LocalClock 5000, Clock 5000,
      Issued sd_prepared (Some sd_credential), LocalClock 5000, Clock 5000, CtxErr None,
      Registered (Some sd_registration), sd_beat 2, CtxErr None, Dispatched sd_command sd_credential,
      Ended (ExecutorDone (Some sd_result)), CtxErr None] @ sd_tail 3"
proof -
  have claimed: "ca_Execution sd_claimed = sd_leased" "ca_Envelope sd_claimed = pl_envelope"
    "ca_EnvironmentRevision sd_claimed = es_Revision sd_environment" "ca_Production sd_claimed = es_Production sd_environment"
    by (simp_all add: sd_claimed_def sd_environment_def)
  have fields: "cy_Revision (sd_snapshot q) = ''s1''" "cy_ObservedAt (sd_snapshot q) = 4000"
    "dn_SafetyRevision (sd_decision stage) = ''s1''"
    "dn_CredentialExpiresAt (sd_decision StageCredentialIssue) = 5000 + 600 * Second" for q stage
    by (simp_all add: sd_snapshot_def sd_decision_def)
  have deadline: "boundedExecutionDeadline None pl_envelope 600000005000 5000 = Some 300000005000"
    using sd_decisions(4) by simp
  define s1 where "s1 = s\<lparr>rn_log := rn_log s @ [Safety (start_safety_request sd_scope pl_envelope)
      (Some (sd_snapshot (start_safety_request sd_scope pl_envelope))), Clock 5000, Environment (en_WorkspaceID pl_envelope)
      (tr_EnvironmentID (en_Target pl_envelope)) (Some sd_environment), Clock 5000, Clock 5000, Prepared sd_request (Some sd_prepared)]\<rparr>"
  have "run_state (gated_run sd_ext sd_env sd_service sd_scope sd_claimed (sd_decision StageCredentialIssue)
      (sd_decision StagePreExecution)) s = run_state (start_run sd_env sd_service sd_scope sd_claimed
      (sd_decision StageCredentialIssue) (5000 + 300 * Second) sd_prepared) s1"
    using sd_checks(4) sd_decisions(1-3) deadline
    by (simp add: gated_run_def Let_def claimed fields s1_def)
  moreover obtain h where "rn_log s1 = h @ [Prepared sd_request (Some sd_prepared)]" by (simp add: s1_def)
  ultimately show ?thesis using sd_started [of s1] by auto
qed

lemma sd_run:
  "\<exists>s h. run_state (RunNext sd_ext sd_env sd_service) new_run = ((sd_leased\<lparr>ex_Status := StatusSucceeded\<rparr>, []), s) \<and>
    rn_log s = h @ [Prepared sd_request (Some sd_prepared),
      Started (Fence sd_leased) (Inr (sd_leased\<lparr>ex_Status := StatusRunning\<rparr>)),
      Registered (Some sd_registration), sd_beat 1, LocalClock 5000, Clock 5000,
      Issued sd_prepared (Some sd_credential), LocalClock 5000, Clock 5000, CtxErr None,
      Registered (Some sd_registration), sd_beat 2, CtxErr None, Dispatched sd_command sd_credential,
      Ended (ExecutorDone (Some sd_result)), CtxErr None] @ sd_tail 3"
proof -
  have claimed: "ca_Execution sd_claimed = sd_leased" "ca_Envelope sd_claimed = pl_envelope"
    "ca_EnvironmentRevision sd_claimed = es_Revision sd_environment" "ca_Production sd_claimed = es_Production sd_environment"
    by (simp_all add: sd_claimed_def sd_environment_def)
  note consistent = sd_consistent [unfolded claim_consistent_def Let_def, simplified claimed, simplified]
  obtain s1 where "run_state (RunNext sd_ext sd_env sd_service) new_run =
      run_state (gated_run sd_ext sd_env sd_service sd_scope sd_claimed (sd_decision StageCredentialIssue)
      (sd_decision StagePreExecution)) s1"
    using sd_consistent sd_decisions(1-3) consistent
    by (simp add: RunNext_def claimed_run_def decided_run_def Let_def claimed)
  with sd_gated [of s1] show ?thesis by simp
qed


section \<open>What a run guarantees\<close>

lemma not_made: "\<not> made k h \<longleftrightarrow> (\<forall>c \<in> set h. kind_of c \<noteq> k)"
  by (auto simp: made_def)

lemma obeysD: "obeys R h \<Longrightarrow> h = u @ c # w \<Longrightarrow> R u c"
  unfolding obeys_def by blast

lemma kind_before:
  assumes "service_rule x v sv h call" and "kind_of call \<in> {KClaim, KPrepare, KIssue, KDispatch, KComplete, KRevoke, KFinalize}"
  shows "\<forall>c \<in> set h. kind_of c \<noteq> kind_of call"
  using assms by (cases call) (auto simp: not_made)

lemma kind_once:
  assumes "obeys (service_rule x v sv) (h @ call # later)"
    and "kind_of call \<in> {KClaim, KPrepare, KIssue, KDispatch, KComplete, KRevoke, KFinalize}"
  shows "\<forall>c \<in> set h \<union> set later. kind_of c \<noteq> kind_of call"
proof -
  have "kind_of c \<noteq> kind_of call" if c: "c \<in> set later" for c
  proof -
    obtain u w where "later = u @ c # w" using split_list [OF c] by blast
    then have "service_rule x v sv (h @ call # u) c" by (intro obeysD [OF assms(1)]) simp
    from kind_before [OF this] assms(2) show ?thesis by auto
  qed
  moreover have "service_rule x v sv h call" using obeysD [OF assms(1) refl] .
  ultimately show ?thesis using kind_before assms(2) by blast
qed



text \<open>
  C20. The target is given back safely. \<open>Reject\<close> and \<open>Nack\<close>, which free the target at once, are only
  called before the broker was asked to prepare a credential, and only for the lease the queue
  handed out. \<open>Finalize\<close> is only called for a lease whose receipt \<open>Complete\<close> accepted, once, and
  when a credential was issued only after its revocation was recorded and, unless the receipt says the
  outcome is uncertain, is terminal.
\<close>

theorem target_given_back_safely:
  assumes run: "run_state (RunNext x v sv) new_run = (result, s)" and log: "rn_log s = h @ call # later"
  shows "(case call of
      Rejected q _ \<Rightarrow> (\<forall>c \<in> set h. kind_of c \<noteq> KPrepare) \<and> leased_to (rj_Lease q) h
    | Nacked q _ \<Rightarrow> (\<forall>c \<in> set h. kind_of c \<noteq> KPrepare) \<and> leased_to (nk_Lease q) h
    | Finalized f _ \<Rightarrow> (\<forall>c \<in> set h \<union> set later. kind_of c \<noteq> KFinalize) \<and>
        (\<exists>q ex. Completed q (Inr ex) \<in> set h \<and> ac_Lease q = f \<and>
          (\<forall>p cred. Issued p (Some cred) \<in> set h \<longrightarrow>
             (\<exists>r. Revoking cred (Some r) \<in> set h \<and>
                (Revocation_Terminal r \<or> ResultSummaryStatus (ac_Summary q) = Inr StatusUncertain))))
    | _ \<Rightarrow> True)"
proof -
  have obeyed: "obeys (service_rule x v sv) (h @ call # later)" using RunNext_history [OF run] log by simp
  show ?thesis
    using RunNext_call [OF run log] kind_once [OF obeyed] by (cases call) (auto simp: not_made)
qed

theorem target_given_back_safely_witness:
  "\<exists>h q ex. Completed q (Inr ex) \<in> set h \<and> ac_Lease q = Fence sd_leased \<and>
     h @ [Finalized (Fence sd_leased) (Inr (sd_leased\<lparr>ex_Status := StatusSucceeded\<rparr>))] =
       rn_log (snd (run_state (RunNext sd_ext sd_env sd_service) new_run))"
proof -
  obtain s where run: "run_state (RunNext sd_ext sd_env sd_service) new_run = ((sd_leased\<lparr>ex_Status := StatusSucceeded\<rparr>, []), s)"
    and log: "\<exists>h. rn_log s = h @ sd_tail 3"
    using sd_run by auto
  then obtain h where "rn_log s = h @ [Finalized (Fence sd_leased) (Inr (sd_leased\<lparr>ex_Status := StatusSucceeded\<rparr>))]"
    by (auto simp: sd_tail_def)
  with target_given_back_safely [OF run this] run show ?thesis by auto
qed




section \<open>A run without an error\<close>

text \<open>A program that reports no error only as the answer of \<open>Finalize\<close>, its last call.\<close>

definition ends_finalized :: "(Execution \<times> svc_error list) run \<Rightarrow> bool" where
  "ends_finalized m \<longleftrightarrow> (\<forall>s ex s'. run_state m s = ((ex, []), s') \<longrightarrow>
     (\<exists>h f. rn_log s' = h @ [Finalized f (Inr ex)]) \<and> ex_Status ex \<noteq> StatusFailed \<and> ex_Status ex \<noteq> StatusUncertain)"

named_theorems ends_intros \<open>programs that report no error only after Finalize\<close>

lemma ends_bind [ends_intros]: "(\<And>a. ends_finalized (k a)) \<Longrightarrow> ends_finalized (State_Monad.bind m k)"
  unfolding ends_finalized_def by (auto split: prod.splits)

lemma ends_ret [ends_intros]: "errs \<noteq> [] \<Longrightarrow> ends_finalized (ret (ex, errs))"
  by (simp add: ends_finalized_def)

lemma ends_give_back [ends_intros]:
  "ends_finalized (rejectClaim x v c code cause)" "ends_finalized (nackClaim x v c code cause)"
  unfolding rejectClaim_def nackClaim_def by (auto simp: ends_finalized_def Let_def split: sum.splits)

lemma ends_abandon [ends_intros]: "causes \<noteq> [] \<Longrightarrow> ends_finalized (abandon v p ex causes)"
  unfolding abandon_def by (auto intro!: ends_intros)

lemma ends_finish [ends_intros]: "ends_finalized (finish_run v sv scope f started issued result errs)"
proof -
  have last: "ends_finalized (State_Monad.bind (ask (ve_finalize v f) (Finalized f)) (\<lambda>completed. ret (case completed of
      Inl err \<Rightarrow> if err = ErrCredentialCleanupPending then (fin, [Exec ErrCredentialCleanupPending])
        else (fin, [Exec ErrExecutionUncertain, Exec err])
    | Inr completed \<Rightarrow> (completed, if ex_Status completed = StatusFailed then [Exec ErrExecutionFailed]
        else if ex_Status completed = StatusUncertain then [Exec ErrExecutionUncertain] else []))))" for fin
    by (auto simp: ends_finalized_def split: sum.splits if_splits)
  show ?thesis
    unfolding finish_run_def Let_def
    by (intro ends_bind; auto intro!: ends_intros last split: sum.splits)
qed

lemma ends_supervised [ends_intros]: "ends_finalized (supervised_run v sv scope f e issue p started)"
  unfolding supervised_run_def by (auto intro!: ends_intros split: option.splits)

lemma ends_start [ends_intros]: "ends_finalized (start_run v sv scope c issue deadline p)"
  unfolding start_run_def Let_def by (auto intro!: ends_intros split: option.splits sum.splits)

lemma ends_gated [ends_intros]: "ends_finalized (gated_run x v sv scope c issue pre)"
  unfolding gated_run_def Let_def by (auto intro!: ends_intros split: option.splits sum.splits)

lemma ends_decided [ends_intros]: "ends_finalized (decided_run x v sv scope c)"
  unfolding decided_run_def Let_def by (auto intro!: ends_intros split: option.splits sum.splits)

lemma ends_claimed [ends_intros]: "ends_finalized (claimed_run x v sv scope c)"
  unfolding claimed_run_def Let_def by (auto intro!: ends_intros split: option.splits sum.splits)

lemma ends_RunNext: "ends_finalized (RunNext x v sv)"
  unfolding RunNext_def Let_def by (auto intro!: ends_intros split: option.splits sum.splits)

text \<open>
  C27. \<open>RunNext\<close> reports no error only when the whole protocol went through: \<open>Finalize\<close> was its last
  call, the queue answered with the execution that is returned, neither failed nor uncertain, and
  before it the receipt of this lease was accepted; when a credential was issued, its revocation is
  recorded. Every other way a run can end is reported as an error.
\<close>

theorem run_without_error:
  assumes run: "run_state (RunNext x v sv) new_run = ((ex, errs), s)" and ok: "errs = []"
  shows "ex_Status ex \<noteq> StatusFailed \<and> ex_Status ex \<noteq> StatusUncertain \<and>
    (\<exists>h f q fin. rn_log s = h @ [Finalized f (Inr ex)] \<and> Completed q (Inr fin) \<in> set h \<and> ac_Lease q = f \<and>
       leased_to f h \<and> (\<forall>p cred. Issued p (Some cred) \<in> set h \<longrightarrow> (\<exists>r. Revoking cred (Some r) \<in> set h)))"
proof -
  obtain h f where log: "rn_log s = h @ [Finalized f (Inr ex)]"
    and status: "ex_Status ex \<noteq> StatusFailed" "ex_Status ex \<noteq> StatusUncertain"
    using ends_RunNext [of x v sv] run ok unfolding ends_finalized_def by blast
  obtain q fin where q: "Completed q (Inr fin) \<in> set h" "ac_Lease q = f"
    and revoked: "\<forall>p cred. Issued p (Some cred) \<in> set h \<longrightarrow> (\<exists>r. Revoking cred (Some r) \<in> set h)"
    using RunNext_call [OF run log] unfolding service_rule.simps by blast
  obtain u w where "h = u @ Completed q (Inr fin) # w" using split_list [OF q(1)] by blast
  with log have "service_rule x v sv u (Completed q (Inr fin))" by (intro RunNext_call [OF run]) simp
  with \<open>h = _\<close> q(2) have "leased_to f h" by (auto simp: leased_to_def)
  with log status q revoked show ?thesis by blast
qed

theorem run_without_error_witness:
  "\<exists>h f q fin. rn_log (snd (run_state (RunNext sd_ext sd_env sd_service) new_run)) =
       h @ [Finalized f (Inr (sd_leased\<lparr>ex_Status := StatusSucceeded\<rparr>))] \<and> Completed q (Inr fin) \<in> set h \<and> leased_to f h"
proof -
  obtain s where run: "run_state (RunNext sd_ext sd_env sd_service) new_run = ((sd_leased\<lparr>ex_Status := StatusSucceeded\<rparr>, []), s)"
    using sd_run by blast
  from run_without_error [OF run refl] run show ?thesis by auto
qed


section \<open>Heartbeats\<close>

definition accepted :: "RunnerScope \<Rightarrow> history \<Rightarrow> int" where
  "accepted scope h = int (length (filter
     (\<lambda>c. case c of Beat q a \<Rightarrow> beat_accepted scope (ah_Lease q) a | _ \<Rightarrow> False) h))"

fun beat_rule :: "RunnerScope \<Rightarrow> rule" where
  "beat_rule scope h (Beat q a) = (ah_Sequence q = wrap64 (1 + accepted scope h))"
| "beat_rule scope h _ = True"

lemma accepted_simps [simp]:
  "accepted scope [] = 0"
  "accepted scope (h @ g) = accepted scope h + accepted scope g"
  "accepted scope (c # g) = (case c of Beat q a \<Rightarrow> of_bool (beat_accepted scope (ah_Lease q) a) | _ \<Rightarrow> 0) + accepted scope g"
  by (simp_all add: accepted_def split: event.splits)

lemma obeys_two [simp]: "obeys R (h @ [c, d]) \<longleftrightarrow> obeys R h \<and> R h c \<and> R (h @ [c]) d"
  using obeys_snoc [of R "h @ [c]" d] by simp

lemma wrap64_next: "wrap64 (wrap64 (1 + n) + 1) = wrap64 (1 + (n + 1))"
  by (simp add: wrap64_def) presburger

text \<open>
  In a session, the next sequence number is one more than the beats accepted so far; \<open>keeps\<close> is a
  program that preserves this.
\<close>

definition in_session :: "RunnerScope \<Rightarrow> run_log \<Rightarrow> bool" where
  "in_session scope s \<longleftrightarrow> obeys (beat_rule scope) (rn_log s) \<and> rn_nextSequence s = wrap64 (1 + accepted scope (rn_log s))"

definition keeps :: "RunnerScope \<Rightarrow> 'a run \<Rightarrow> bool" where
  "keeps scope m \<longleftrightarrow> (\<forall>s. in_session scope s \<longrightarrow> in_session scope (snd (run_state m s)))"

named_theorems keeps_intros \<open>programs that keep the heartbeat sequence\<close>

lemma keeps_ret [keeps_intros]: "keeps scope (ret a)" and keeps_get [keeps_intros]: "keeps scope State_Monad.get"
  by (simp_all add: keeps_def)

lemma keeps_update [keeps_intros]:
  "(\<And>s. rn_log (f s) = rn_log s \<and> rn_nextSequence (f s) = rn_nextSequence s) \<Longrightarrow> keeps scope (State_Monad.update f)"
  by (simp add: keeps_def in_session_def)

lemma keeps_bind [keeps_intros]: "keeps scope m \<Longrightarrow> (\<And>a. keeps scope (k a)) \<Longrightarrow> keeps scope (State_Monad.bind m k)"
  unfolding keeps_def by (auto split: prod.splits)

lemma keeps_ask [keeps_intros]: "(\<And>a. kind_of (call a) \<noteq> KBeat \<or> call a = CancelExecution) \<Longrightarrow> keeps scope (ask answer call)"
proof -
  assume other: "\<And>a. kind_of (call a) \<noteq> KBeat \<or> call a = CancelExecution"
  have "beat_rule scope h (call a)" "accepted scope (h @ [call a]) = accepted scope h" for h a
    using other [of a] by (cases "call a"; simp)+
  then show ?thesis by (simp add: keeps_def in_session_def)
qed

text \<open>\<open>heartbeatOnce\<close> with the expected number adds one accepted beat when it succeeds and none otherwise.\<close>

lemma heartbeatOnce_sequence:
  assumes "obeys (beat_rule scope) (rn_log s)" and "n = wrap64 (1 + accepted scope (rn_log s))"
    and "run_state (heartbeatOnce v sv scope lease n) s = (err, s')"
  shows "obeys (beat_rule scope) (rn_log s') \<and> rn_nextSequence s' = rn_nextSequence s \<and>
    accepted scope (rn_log s') = accepted scope (rn_log s) + (if err = None then 1 else 0)"
proof -
  let ?s1 = "s\<lparr>rn_log := rn_log s @ [Registered (ve_registration v (rn_log s))]\<rparr>"
  have s1: "obeys (beat_rule scope) (rn_log ?s1)" "accepted scope (rn_log ?s1) = accepted scope (rn_log s)"
    using assms(1) by simp_all
  obtain current where "run_state (resolveRunnerScope v sv) s = (current, ?s1)"
    by (simp add: resolveRunnerScope_def)
  with assms(2,3) s1 show ?thesis
    by (auto simp: heartbeatOnce_def Let_def beat_accepted_def split: option.splits if_splits sum.splits)
qed

lemma keeps_session_fail [keeps_intros]: "keeps scope (session_fail err)"
  unfolding session_fail_def by (auto intro!: keeps_intros)

lemma keeps_DispatchError [keeps_intros]: "keeps scope (DispatchError v)"
  unfolding DispatchError_def by (auto intro!: keeps_intros split: option.splits)

lemma keeps_checkpoint [keeps_intros]: "keeps scope (checkpoint v sv scope lease)"
  unfolding checkpoint_def
proof (rule keeps_bind [OF keeps_DispatchError], goal_cases)
  case (1 stopped)
  have fails: "keeps scope (do { cancelled \<leftarrow> ask (ve_ctx v) CtxErr;
      (if cancelled = None then session_fail err else ret ()); ret (Some err) })" for err :: svc_error
    by (auto intro!: keeps_intros)
  have "keeps scope (do {
       s \<leftarrow> State_Monad.get;
       failed \<leftarrow> heartbeatOnce v sv scope lease (rn_nextSequence s);
       case failed of
         Some err \<Rightarrow> do { cancelled \<leftarrow> ask (ve_ctx v) CtxErr;
           (if cancelled = None then session_fail err else ret ()); ret (Some err) }
       | None \<Rightarrow> do { State_Monad.update (\<lambda>s. s\<lparr>rn_nextSequence := wrap64 (rn_nextSequence s + 1)\<rparr>); ret None } })"
    unfolding keeps_def
  proof (intro allI impI)
    fix s :: run_log assume s: "in_session scope s"
    obtain err s' where beat: "run_state (heartbeatOnce v sv scope lease (rn_nextSequence s)) s = (err, s')"
      by (cases "run_state (heartbeatOnce v sv scope lease (rn_nextSequence s)) s")
    note after = heartbeatOnce_sequence [OF _ _ beat] s [unfolded in_session_def]
    show "in_session scope (snd (run_state (do {
       s \<leftarrow> State_Monad.get;
       failed \<leftarrow> heartbeatOnce v sv scope lease (rn_nextSequence s);
       case failed of
         Some err \<Rightarrow> do { cancelled \<leftarrow> ask (ve_ctx v) CtxErr;
           (if cancelled = None then session_fail err else ret ()); ret (Some err) }
       | None \<Rightarrow> do { State_Monad.update (\<lambda>s. s\<lparr>rn_nextSequence := wrap64 (rn_nextSequence s + 1)\<rparr>); ret None } }) s))"
    proof (cases err)
      case None
      with after have "obeys (beat_rule scope) (rn_log s')" "rn_nextSequence s' = wrap64 (1 + accepted scope (rn_log s))"
        "accepted scope (rn_log s') = accepted scope (rn_log s) + 1" by simp_all
      then show ?thesis using None by (simp add: beat in_session_def wrap64_next)
    next
      case (Some e)
      with after have "in_session scope s'" by (simp add: in_session_def)
      with fails [of e] Some beat show ?thesis by (auto simp: keeps_def)
    qed
  qed
  then show ?case by (cases stopped) (auto intro: keeps_intros)
qed

lemma keeps_loop [keeps_intros]: "keeps scope (heartbeatLoop v sv scope lease n)"
  by (induction n) (auto intro!: keeps_intros)

lemma keeps_background [keeps_intros]: "keeps scope (background v sv scope lease)"
  unfolding background_def by (intro keeps_intros)

lemma keeps_session [keeps_intros]: "keeps scope Failure" "keeps scope AcknowledgeComplete" "keeps scope (Stop v sv scope lease)"
  unfolding Failure_def AcknowledgeComplete_def Stop_def by (auto intro!: keeps_intros)

lemma keeps_now [keeps_intros]: "keeps scope (service_now v)"
  unfolding service_now_def by (auto intro!: keeps_intros)

lemma keeps_dispatch [keeps_intros]: "keeps scope (dispatchWithHeartbeat v sv scope lease e cred)"
  unfolding dispatchWithHeartbeat_def dispatchSafely_def
  by (intro keeps_bind [OF keeps_DispatchError]) (auto intro!: keeps_intros split: option.splits dispatch_end.splits)

lemma keeps_revocation [keeps_intros]: "keeps scope (requestRevocation v issued)"
  unfolding requestRevocation_def by (auto intro!: keeps_intros split: option.splits)

lemma keeps_finish [keeps_intros]: "keeps scope (finish_run v sv scope lease started issued result errs)"
  unfolding finish_run_def Let_def by (auto intro!: keeps_intros split: sum.splits)

lemma keeps_supervised: "keeps scope (supervised_run v sv scope lease e issue p started)"
  unfolding supervised_run_def by (auto intro!: keeps_intros split: option.splits)


text \<open>Around the session: a program started after \<open>n\<close> accepted beats.\<close>

definition unbeaten :: "RunnerScope \<Rightarrow> int \<Rightarrow> 'a run \<Rightarrow> bool" where
  "unbeaten scope n m \<longleftrightarrow> (\<forall>s. accepted scope (rn_log s) = n \<longrightarrow> obeys (beat_rule scope) (rn_log s) \<longrightarrow>
     obeys (beat_rule scope) (rn_log (snd (run_state m s))))"

named_theorems unbeaten_intros \<open>programs that beat in sequence from the first one on\<close>

lemma unbeaten_ret [unbeaten_intros]: "unbeaten scope n (ret a)"
  by (simp add: unbeaten_def)

lemma unbeaten_ask [unbeaten_intros]:
  assumes "\<And>a. kind_of (call a) \<noteq> KBeat" and "\<And>a. unbeaten scope n (k a)"
  shows "unbeaten scope n (State_Monad.bind (ask answer call) k)"
proof -
  have "beat_rule scope h (call a)" "accepted scope (h @ [call a]) = accepted scope h" for h a
    using assms(1) [of a] by (cases "call a"; simp)+
  with assms(2) show ?thesis by (simp add: unbeaten_def)
qed

lemma unbeaten_now [unbeaten_intros]:
  "(\<And>a. unbeaten scope n (k a)) \<Longrightarrow> unbeaten scope n (State_Monad.bind (service_now v) k)"
  unfolding service_now_def State_Monad.bind_assoc by (auto intro!: unbeaten_intros)

lemma unbeaten_verify [unbeaten_intros]:
  "(\<And>a. unbeaten scope n (k a)) \<Longrightarrow> unbeaten scope n (State_Monad.bind (verify_envelope x v e t) k)"
  unfolding verify_envelope_def by (auto intro!: unbeaten_intros)

lemma unbeaten_safety [unbeaten_intros]:
  "(\<And>a. unbeaten scope n (k a)) \<Longrightarrow> unbeaten scope n (State_Monad.bind (checkSafety v q) k)"
  unfolding checkSafety_def State_Monad.bind_assoc by (auto intro!: unbeaten_intros split: option.splits)

lemma unbeaten_environment [unbeaten_intros]:
  "(\<And>a. unbeaten scope n (k a)) \<Longrightarrow> unbeaten scope n (State_Monad.bind (resolveEnvironment v e) k)"
  unfolding resolveEnvironment_def State_Monad.bind_assoc by (auto intro!: unbeaten_intros split: option.splits)

lemma unbeaten_give_back [unbeaten_intros]:
  "unbeaten scope n (rejectClaim x v c code cause)" "unbeaten scope n (nackClaim x v c code cause)"
  unfolding rejectClaim_def nackClaim_def Let_def by (auto intro!: unbeaten_intros)

lemma unbeaten_abandon [unbeaten_intros]: "unbeaten scope n (abandon v p ex causes)"
  unfolding abandon_def recordNoCredential_def State_Monad.bind_assoc by (auto intro!: unbeaten_intros)

lemma unbeaten_session [unbeaten_intros]:
  "unbeaten scope 1 (State_Monad.bind (startHeartbeatSession 2) (\<lambda>_. supervised_run v sv scope lease e issue p started))"
  unfolding unbeaten_def
proof (intro allI impI)
  fix s :: run_log assume s: "accepted scope (rn_log s) = 1" "obeys (beat_rule scope) (rn_log s)"
  let ?s = "snd (run_state (startHeartbeatSession 2) s)"
  have "in_session scope ?s" using s by (simp add: in_session_def startHeartbeatSession_def wrap64_def)
  then have "in_session scope (snd (run_state (supervised_run v sv scope lease e issue p started) ?s))"
    using keeps_supervised unfolding keeps_def by blast
  then show "obeys (beat_rule scope) (rn_log (snd (run_state (State_Monad.bind (startHeartbeatSession 2)
      (\<lambda>_. supervised_run v sv scope lease e issue p started)) s)))"
    by (simp add: in_session_def startHeartbeatSession_def)
qed

lemma unbeaten_first [unbeaten_intros]:
  assumes "unbeaten scope 1 (k None)" and "\<And>err. unbeaten scope 0 (k (Some err))"
  shows "unbeaten scope 0 (State_Monad.bind (heartbeatOnce v sv scope lease 1) k)"
  unfolding unbeaten_def
proof (intro allI impI)
  fix s :: run_log assume s: "accepted scope (rn_log s) = 0" "obeys (beat_rule scope) (rn_log s)"
  obtain err s1 where beat: "run_state (heartbeatOnce v sv scope lease 1) s = (err, s1)"
    by (cases "run_state (heartbeatOnce v sv scope lease 1) s")
  have "obeys (beat_rule scope) (rn_log s1)" "accepted scope (rn_log s1) = (if err = None then 1 else 0)"
    using heartbeatOnce_sequence [OF s(2) _ beat] s(1) by (simp_all add: wrap64_def)
  with assms show "obeys (beat_rule scope) (rn_log (snd (run_state (State_Monad.bind (heartbeatOnce v sv scope lease 1) k) s)))"
    by (cases err) (simp_all add: beat unbeaten_def)
qed

lemma unbeaten_start [unbeaten_intros]: "unbeaten scope 0 (start_run v sv scope c issue deadline p)"
  unfolding start_run_def Let_def by (auto intro!: unbeaten_intros split: sum.splits option.splits)

lemma unbeaten_gated [unbeaten_intros]: "unbeaten scope 0 (gated_run x v sv scope c issue pre)"
  unfolding gated_run_def Let_def by (auto intro!: unbeaten_intros split: sum.splits option.splits)

lemma unbeaten_decided [unbeaten_intros]: "unbeaten scope 0 (decided_run x v sv scope c)"
  unfolding decided_run_def Let_def by (auto intro!: unbeaten_intros split: sum.splits option.splits)

lemma unbeaten_claimed [unbeaten_intros]: "unbeaten scope 0 (claimed_run x v sv scope c)"
  unfolding claimed_run_def Let_def by (auto intro!: unbeaten_intros split: sum.splits option.splits)




section \<open>Deadlines\<close>

text \<open>
  C37. The execution deadline is the earliest of the verification timeout, the envelope's end, the
  credential's policy expiry and the caller's own deadline, and an execution with nothing of it
  left is refused. Mapped to the local clock it leaves exactly as much time as the trusted clock has left, never more.
\<close>

theorem execution_deadline_exact:
  assumes "boundedExecutionDeadline ctx e credentialExpiresAt t = Some d"
    and "mappedExecutionDeadline d logical local = Some m"
  shows "t < d \<and> d = Min ({t + vp_TimeoutSeconds (en_Verification e) * Second, zt_instant (en_ExpiresAt e), credentialExpiresAt} \<union>
      (case ctx of None \<Rightarrow> {} | Some c \<Rightarrow> {c})) \<and>
    logical < d \<and> local < m \<and> m - local \<le> d - logical \<and> (d - logical \<le> MaxInt64 \<longrightarrow> m - local = d - logical)"
proof -
  have d: "d = min (min (min (t + vp_TimeoutSeconds (en_Verification e) * Second) (zt_instant (en_ExpiresAt e))) credentialExpiresAt)
      (case ctx of None \<Rightarrow> credentialExpiresAt | Some c \<Rightarrow> c) \<and> t < d"
    using assms(1) by (auto simp: boundedExecutionDeadline_def Let_def min_def split: option.splits if_splits)
  moreover have "logical < d \<and> local < m \<and> m - local \<le> d - logical \<and> (d - logical \<le> MaxInt64 \<longrightarrow> m - local = d - logical)"
    using assms(2) by (auto simp: mappedExecutionDeadline_def time_Sub_def go_defs Let_def min_def max_def split: if_splits)
  moreover have "d = Min ({t + vp_TimeoutSeconds (en_Verification e) * Second, zt_instant (en_ExpiresAt e), credentialExpiresAt} \<union>
      (case ctx of None \<Rightarrow> {} | Some c \<Rightarrow> {c}))"
    using d [THEN conjunct1] by (cases ctx) (simp_all add: min.assoc min.commute min.left_commute)
  ultimately show ?thesis by blast
qed

theorem execution_deadline_exact_witness:
  "\<exists>d m. boundedExecutionDeadline None pl_envelope (5000 + 600 * Second) 5000 = Some d \<and>
     mappedExecutionDeadline d 6000 7000 = Some m \<and> m - 7000 \<le> d - 6000 \<and> 5000 < d"
proof -
  have "mappedExecutionDeadline (5000 + 300 * Second) 6000 7000 = Some (6000 + 300 * Second)" by code_simp
  from execution_deadline_exact [OF sd_decisions(4) this] this sd_decisions(4) show ?thesis by blast
qed


section \<open>Target keys\<close>

text \<open>What a target key stands for: the resource an action locks.\<close>

datatype lock =
    DeploymentLock string string string string string string
  | ApplicationLock string string string string string
  | InventoryLock string string int

definition lock_of :: "Envelope \<Rightarrow> lock option" where
  "lock_of e = (let ws = en_WorkspaceID e; env = tr_EnvironmentID (en_Target e);
       deployment = map_option (\<lambda>t. DeploymentLock ws env (kt_ClusterID t) (kt_Namespace t) (kt_Name t) (kt_UID t))
         (tr_KubernetesDeployment (en_Target e)) in
     case en_ActionType e of
       ActionKubernetesRolloutRestart \<Rightarrow> deployment
     | ActionKubernetesScale \<Rightarrow> deployment
     | ActionGitOpsRevert \<Rightarrow> map_option (\<lambda>t. ApplicationLock ws env (gt_RepositoryID t) (gt_Application t) (gt_Path t))
         (tr_GitOpsApplication (en_Target e))
     | ActionAWXServiceRestart \<Rightarrow> map_option (\<lambda>t. InventoryLock ws env (at_InventoryID t)) (tr_AWXHosts (en_Target e))
     | ActionRaw _ \<Rightarrow> None)"

fun lock_kind :: "lock \<Rightarrow> string" where
  "lock_kind (DeploymentLock _ _ _ _ _ _) = ''k8s-deployment''"
| "lock_kind (ApplicationLock _ _ _ _ _) = ''gitops-application-path''"
| "lock_kind (InventoryLock _ _ _) = ''awx-inventory''"

fun lock_fields :: "lock \<Rightarrow> (string \<times> string) list" where
  "lock_fields (DeploymentLock ws env a b c d) = [(''WorkspaceID'', json_string ws), (''EnvironmentID'', json_string env),
     (''ClusterID'', json_string a), (''Namespace'', json_string b), (''Name'', json_string c), (''UID'', json_string d)]"
| "lock_fields (ApplicationLock ws env a b c) = [(''WorkspaceID'', json_string ws), (''EnvironmentID'', json_string env),
     (''RepositoryID'', json_string a), (''Application'', json_string b), (''Path'', json_string c)]"
| "lock_fields (InventoryLock ws env i) = [(''WorkspaceID'', json_string ws), (''EnvironmentID'', json_string env),
     (''InventoryID'', FormatInt i)]"

definition lock_message :: "lock \<Rightarrow> string" where
  "lock_message l = ''aiops-target-lock.v1'' @ CHR 0x00 # lock_kind l @ CHR 0x00 # json_object (lock_fields l)"

lemma deriveTargetKey_lock:
  assumes "deriveTargetKey x e = Some k"
  shows "\<exists>l. lock_of e = Some l \<and> k = lock_kind l @ '':sha256:'' @ vx_sha x (lock_message l)"
  using assms
  by (auto simp: deriveTargetKey_def target_kind_def target_identity_def lock_of_def lock_message_def Let_def
      split: option.splits ActionType.splits)

lemma json_string_next:
  "json_string s @ r @ u = json_string t @ r @ v \<longleftrightarrow> s = t \<and> u = v"
  by (auto dest: json_string_prefix)

lemma json_string_inj: "json_string s = json_string t \<Longrightarrow> s = t"
  using json_string_prefix [of s "[]" t "[]"] by simp

lemma lock_fields_inj:
  "lock_kind l = lock_kind m \<Longrightarrow> json_object (lock_fields l) = json_object (lock_fields m) \<Longrightarrow> l = m"
  by (cases l; cases m)
    (auto simp: json_object_def json_string_next [of _ "[]", simplified] dest!: json_string_inj FormatInt_inj)

lemma lock_kind_split:
  assumes "lock_kind l @ CHR '':'' # u = lock_kind m @ CHR '':'' # v"
  shows "lock_kind l = lock_kind m \<and> u = v"
  using assms by (cases l; cases m) simp_all

text \<open>
  C21. Two actions get the same target key exactly when they lock the same resource, as long as
  SHA-256 does not collide on the two identities: a restart and a scaling of one deployment exclude
  each other, two paths of one application, two inventories or two workspaces never do. So the
  exclusive use of a target key in the queue is the exclusive use of the resource.
\<close>

theorem target_key_identity:
  assumes "deriveTargetKey x e1 = Some k1" and "deriveTargetKey x e2 = Some k2"
    and collision: "\<And>l m. lock_of e1 = Some l \<Longrightarrow> lock_of e2 = Some m \<Longrightarrow>
      vx_sha x (lock_message l) = vx_sha x (lock_message m) \<Longrightarrow> lock_message l = lock_message m"
  shows "k1 = k2 \<longleftrightarrow> lock_of e1 = lock_of e2"
proof -
  obtain l m where l: "lock_of e1 = Some l" "k1 = lock_kind l @ '':sha256:'' @ vx_sha x (lock_message l)"
    and m: "lock_of e2 = Some m" "k2 = lock_kind m @ '':sha256:'' @ vx_sha x (lock_message m)"
    using deriveTargetKey_lock [OF assms(1)] deriveTargetKey_lock [OF assms(2)] by blast
  have same: "l = m" if "k1 = k2"
  proof -
    from that l(2) m(2) have "lock_kind l @ CHR '':'' # (''sha256:'' @ vx_sha x (lock_message l)) =
        lock_kind m @ CHR '':'' # (''sha256:'' @ vx_sha x (lock_message m))" by simp
    from lock_kind_split [OF this] have kind: "lock_kind l = lock_kind m"
      and "vx_sha x (lock_message l) = vx_sha x (lock_message m)" by simp_all
    with collision [OF l(1) m(1)] have "lock_message l = lock_message m" by simp
    with kind show ?thesis by (intro lock_fields_inj) (simp_all add: lock_message_def)
  qed
  show ?thesis
  proof
    assume "k1 = k2"
    then show "lock_of e1 = lock_of e2" using same l(1) m(1) by simp
  next
    assume "lock_of e1 = lock_of e2"
    then have "l = m" using l(1) m(1) by simp
    then show "k1 = k2" using l(2) m(2) by simp
  qed
qed

text \<open>A stand-in digest without collisions on the two plans of the example.\<close>

definition tk_ext :: service_ext where
  "tk_ext = \<lparr>vx_canon = pl_canon, vx_sha = (\<lambda>m. m), vx_edverify = (\<lambda>_ _ _. True)\<rparr>"

theorem target_key_identity_witness:
  "\<exists>k1 k2. deriveTargetKey tk_ext demo_plan = Some k1 \<and> deriveTargetKey tk_ext (demo_plan\<lparr>en_WorkspaceID := ''ws-2''\<rparr>) = Some k2 \<and>
     k1 \<noteq> k2"
proof -
  have valid: "Validate (demo_plan\<lparr>en_WorkspaceID := ''ws-2''\<rparr>) = None" by code_simp
  obtain k1 k2 where k: "deriveTargetKey tk_ext demo_plan = Some k1"
    "deriveTargetKey tk_ext (demo_plan\<lparr>en_WorkspaceID := ''ws-2''\<rparr>) = Some k2"
    by (simp add: deriveTargetKey_def valid demo_valid) (simp add: target_kind_def target_identity_def demo_plan_def)
  have "lock_of demo_plan \<noteq> lock_of (demo_plan\<lparr>en_WorkspaceID := ''ws-2''\<rparr>)"
    by (simp add: lock_of_def demo_plan_def)
  moreover have "k1 = k2 \<longleftrightarrow> lock_of demo_plan = lock_of (demo_plan\<lparr>en_WorkspaceID := ''ws-2''\<rparr>)"
    by (rule target_key_identity [OF k]) (simp add: tk_ext_def)
  ultimately show ?thesis using k by blast
qed

end
