(* ===== verification/Credential_Repository.thy ===== *)
theory Credential_Repository
  imports Credential_Revocation
begin

text \<open>
  The process-local credential repository of \<^verbatim>\<open>internal/credential/memory.go\<close>: one
  record per action and lease epoch, from the preparation of a child credential to the proof that
  it is revoked or was never created.

  A call is a function of the repository, its request and of what it reads from outside
  (\<open>cred_env\<close>): the context before and after the lock is taken, the clock (by the number of the
  reading within the call), the permit and token sources, the answers of the action source, and
  the reference protector, whose encryption is not modelled. The records of the map are pointers
  that are changed in place under the lock; a record is stored under one id only, so comparing two
  pointers is comparing the ids.

  \<open>WithLockedActionInspection\<close> is an interface of another package: what it does in a call is the
  list of inspections it hands to the callback, in order, and whether it returns an error. The
  callback is documented to run synchronously, so it has finished when the source returns.
  SHA-256 is the parameter \<open>sha\<close>.
\<close>

section \<open>State and environment\<close>

record ReferenceContext =
  rx_RevocationID :: string
  rx_ActionID :: string
  rx_ActionEpoch :: int
  rx_Issuer :: string
  rx_IssuerRevision :: string

record ProtectedReference =
  prf_Ciphertext :: string
  prf_AccessorHMAC :: string
  prf_KeyID :: string

record memoryRevocationRecord =
  mv_revocation :: Revocation
  mv_protected :: ProtectedReference
  mv_actionTokenSHA256 :: string
  mv_childCreatePermitSHA256 :: string
  mv_childCreateAuthorizedAt :: time
  mv_childCreateTTL :: duration
  mv_retryCycleAttemptBase :: int
  mv_retryCycleStartedAt :: time
  mv_claimTokenSHA256 :: string
  mv_completedClaimSHA256 :: string
  mv_completedClaimEpoch :: int
  mv_completedClaimWorker :: string
  mv_confirmations :: "ExternalConfirmation gomap"

record CredentialRepository =
  cdr_records :: "memoryRevocationRecord gomap"
  cdr_actionEpochs :: "string gomap"

record lock_source =
  ls_atomic :: bool
  ls_inspections :: "ActionInspection list"
  ls_failed :: bool
  ls_ctx :: "ctx_error option"

record cred_env =
  ce_ctx :: "ctx_error option option"
  ce_ctx_locked :: "ctx_error option option"
  ce_clock :: "nat \<Rightarrow> time"
  ce_permit :: "string option"
  ce_token :: "nat \<Rightarrow> string option"
  ce_resolve :: "nat \<Rightarrow> ActionFence \<Rightarrow> ctx_error option + ActionMetadata"
  ce_source :: "nat \<Rightarrow> string \<Rightarrow> lock_source"
  ce_protect :: "ReferenceContext \<Rightarrow> string option \<Rightarrow> ProtectedReference option"
  ce_matches :: "ReferenceContext \<Rightarrow> ProtectedReference \<Rightarrow> string option \<Rightarrow> bool option"
  ce_unprotect :: "ReferenceContext \<Rightarrow> ProtectedReference \<Rightarrow> string option option"

text \<open>A nil context is \<open>None\<close>.\<close>

definition contextError :: "ctx_error option option \<Rightarrow> cred_error option" where
  "contextError ctx = (case ctx of None \<Rightarrow> Some ErrInvalidRevocationRequest
     | Some None \<Rightarrow> None | Some (Some c) \<Rightarrow> Some (CredCtx c))"

section \<open>Helpers\<close>

definition on_revocation ::
  "(Revocation \<Rightarrow> Revocation) \<Rightarrow> memoryRevocationRecord \<Rightarrow> memoryRevocationRecord" where
  "on_revocation f r = r\<lparr>mv_revocation := f (mv_revocation r)\<rparr>"

definition bump :: "time \<Rightarrow> memoryRevocationRecord \<Rightarrow> memoryRevocationRecord" where
  "bump t = on_revocation (\<lambda>v. v\<lparr>rv_Version := wrap64 (rv_Version v + 1), rv_UpdatedAt := t\<rparr>)"

definition clearActiveClaim :: "memoryRevocationRecord \<Rightarrow> memoryRevocationRecord" where
  "clearActiveClaim r = on_revocation (\<lambda>v. v\<lparr>rv_ClaimedBy := '''', rv_ClaimedAt := 0,
     rv_ClaimExpiresAt := 0, rv_LastHeartbeatAt := 0\<rparr>) (r\<lparr>mv_claimTokenSHA256 := ''''\<rparr>)"

definition clearProtectedReference :: "memoryRevocationRecord \<Rightarrow> memoryRevocationRecord" where
  "clearProtectedReference r =
     on_revocation (\<lambda>v. v\<lparr>rv_AccessorPresent := False, rv_EncryptionKeyID := ''''\<rparr>)
       (r\<lparr>mv_protected := (mv_protected r)\<lparr>prf_Ciphertext := '''', prf_KeyID := ''''\<rparr>\<rparr>)"

definition publicMemoryRevocation :: "memoryRevocationRecord \<Rightarrow> Revocation" where
  "publicMemoryRevocation r = redactedRevocation (mv_revocation r)"

definition referenceContext :: "Revocation \<Rightarrow> ReferenceContext" where
  "referenceContext v = \<lparr>rx_RevocationID = rv_ID v, rx_ActionID = rv_ActionID v,
     rx_ActionEpoch = rv_ActionLeaseEpoch v, rx_Issuer = rv_Issuer v,
     rx_IssuerRevision = rv_IssuerRevision v\<rparr>"

definition actionEpochKey :: "string \<Rightarrow> int \<Rightarrow> string" where
  "actionEpochKey actionID epoch = actionID @ CHR 0x00 # FormatInt epoch"

definition validCredentialTTLSeconds :: "int \<Rightarrow> bool" where
  "validCredentialTTLSeconds v \<longleftrightarrow> 0 < v \<and> v * Second \<le> Credential_MaxCredentialTTL"

definition signedCredentialExpiry :: "time \<Rightarrow> int \<Rightarrow> time" where
  "signedCredentialExpiry t ttlSeconds = CanonicalCredentialExpiry (t + ttlSeconds * Second)"

definition hex_encode :: "string \<Rightarrow> string" where
  "hex_encode s = concat (map (\<lambda>c. [hex_char (of_char c div 16), hex_char (of_char c mod 16)]) s)"

definition sameActionScope :: "ActionMetadata \<Rightarrow> ActionMetadata \<Rightarrow> bool" where
  "sameActionScope l r \<longleftrightarrow> am_ActionID l = am_ActionID r \<and> am_TenantID l = am_TenantID r \<and>
     am_WorkspaceID l = am_WorkspaceID r \<and> am_EnvironmentID l = am_EnvironmentID r \<and>
     am_TargetKey l = am_TargetKey r \<and> am_Production l = am_Production r \<and>
     am_RunnerID l = am_RunnerID r \<and> am_LeaseEpoch l = am_LeaseEpoch r \<and>
     am_ActionType l = am_ActionType r \<and> am_ConnectorID l = am_ConnectorID r \<and>
     am_Permission l = am_Permission r \<and> am_Resource l = am_Resource r \<and>
     am_CredentialTTLSeconds l = am_CredentialTTLSeconds r"

definition frozenActionFenceMatches ::
  "(string \<Rightarrow> string) \<Rightarrow> memoryRevocationRecord \<Rightarrow> ActionFence \<Rightarrow> bool" where
  "frozenActionFenceMatches sha r f \<longleftrightarrow> rv_ActionID (mv_revocation r) = af_ActionID f \<and>
     rv_RunnerID (mv_revocation r) = af_RunnerID f \<and> rv_ActionLeaseEpoch (mv_revocation r) = af_Epoch f \<and>
     mv_actionTokenSHA256 r = sha (af_Token f)"

definition inspectionScopeMatches :: "Revocation \<Rightarrow> ActionMetadata \<Rightarrow> bool" where
  "inspectionScopeMatches v d \<longleftrightarrow> rv_ActionID v = am_ActionID d \<and> rv_TenantID v = am_TenantID d \<and>
     rv_WorkspaceID v = am_WorkspaceID d \<and> rv_EnvironmentID v = am_EnvironmentID d \<and>
     rv_TargetKey v = am_TargetKey d \<and> rv_Production v = am_Production d \<and>
     rv_ActionType v = am_ActionType d \<and> rv_CredentialTTLSeconds v = am_CredentialTTLSeconds d \<and>
     rv_ConnectorID v = am_ConnectorID d \<and> rv_Permission v = am_Permission d \<and>
     rv_Resource v = am_Resource d"

definition runnerAuthorizationCurrent :: "ActionMetadata \<Rightarrow> bool" where
  "runnerAuthorizationCurrent d \<longleftrightarrow> am_RunnerEnabled d \<and> am_RunnerPool d = ''WRITE'' \<and>
     0 < am_ScopeRevision d \<and> am_RunnerScopeRevision d = am_ScopeRevision d \<and> am_ExactScopeAuthorized d"

definition inspectionFenceCurrent ::
  "memoryRevocationRecord \<Rightarrow> ActionInspection \<Rightarrow> time \<Rightarrow> duration \<Rightarrow> bool" where
  "inspectionFenceCurrent r inspection t minimumWindow \<longleftrightarrow>
     (let d = ai_Metadata inspection; minimumExpiry = t + minimumWindow in
      runnerAuthorizationCurrent d \<and> am_Status d = ActionStatusRunning \<and> IsZero (am_CancelRequestedAt d) \<and>
      am_RunnerID d = rv_RunnerID (mv_revocation r) \<and>
      am_LeaseEpoch d = rv_ActionLeaseEpoch (mv_revocation r) \<and>
      ai_LeaseTokenSHA256 inspection = mv_actionTokenSHA256 r \<and>
      After (am_LeaseExpiresAt d) minimumExpiry \<and> After (am_AuthorizationExpiresAt d) minimumExpiry \<and>
      After (rv_CredentialExpiresAt (mv_revocation r)) minimumExpiry)"

definition matchesMemoryClaim ::
  "memoryRevocationRecord \<Rightarrow> ClaimFence \<Rightarrow> string \<Rightarrow> time \<Rightarrow> bool" where
  "matchesMemoryClaim r f digest t \<longleftrightarrow> rv_Status (mv_revocation r) = StatusRevoking \<and>
     rv_ClaimedBy (mv_revocation r) = cf_WorkerID f \<and> rv_ClaimEpoch (mv_revocation r) = cf_Epoch f \<and>
     mv_claimTokenSHA256 r = digest \<and> After (rv_ClaimExpiresAt (mv_revocation r)) t"

definition memoryRevocationExhausted :: "memoryRevocationRecord \<Rightarrow> time \<Rightarrow> bool" where
  "memoryRevocationExhausted r t \<longleftrightarrow>
     MaxRevocationAttempts \<le> rv_Attempt (mv_revocation r) - mv_retryCycleAttemptBase r \<or>
     IsZero (mv_retryCycleStartedAt r) \<or> \<not> After (mv_retryCycleStartedAt r + MaxRevocationElapsed) t"

definition samePrepare :: "Revocation \<Rightarrow> PrepareRequest \<Rightarrow> ActionMetadata \<Rightarrow> bool" where
  "samePrepare v q d \<longleftrightarrow> rv_ActionID v = am_ActionID d \<and> rv_TenantID v = am_TenantID d \<and>
     rv_WorkspaceID v = am_WorkspaceID d \<and> rv_EnvironmentID v = am_EnvironmentID d \<and>
     rv_TargetKey v = am_TargetKey d \<and> rv_Production v = am_Production d \<and>
     rv_RunnerID v = am_RunnerID d \<and> rv_ActionLeaseEpoch v = am_LeaseEpoch d \<and>
     rv_Issuer v = pr_Issuer q \<and> rv_IssuerRevision v = pr_IssuerRevision q \<and>
     rv_ActionType v = am_ActionType d \<and> rv_CredentialTTLSeconds v = am_CredentialTTLSeconds d \<and>
     rv_ConnectorID v = am_ConnectorID d \<and> rv_Permission v = am_Permission d \<and>
     rv_Resource v = am_Resource d \<and>
     rv_CredentialExpiresAt v = CanonicalCredentialExpiry (pr_CredentialExpiresAt q)"

definition hasPlatformAdmin :: "ExternalConfirmation gomap \<Rightarrow> bool" where
  "hasPlatformAdmin m = gany (\<lambda>_ c. ec_PlatformAdmin c) m"

definition confirmationResult :: "memoryRevocationRecord \<Rightarrow> ConfirmationResult" where
  "confirmationResult r = \<lparr>cfr_Revocation = publicMemoryRevocation r,
     cfr_Confirmations = sort_key (\<lambda>c. (ec_CreatedAt c, ec_Subject c)) (map snd (mv_confirmations r))\<rparr>"

definition put_credential :: "string \<Rightarrow> memoryRevocationRecord \<Rightarrow> CredentialRepository \<Rightarrow> CredentialRepository" where
  "put_credential i r s = s\<lparr>cdr_records := gset i r (cdr_records s)\<rparr>"

section \<open>Resolving the action\<close>

definition resolveAction :: "cred_env \<Rightarrow> nat \<Rightarrow> ActionFence \<Rightarrow> time \<Rightarrow> cred_error + ActionMetadata" where
  "resolveAction e n f t =
     (case ce_resolve e n f of
        Inl (Some c) \<Rightarrow> Inl (CredCtx c)
      | Inl None \<Rightarrow> Inl ErrStaleActionFence
      | Inr d \<Rightarrow>
          if am_ActionID d \<noteq> af_ActionID f \<or> am_RunnerID d \<noteq> af_RunnerID f \<or> am_LeaseEpoch d \<noteq> af_Epoch f \<or>
             (am_Status d \<noteq> ActionStatusLeased \<and> am_Status d \<noteq> ActionStatusRunning) \<or>
             \<not> After (am_LeaseExpiresAt d) t \<or> \<not> After (am_AuthorizationExpiresAt d) t \<or>
             \<not> ValidIdentifier (am_TenantID d) 256 \<or> \<not> ValidIdentifier (am_WorkspaceID d) 256 \<or>
             \<not> ValidIdentifier (am_EnvironmentID d) 256 \<or> \<not> ValidIdentifier (am_TargetKey d) 512 \<or>
             \<not> ValidIdentifier (am_ActionType d) 256 \<or> \<not> validCredentialTTLSeconds (am_CredentialTTLSeconds d) \<or>
             \<not> ValidOpaqueText (am_ConnectorID d) 256 \<or> \<not> ValidOpaqueText (am_Permission d) 256 \<or>
             \<not> ValidOpaqueText (am_Resource d) 2048
          then Inl ErrStaleActionFence else Inr d)"

definition resolvePrepareAction :: "cred_env \<Rightarrow> nat \<Rightarrow> ActionFence \<Rightarrow> time \<Rightarrow> cred_error + ActionMetadata" where
  "resolvePrepareAction e n f t =
     (case resolveAction e n f t of Inl err \<Rightarrow> Inl err | Inr d \<Rightarrow>
      let minimumExpiry = t + MinPrepareFenceWindow in
      if Before (am_LeaseExpiresAt d) minimumExpiry \<or> Before (am_AuthorizationExpiresAt d) minimumExpiry
      then Inl ErrStaleActionFence else Inr d)"

text \<open>
  The wrapper around the callback: only the first invocation runs the operation, and a source that
  invokes it more than once is refused, although what the first invocation wrote stays.
\<close>

definition withLockedActionInspection ::
  "lock_source \<Rightarrow> (ActionInspection \<Rightarrow> 's \<Rightarrow> 's \<times> (cred_error + 'a)) \<Rightarrow> 's \<Rightarrow> 's \<times> (cred_error + 'a)" where
  "withLockedActionInspection source operation s =
     (if \<not> ls_atomic source then (s, Inl ErrAtomicActionSourceRequired)
      else case ls_inspections source of
        [] \<Rightarrow> (s, Inl (case ls_ctx source of Some c \<Rightarrow> CredCtx c
                 | None \<Rightarrow> if \<not> ls_failed source then ErrAtomicActionSourceRequired else ErrStaleActionFence))
      | inspection # again \<Rightarrow>
          (let run = operation inspection s in
           if again \<noteq> [] then (fst run, Inl ErrAtomicActionSourceRequired)
           else case snd run of Inl err \<Rightarrow> (fst run, Inl err)
             | Inr v \<Rightarrow> (fst run, if ls_failed source then Inl ActionSourceFailed else Inr v)))"


section \<open>Operations\<close>

definition NewMemoryRepository :: "bool \<Rightarrow> bool \<Rightarrow> time \<Rightarrow> cred_error + CredentialRepository" where
  "NewMemoryRepository actions protector clock =
     (if \<not> actions \<or> \<not> protector then Inl ErrInvalidRevocationRequest
      else if IsZero clock then Inl ErrInvalidRevocationRequest
      else Inr \<lparr>cdr_records = [], cdr_actionEpochs = []\<rparr>)"

definition new_revocation :: "PrepareRequest \<Rightarrow> ActionMetadata \<Rightarrow> time \<Rightarrow> Revocation" where
  "new_revocation q d t = \<lparr>rv_ID = pr_RevocationID q, rv_TenantID = am_TenantID d,
     rv_WorkspaceID = am_WorkspaceID d, rv_EnvironmentID = am_EnvironmentID d, rv_ActionID = am_ActionID d,
     rv_TargetKey = am_TargetKey d, rv_Production = am_Production d, rv_RunnerID = am_RunnerID d,
     rv_ActionLeaseEpoch = am_LeaseEpoch d, rv_Issuer = pr_Issuer q, rv_IssuerRevision = pr_IssuerRevision q,
     rv_ActionType = am_ActionType d, rv_ConnectorID = am_ConnectorID d, rv_Permission = am_Permission d,
     rv_Resource = am_Resource d, rv_CredentialTTLSeconds = am_CredentialTTLSeconds d,
     rv_CredentialExpiresAt = pr_CredentialExpiresAt q, rv_Status = StatusPrepared,
     rv_AccessorPresent = False, rv_AccessorHMAC = '''', rv_EncryptionKeyID = '''', rv_ClaimEpoch = 0,
     rv_ClaimedBy = '''', rv_ClaimedAt = 0, rv_ClaimExpiresAt = 0, rv_LastHeartbeatAt = 0, rv_Attempt = 0,
     rv_FailureCount = 0, rv_FailureCode = FailureRaw '''', rv_FailureDetailSHA256 = '''',
     rv_AvailableAt = t, rv_EvidenceHash = '''', rv_CreatedAt = t, rv_UpdatedAt = t, rv_AnchoredAt = 0,
     rv_ActivatedAt = 0, rv_RevocationRequestedAt = 0, rv_ManualRequiredAt = 0, rv_RevokedAt = 0,
     rv_Version = 1\<rparr>"

definition new_record ::
  "(string \<Rightarrow> string) \<Rightarrow> PrepareRequest \<Rightarrow> ActionMetadata \<Rightarrow> time \<Rightarrow> string \<Rightarrow> memoryRevocationRecord" where
  "new_record sha q d t permitToken = \<lparr>mv_revocation = new_revocation q d t,
     mv_protected = \<lparr>prf_Ciphertext = '''', prf_AccessorHMAC = '''', prf_KeyID = ''''\<rparr>,
     mv_actionTokenSHA256 = sha (af_Token (pr_Fence q)), mv_childCreatePermitSHA256 = sha permitToken,
     mv_childCreateAuthorizedAt = 0, mv_childCreateTTL = 0, mv_retryCycleAttemptBase = 0,
     mv_retryCycleStartedAt = 0, mv_claimTokenSHA256 = '''', mv_completedClaimSHA256 = '''',
     mv_completedClaimEpoch = 0, mv_completedClaimWorker = '''', mv_confirmations = []\<rparr>"

text \<open>The part of \<open>Prepare\<close> that runs under the lock.\<close>

definition prepare_locked ::
  "(string \<Rightarrow> string) \<Rightarrow> cred_env \<Rightarrow> PrepareRequest \<Rightarrow> ActionMetadata \<Rightarrow> time \<Rightarrow> CredentialRepository \<Rightarrow>
   CredentialRepository \<times> (cred_error + PrepareResult)" where
  "prepare_locked sha e q d t s =
     (let key = actionEpochKey (af_ActionID (pr_Fence q)) (af_Epoch (pr_Fence q));
          known = (\<lambda>r. samePrepare (mv_revocation r) q d \<and> mv_actionTokenSHA256 r = sha (af_Token (pr_Fence q)));
          again = (\<lambda>r. \<lparr>prs_Revocation = publicMemoryRevocation r, prs_Created = False, prs_Permit = None\<rparr>)
      in case gget (cdr_actionEpochs s) key of
        Some existingID \<Rightarrow>
          (case gget (cdr_records s) existingID of None \<Rightarrow> (s, Inl CredIdempotencyConflict) | Some existing \<Rightarrow>
           if \<not> known existing then (s, Inl CredIdempotencyConflict)
           else if gget (cdr_records s) (pr_RevocationID q) \<noteq> None \<and> pr_RevocationID q \<noteq> existingID
           then (s, Inl CredIdempotencyConflict)
           else (s, Inr (again existing)))
      | None \<Rightarrow>
      case gget (cdr_records s) (pr_RevocationID q) of
        Some existing \<Rightarrow>
          if \<not> known existing then (s, Inl CredIdempotencyConflict) else (s, Inr (again existing))
      | None \<Rightarrow>
      case ce_permit e of None \<Rightarrow> (s, Inl ErrRevocationPersistence) | Some permitToken \<Rightarrow>
      if \<not> ValidOpaqueText permitToken 4096 then (s, Inl ErrRevocationPersistence)
      else let r = new_record sha q d t permitToken
      in (s\<lparr>cdr_records := gset (pr_RevocationID q) r (cdr_records s),
            cdr_actionEpochs := gset key (pr_RevocationID q) (cdr_actionEpochs s)\<rparr>,
          Inr \<lparr>prs_Revocation = publicMemoryRevocation r, prs_Created = True,
               prs_Permit = Some \<lparr>pm_RevocationID = pr_RevocationID q, pm_Token = permitToken\<rparr>\<rparr>))"

definition Prepare ::
  "(string \<Rightarrow> string) \<Rightarrow> cred_env \<Rightarrow> PrepareRequest \<Rightarrow> CredentialRepository \<Rightarrow>
   CredentialRepository \<times> (cred_error + PrepareResult)" where
  "Prepare sha e q0 s =
     (case contextError (ce_ctx e) of Some err \<Rightarrow> (s, Inl err) | None \<Rightarrow>
      let q = q0\<lparr>pr_CredentialExpiresAt := CanonicalCredentialExpiry (pr_CredentialExpiresAt q0)\<rparr>;
          t = ce_clock e 0; until = pr_CredentialExpiresAt q
      in if \<not> ValidRevocationID (pr_RevocationID q) \<or> \<not> Credential_validActionFence (pr_Fence q) \<or>
            \<not> ValidOpaqueText (pr_Issuer q) 256 \<or> \<not> ValidIdentifier (pr_IssuerRevision q) 256 \<or>
            IsZero until \<or> \<not> After until t \<or>
            After until (CanonicalCredentialExpiry (t + Credential_MaxCredentialTTL))
      then (s, Inl ErrInvalidRevocationRequest)
      else case resolvePrepareAction e 0 (pr_Fence q) t of Inl err \<Rightarrow> (s, Inl err) | Inr d0 \<Rightarrow>
      if am_Production d0 then (s, Inl ErrInvalidRevocationRequest)
      else if After until (am_AuthorizationExpiresAt d0) \<or>
              After until (signedCredentialExpiry t (am_CredentialTTLSeconds d0))
      then (s, Inl ErrInvalidRevocationRequest)
      else let t1 = ce_clock e 1 in
      case resolvePrepareAction e 1 (pr_Fence q) t1 of Inl err \<Rightarrow> (s, Inl err) | Inr d \<Rightarrow>
      if \<not> sameActionScope d0 d then (s, Inl ErrStaleActionFence)
      else if After until (am_AuthorizationExpiresAt d) \<or>
              After until (signedCredentialExpiry t1 (am_CredentialTTLSeconds d))
      then (s, Inl ErrStaleActionFence)
      else prepare_locked sha e q d t s)"

definition authorize_locked ::
  "(string \<Rightarrow> string) \<Rightarrow> time \<Rightarrow> AuthorizeChildCreateRequest \<Rightarrow> ActionInspection \<Rightarrow> CredentialRepository \<Rightarrow>
   CredentialRepository \<times> (cred_error + ChildCreateAuthorization)" where
  "authorize_locked sha t q inspection s =
     (case gget (cdr_records s) (pm_RevocationID (ar_Permit q)) of
        None \<Rightarrow> (s, Inl ErrRevocationNotFound) | Some r \<Rightarrow>
      let v = mv_revocation r; d = ai_Metadata inspection;
          minimumExpiry = t + (ChildCreateExpiryReserve + MinPostChildFenceWindow)
      in if \<not> frozenActionFenceMatches sha r (ar_Fence q) \<or> \<not> inspectionScopeMatches v d \<or>
            After (rv_CredentialExpiresAt v) (am_AuthorizationExpiresAt d) \<or>
            \<not> inspectionFenceCurrent r inspection t 0
      then (s, Inl ErrStaleActionFence)
      else if Before (am_LeaseExpiresAt d) minimumExpiry \<or> Before (am_AuthorizationExpiresAt d) minimumExpiry
      then (s, Inl ErrStaleActionFence)
      else if mv_childCreatePermitSHA256 r \<noteq> sha (pm_Token (ar_Permit q)) then (s, Inl ErrStaleChildCreatePermit)
      else if rv_Status v \<noteq> StatusPrepared \<or> prf_Ciphertext (mv_protected r) \<noteq> '''' then (s, Inl CredInvalidTransition)
      else if \<not> IsZero (mv_childCreateAuthorizedAt r) then (s, Inl ErrChildCreateAlreadyAuthorized)
      else let remaining = wrap64 (time_Sub (rv_CredentialExpiresAt v) t - ChildCreateExpiryReserve);
               ttl = go_quot remaining VaultTTLQuantum * VaultTTLQuantum
      in if ttl < MinChildCreateTTL then (s, Inl ErrChildCreateWindowExpired)
      else let r' = bump t (r\<lparr>mv_childCreateAuthorizedAt := t, mv_childCreateTTL := ttl\<rparr>)
      in (put_credential (pm_RevocationID (ar_Permit q)) r' s,
          Inr \<lparr>ca_Revocation = publicMemoryRevocation r', ca_DatabaseAuthorizedAt = t,
               ca_CredentialExpiresAt = rv_CredentialExpiresAt (mv_revocation r'), ca_TTL = ttl,
               ca_VaultCallBudget = ChildCreateVaultCallBudget\<rparr>))"

definition AuthorizeChildCreate ::
  "(string \<Rightarrow> string) \<Rightarrow> cred_env \<Rightarrow> AuthorizeChildCreateRequest \<Rightarrow> CredentialRepository \<Rightarrow>
   CredentialRepository \<times> (cred_error + ChildCreateAuthorization)" where
  "AuthorizeChildCreate sha e q s =
     (case contextError (ce_ctx e) of Some err \<Rightarrow> (s, Inl err) | None \<Rightarrow>
      if \<not> ValidRevocationID (pm_RevocationID (ar_Permit q)) \<or> \<not> ValidOpaqueText (pm_Token (ar_Permit q)) 4096 \<or>
         \<not> Credential_validActionFence (ar_Fence q) then (s, Inl ErrInvalidRevocationRequest)
      else withLockedActionInspection (ce_source e 0 (af_ActionID (ar_Fence q)))
             (authorize_locked sha (ce_clock e 0) q) s)"

definition applyRequestRevocation :: "time \<Rightarrow> memoryRevocationRecord \<Rightarrow> cred_error + memoryRevocationRecord" where
  "applyRequestRevocation t r =
     (case rv_Status (mv_revocation r) of
        StatusAnchored \<Rightarrow> Inr (bump t (on_revocation (\<lambda>v. v\<lparr>rv_Status := StatusRevocationPending,
          rv_AvailableAt := t, rv_RevocationRequestedAt := t\<rparr>)
          (r\<lparr>mv_retryCycleAttemptBase := rv_Attempt (mv_revocation r), mv_retryCycleStartedAt := t\<rparr>)))
      | StatusActive \<Rightarrow> Inr (bump t (on_revocation (\<lambda>v. v\<lparr>rv_Status := StatusRevocationPending,
          rv_AvailableAt := t, rv_RevocationRequestedAt := t\<rparr>)
          (r\<lparr>mv_retryCycleAttemptBase := rv_Attempt (mv_revocation r), mv_retryCycleStartedAt := t\<rparr>)))
      | StatusRevocationPending \<Rightarrow> Inr r
      | StatusRevoking \<Rightarrow> Inr r
      | StatusManualRequired \<Rightarrow> Inr r
      | StatusRevoked \<Rightarrow> Inr r
      | _ \<Rightarrow> Inl CredInvalidTransition)"

text \<open>
  Storing a record that a callback has changed so far, and its result. When \<open>applyRequestRevocation\<close>
  refuses, what the callback wrote before stays.
\<close>

definition revoke_unless ::
  "bool \<Rightarrow> time \<Rightarrow> string \<Rightarrow> memoryRevocationRecord \<Rightarrow> CredentialRepository \<Rightarrow>
   CredentialRepository \<times> (cred_error + Revocation)" where
  "revoke_unless current t i r s =
     (if current then (put_credential i r s, Inr (publicMemoryRevocation r))
      else case applyRequestRevocation t r of Inl err \<Rightarrow> (put_credential i r s, Inl err)
        | Inr r' \<Rightarrow> (put_credential i r' s, Inr (publicMemoryRevocation r')))"

definition anchor_locked ::
  "(string \<Rightarrow> string) \<Rightarrow> cred_env \<Rightarrow> RecordAnchorRequest \<Rightarrow> ActionInspection \<Rightarrow> CredentialRepository \<Rightarrow>
   CredentialRepository \<times> (cred_error + Revocation)" where
  "anchor_locked sha e q inspection s =
     (let t = ce_clock e 0; finalNow = ce_clock e 1 in
      case gget (cdr_records s) (an_RevocationID q) of None \<Rightarrow> (s, Inl ErrRevocationNotFound) | Some r \<Rightarrow>
      let v = mv_revocation r in
      if \<not> frozenActionFenceMatches sha r (an_Fence q) \<or> \<not> inspectionScopeMatches v (ai_Metadata inspection)
      then (s, Inl ErrStaleActionFence)
      else if IsZero (mv_childCreateAuthorizedAt r) then (s, Inl CredInvalidTransition)
      else let current = inspectionFenceCurrent r inspection t 0 \<and>
                 inspectionFenceCurrent r inspection finalNow MinPostChildFenceWindow in
      if rv_Status v \<noteq> StatusPrepared then
        (if rv_Status v = StatusNoCredential \<or> rv_Status v = StatusRevoked \<or> prf_Ciphertext (mv_protected r) = ''''
         then (s, Inl CredInvalidTransition)
         else case ce_matches e (referenceContext v) (mv_protected r) (an_Accessor q) of
           None \<Rightarrow> (s, Inl ErrReferenceProtection)
         | Some False \<Rightarrow> (s, Inl CredIdempotencyConflict)
         | Some True \<Rightarrow>
             if rv_Status v = StatusAnchored \<or> rv_Status v = StatusActive
             then revoke_unless current finalNow (an_RevocationID q) r s
             else (s, Inr (publicMemoryRevocation r)))
      else case ce_protect e (referenceContext v) (an_Accessor q) of
        None \<Rightarrow> (s, Inl ErrReferenceProtection)
      | Some protected \<Rightarrow>
          revoke_unless current finalNow (an_RevocationID q)
            (bump finalNow (on_revocation (\<lambda>v. v\<lparr>rv_Status := StatusAnchored, rv_AccessorPresent := True,
               rv_AccessorHMAC := hex_encode (prf_AccessorHMAC protected),
               rv_EncryptionKeyID := prf_KeyID protected, rv_AnchoredAt := finalNow\<rparr>)
               (r\<lparr>mv_protected := protected\<rparr>))) s)"

definition RecordAnchor ::
  "(string \<Rightarrow> string) \<Rightarrow> cred_env \<Rightarrow> RecordAnchorRequest \<Rightarrow> CredentialRepository \<Rightarrow>
   CredentialRepository \<times> (cred_error + Revocation)" where
  "RecordAnchor sha e q s =
     (case contextError (ce_ctx e) of Some err \<Rightarrow> (s, Inl err) | None \<Rightarrow>
      if \<not> ValidRevocationID (an_RevocationID q) \<or> \<not> Credential_validActionFence (an_Fence q) \<or>
         \<not> ValidSensitiveReference (an_Accessor q) then (s, Inl ErrInvalidRevocationRequest)
      else withLockedActionInspection (ce_source e 0 (af_ActionID (an_Fence q))) (anchor_locked sha e q) s)"

definition activate_locked ::
  "(string \<Rightarrow> string) \<Rightarrow> cred_env \<Rightarrow> ActionTransitionRequest \<Rightarrow> ActionInspection \<Rightarrow> CredentialRepository \<Rightarrow>
   CredentialRepository \<times> (cred_error + Revocation)" where
  "activate_locked sha e q inspection s =
     (let t = ce_clock e 0; finalNow = ce_clock e 1 in
      case gget (cdr_records s) (atr_RevocationID q) of None \<Rightarrow> (s, Inl ErrRevocationNotFound) | Some r \<Rightarrow>
      let v = mv_revocation r; i = atr_RevocationID q in
      if \<not> frozenActionFenceMatches sha r (atr_Fence q) \<or> \<not> inspectionScopeMatches v (ai_Metadata inspection)
      then (s, Inl ErrStaleActionFence)
      else case rv_Status v of
        StatusAnchored \<Rightarrow>
          (if \<not> inspectionFenceCurrent r inspection t 0 then revoke_unless False t i r s
           else let r1 = bump t (on_revocation (\<lambda>v. v\<lparr>rv_Status := StatusActive, rv_ActivatedAt := t\<rparr>) r)
                in revoke_unless (inspectionFenceCurrent r1 inspection finalNow MinPostChildFenceWindow)
                     finalNow i r1 s)
      | StatusActive \<Rightarrow>
          revoke_unless (inspectionFenceCurrent r inspection finalNow MinPostChildFenceWindow) finalNow i r s
      | StatusRevocationPending \<Rightarrow> (s, Inr (publicMemoryRevocation r))
      | StatusRevoking \<Rightarrow> (s, Inr (publicMemoryRevocation r))
      | StatusManualRequired \<Rightarrow> (s, Inr (publicMemoryRevocation r))
      | StatusRevoked \<Rightarrow> (s, Inr (publicMemoryRevocation r))
      | _ \<Rightarrow> (s, Inl CredInvalidTransition))"

definition Activate ::
  "(string \<Rightarrow> string) \<Rightarrow> cred_env \<Rightarrow> ActionTransitionRequest \<Rightarrow> CredentialRepository \<Rightarrow>
   CredentialRepository \<times> (cred_error + Revocation)" where
  "Activate sha e q s =
     (case contextError (ce_ctx e) of Some err \<Rightarrow> (s, Inl err) | None \<Rightarrow>
      if \<not> ValidRevocationID (atr_RevocationID q) \<or> \<not> Credential_validActionFence (atr_Fence q)
      then (s, Inl ErrInvalidRevocationRequest)
      else withLockedActionInspection (ce_source e 0 (af_ActionID (atr_Fence q))) (activate_locked sha e q) s)"


definition actionRecord ::
  "(string \<Rightarrow> string) \<Rightarrow> string \<Rightarrow> ActionFence \<Rightarrow> ActionMetadata \<Rightarrow> CredentialRepository \<Rightarrow>
   cred_error + memoryRevocationRecord" where
  "actionRecord sha i f d s =
     (case gget (cdr_records s) i of None \<Rightarrow> Inl ErrRevocationNotFound | Some r \<Rightarrow>
      let v = mv_revocation r in
      if rv_ActionID v \<noteq> af_ActionID f \<or> rv_RunnerID v \<noteq> af_RunnerID f \<or> rv_ActionLeaseEpoch v \<noteq> af_Epoch f \<or>
         mv_actionTokenSHA256 r \<noteq> sha (af_Token f) \<or> rv_TenantID v \<noteq> am_TenantID d \<or>
         rv_WorkspaceID v \<noteq> am_WorkspaceID d \<or> rv_EnvironmentID v \<noteq> am_EnvironmentID d \<or>
         rv_TargetKey v \<noteq> am_TargetKey d \<or> rv_Production v \<noteq> am_Production d \<or>
         rv_ActionType v \<noteq> am_ActionType d \<or> rv_CredentialTTLSeconds v \<noteq> am_CredentialTTLSeconds d \<or>
         rv_ConnectorID v \<noteq> am_ConnectorID d \<or> rv_Permission v \<noteq> am_Permission d \<or>
         rv_Resource v \<noteq> am_Resource d
      then Inl ErrStaleActionFence else Inr r)"

definition actionTransition ::
  "(string \<Rightarrow> string) \<Rightarrow> cred_env \<Rightarrow> ActionTransitionRequest \<Rightarrow>
   (time \<Rightarrow> memoryRevocationRecord \<Rightarrow> cred_error + memoryRevocationRecord) \<Rightarrow> CredentialRepository \<Rightarrow>
   CredentialRepository \<times> (cred_error + Revocation)" where
  "actionTransition sha e q transition s =
     (case contextError (ce_ctx e) of Some err \<Rightarrow> (s, Inl err) | None \<Rightarrow>
      if \<not> ValidRevocationID (atr_RevocationID q) \<or> \<not> Credential_validActionFence (atr_Fence q)
      then (s, Inl ErrInvalidRevocationRequest)
      else let t = ce_clock e 0 in
      case resolveAction e 0 (atr_Fence q) t of Inl err \<Rightarrow> (s, Inl err) | Inr d \<Rightarrow>
      case actionRecord sha (atr_RevocationID q) (atr_Fence q) d s of Inl err \<Rightarrow> (s, Inl err) | Inr r \<Rightarrow>
      case transition t r of Inl err \<Rightarrow> (s, Inl err)
      | Inr r' \<Rightarrow> (put_credential (atr_RevocationID q) r' s, Inr (publicMemoryRevocation r')))"

definition noCredential :: "time \<Rightarrow> memoryRevocationRecord \<Rightarrow> cred_error + memoryRevocationRecord" where
  "noCredential t r =
     (case rv_Status (mv_revocation r) of
        StatusPrepared \<Rightarrow>
          if \<not> IsZero (mv_childCreateAuthorizedAt r) then Inl CredInvalidTransition
          else Inr (bump t (on_revocation (\<lambda>v. v\<lparr>rv_Status := StatusNoCredential\<rparr>) r))
      | StatusNoCredential \<Rightarrow> Inr r
      | _ \<Rightarrow> Inl CredInvalidTransition)"

definition RecordNoCredential ::
  "(string \<Rightarrow> string) \<Rightarrow> cred_env \<Rightarrow> ActionTransitionRequest \<Rightarrow> CredentialRepository \<Rightarrow>
   CredentialRepository \<times> (cred_error + Revocation)" where
  "RecordNoCredential sha e q s = actionTransition sha e q noCredential s"

definition RequestRevocation ::
  "(string \<Rightarrow> string) \<Rightarrow> cred_env \<Rightarrow> ActionTransitionRequest \<Rightarrow> CredentialRepository \<Rightarrow>
   CredentialRepository \<times> (cred_error + Revocation)" where
  "RequestRevocation sha e q s =
     (if atr_Fence q = zero_ActionFence then
        (case contextError (ce_ctx e) of Some err \<Rightarrow> (s, Inl err) | None \<Rightarrow>
         if \<not> ValidRevocationID (atr_RevocationID q) then (s, Inl ErrInvalidRevocationRequest)
         else case gget (cdr_records s) (atr_RevocationID q) of None \<Rightarrow> (s, Inl ErrRevocationNotFound) | Some r \<Rightarrow>
         case applyRequestRevocation (ce_clock e 0) r of Inl err \<Rightarrow> (s, Inl err)
         | Inr r' \<Rightarrow> (put_credential (atr_RevocationID q) r' s, Inr (publicMemoryRevocation r')))
      else actionTransition sha e q applyRequestRevocation s)"

text \<open>
  The recovery and claim loops collect records, sort them by a key that ends in the id, cut the
  list at the limit and then change each record in place.
\<close>

type_synonym credential_entry = "string \<times> memoryRevocationRecord"

definition candidates ::
  "(memoryRevocationRecord \<Rightarrow> bool) \<Rightarrow> (Revocation \<Rightarrow> 'k :: linorder) \<Rightarrow> int \<Rightarrow> CredentialRepository \<Rightarrow>
   credential_entry list" where
  "candidates eligible key limit s =
     take (nat limit) (sort_key (\<lambda>(i, r). key (mv_revocation r)) (filter (\<lambda>(i, r). eligible r) (cdr_records s)))"

fun update_entries ::
  "(memoryRevocationRecord \<Rightarrow> memoryRevocationRecord) \<Rightarrow> credential_entry list \<Rightarrow> CredentialRepository \<Rightarrow>
   CredentialRepository" where
  "update_entries f [] s = s"
| "update_entries f ((i, r) # es) s = update_entries f es (put_credential i (f r) s)"

definition bad_limit :: "int \<Rightarrow> bool" where
  "bad_limit n \<longleftrightarrow> n < 1 \<or> MaxRevocationClaimBatch < n"

definition prepared_recoverable :: "time \<Rightarrow> memoryRevocationRecord \<Rightarrow> bool" where
  "prepared_recoverable t r \<longleftrightarrow> rv_Status (mv_revocation r) = StatusPrepared \<and>
     prf_Ciphertext (mv_protected r) = '''' \<and>
     \<not> After (rv_CredentialExpiresAt (mv_revocation r) + PreparedRecoveryGrace) t"

definition give_up_prepared :: "time \<Rightarrow> memoryRevocationRecord \<Rightarrow> memoryRevocationRecord" where
  "give_up_prepared t r = bump t (on_revocation (\<lambda>v. v\<lparr>rv_Status := StatusNoCredential\<rparr>) r)"

definition RecoverPrepared ::
  "cred_env \<Rightarrow> int \<Rightarrow> CredentialRepository \<Rightarrow> CredentialRepository \<times> (cred_error + Revocation list)" where
  "RecoverPrepared e limit s =
     (case contextError (ce_ctx e) of Some err \<Rightarrow> (s, Inl err) | None \<Rightarrow>
      if bad_limit limit then (s, Inl ErrInvalidRevocationRequest)
      else let t = ce_clock e 0;
               found = candidates (prepared_recoverable t) (\<lambda>v. (rv_CredentialExpiresAt v, rv_ID v)) limit s
      in (update_entries (give_up_prepared t) found s,
          Inr (map (\<lambda>(i, r). publicMemoryRevocation (give_up_prepared t r)) found)))"

definition managed :: "memoryRevocationRecord \<Rightarrow> bool" where
  "managed r \<longleftrightarrow> rv_Status (mv_revocation r) = StatusAnchored \<or> rv_Status (mv_revocation r) = StatusActive"

definition managed_at :: "Revocation \<Rightarrow> time" where
  "managed_at v = (if rv_Status v = StatusActive then rv_ActivatedAt v else rv_AnchoredAt v)"

text \<open>
  \<open>RecoverManaged\<close> takes the lock anew for each candidate; \<open>between n\<close> is what other calls do to the
  repository before the \<open>n\<close>-th candidate is looked at again. It returns what it recovered before an error.
\<close>

definition recover_managed_item ::
  "cred_env \<Rightarrow> nat \<Rightarrow> string \<Rightarrow> string \<Rightarrow> CredentialRepository \<Rightarrow>
   CredentialRepository \<times> (cred_error + Revocation option)" where
  "recover_managed_item e n i actionID s =
     withLockedActionInspection (ce_source e n actionID) (\<lambda>inspection s.
       let t = ce_clock e n in
       case gget (cdr_records s) i of None \<Rightarrow> (s, Inr None) | Some r \<Rightarrow>
       if \<not> managed r then (s, Inr None)
       else if inspectionScopeMatches (mv_revocation r) (ai_Metadata inspection) \<and>
               inspectionFenceCurrent r inspection t MinPostChildFenceWindow \<and>
               \<not> (rv_Status (mv_revocation r) = StatusAnchored \<and>
                  \<not> After (rv_AnchoredAt (mv_revocation r) + ManagedAnchorRecoveryGrace) t)
       then (s, Inr None)
       else case applyRequestRevocation t r of Inl err \<Rightarrow> (s, Inl err)
         | Inr r' \<Rightarrow> (put_credential i r' s, Inr (Some (publicMemoryRevocation r')))) s"

fun recover_managed_loop ::
  "cred_env \<Rightarrow> int \<Rightarrow> (nat \<Rightarrow> CredentialRepository \<Rightarrow> CredentialRepository) \<Rightarrow> nat \<Rightarrow>
   (string \<times> string) list \<Rightarrow> Revocation list \<Rightarrow> CredentialRepository \<Rightarrow>
   CredentialRepository \<times> Revocation list \<times> cred_error option" where
  "recover_managed_loop e limit between n [] recovered s = (s, recovered, None)"
| "recover_managed_loop e limit between n ((i, actionID) # items) recovered s =
     (if int (length recovered) = limit then (s, recovered, None)
      else let run = recover_managed_item e n i actionID (between n s) in
      case snd run of
        Inl err \<Rightarrow> (fst run, recovered, Some err)
      | Inr None \<Rightarrow> recover_managed_loop e limit between (Suc n) items recovered (fst run)
      | Inr (Some v) \<Rightarrow> recover_managed_loop e limit between (Suc n) items (recovered @ [v]) (fst run))"

definition RecoverManaged ::
  "cred_env \<Rightarrow> (nat \<Rightarrow> CredentialRepository \<Rightarrow> CredentialRepository) \<Rightarrow> int \<Rightarrow> CredentialRepository \<Rightarrow>
   CredentialRepository \<times> Revocation list \<times> cred_error option" where
  "RecoverManaged e between limit s =
     (case contextError (ce_ctx e) of Some err \<Rightarrow> (s, [], Some err) | None \<Rightarrow>
      if bad_limit limit then (s, [], Some ErrInvalidRevocationRequest)
      else recover_managed_loop e limit between 0
             (map (\<lambda>(i, r). (i, rv_ActionID (mv_revocation r)))
               (sort_key (\<lambda>(i, r). (managed_at (mv_revocation r), rv_ID (mv_revocation r)))
                 (filter (\<lambda>(i, r). managed r) (cdr_records s)))) [] s)"

definition exhausted_recoverable :: "time \<Rightarrow> memoryRevocationRecord \<Rightarrow> bool" where
  "exhausted_recoverable t r \<longleftrightarrow>
     (rv_Status (mv_revocation r) = StatusRevocationPending \<or>
      rv_Status (mv_revocation r) = StatusRevoking \<and> \<not> After (rv_ClaimExpiresAt (mv_revocation r)) t) \<and>
     memoryRevocationExhausted r t"

definition give_up_claims :: "(string \<Rightarrow> string) \<Rightarrow> time \<Rightarrow> memoryRevocationRecord \<Rightarrow> memoryRevocationRecord" where
  "give_up_claims sha t r = bump t (clearActiveClaim (on_revocation (\<lambda>v. v\<lparr>
     rv_Status := StatusManualRequired, rv_FailureCount := wrap64 (rv_FailureCount v + 1),
     rv_FailureCode := FailureUnknown, rv_FailureDetailSHA256 := sha FailureDetailExhaustedWithoutAck,
     rv_ManualRequiredAt := t\<rparr>) r))"

definition RecoverExhausted ::
  "(string \<Rightarrow> string) \<Rightarrow> cred_env \<Rightarrow> int \<Rightarrow> CredentialRepository \<Rightarrow>
   CredentialRepository \<times> (cred_error + Revocation list)" where
  "RecoverExhausted sha e limit s =
     (case contextError (ce_ctx e) of Some err \<Rightarrow> (s, Inl err) | None \<Rightarrow>
      if bad_limit limit then (s, Inl ErrInvalidRevocationRequest)
      else let t = ce_clock e 0;
               found = candidates (exhausted_recoverable t) (\<lambda>v. (rv_RevocationRequestedAt v, rv_ID v)) limit s
      in (update_entries (give_up_claims sha t) found s,
          Inr (map (\<lambda>(i, r). publicMemoryRevocation (give_up_claims sha t r)) found)))"

definition claimable_revocation :: "time \<Rightarrow> memoryRevocationRecord \<Rightarrow> bool" where
  "claimable_revocation t r \<longleftrightarrow>
     (rv_Status (mv_revocation r) = StatusRevocationPending \<and> \<not> After (rv_AvailableAt (mv_revocation r)) t \<or>
      rv_Status (mv_revocation r) = StatusRevoking \<and> \<not> After (rv_ClaimExpiresAt (mv_revocation r)) t) \<and>
     \<not> memoryRevocationExhausted r t"

record memoryPreparedClaim =
  pcl_id :: string
  pcl_record :: memoryRevocationRecord
  pcl_token :: string
  pcl_accessor :: "string option"
  pcl_poison :: bool

text \<open>The first loop draws a token and opens the reference of every candidate, changing nothing.\<close>

fun prepare_claims ::
  "cred_env \<Rightarrow> nat \<Rightarrow> credential_entry list \<Rightarrow> cred_error + memoryPreparedClaim list" where
  "prepare_claims e n [] = Inr []"
| "prepare_claims e n ((i, r) # es) =
     (if rv_ClaimEpoch (mv_revocation r) = MaxInt64 then Inl CredInvalidTransition
      else case ce_token e n of None \<Rightarrow> Inl ErrInvalidRevocationRequest | Some token \<Rightarrow>
      if \<not> ValidOpaqueText token 4096 then Inl ErrInvalidRevocationRequest
      else let opened = ce_unprotect e (referenceContext (mv_revocation r)) (mv_protected r);
               poison = (case opened of None \<Rightarrow> True | Some accessor \<Rightarrow> \<not> ValidSensitiveReference accessor);
               accessor = (if poison then None else the opened)
      in case prepare_claims e (Suc n) es of Inl err \<Rightarrow> Inl err
         | Inr claims \<Rightarrow> Inr (\<lparr>pcl_id = i, pcl_record = r, pcl_token = token, pcl_accessor = accessor,
                              pcl_poison = poison\<rparr> # claims))"

definition start_claim ::
  "(string \<Rightarrow> string) \<Rightarrow> ClaimRevocationsRequest \<Rightarrow> time \<Rightarrow> string \<Rightarrow> memoryRevocationRecord \<Rightarrow>
   memoryRevocationRecord" where
  "start_claim sha q t token r = bump t (on_revocation (\<lambda>v. v\<lparr>rv_Status := StatusRevoking,
     rv_ClaimEpoch := wrap64 (rv_ClaimEpoch v + 1), rv_ClaimedBy := cr_WorkerID q, rv_ClaimedAt := t,
     rv_LastHeartbeatAt := t, rv_ClaimExpiresAt := t + cr_LeaseDuration q,
     rv_Attempt := wrap64 (rv_Attempt v + 1)\<rparr>) (r\<lparr>mv_claimTokenSHA256 := sha token\<rparr>))"

definition poison_claim :: "(string \<Rightarrow> string) \<Rightarrow> time \<Rightarrow> memoryRevocationRecord \<Rightarrow> memoryRevocationRecord" where
  "poison_claim sha t r = bump t (clearActiveClaim (on_revocation (\<lambda>v. v\<lparr>
     rv_Status := StatusManualRequired, rv_FailureCount := wrap64 (rv_FailureCount v + 1),
     rv_FailureCode := FailureInvalidReference,
     rv_FailureDetailSHA256 := sha FailureDetailProtectedRefInvalid, rv_ManualRequiredAt := t\<rparr>) r))"

fun apply_claims ::
  "(string \<Rightarrow> string) \<Rightarrow> ClaimRevocationsRequest \<Rightarrow> time \<Rightarrow> memoryPreparedClaim list \<Rightarrow> CredentialRepository \<Rightarrow>
   CredentialRepository \<times> ClaimedRevocation list" where
  "apply_claims sha q t [] s = (s, [])"
| "apply_claims sha q t (c # cs) s =
     (let r = start_claim sha q t (pcl_token c) (pcl_record c) in
      if pcl_poison c then apply_claims sha q t cs (put_credential (pcl_id c) (poison_claim sha t r) s)
      else let rest = apply_claims sha q t cs (put_credential (pcl_id c) r s)
      in (fst rest, \<lparr>cl_Revocation = publicMemoryRevocation r,
            cl_Fence = \<lparr>cf_RevocationID = rv_ID (mv_revocation r), cf_WorkerID = cr_WorkerID q,
              cf_Token = pcl_token c, cf_Epoch = rv_ClaimEpoch (mv_revocation r)\<rparr>,
            cl_Accessor = pcl_accessor c\<rparr> # snd rest))"

definition ClaimRevocations ::
  "(string \<Rightarrow> string) \<Rightarrow> cred_env \<Rightarrow> ClaimRevocationsRequest \<Rightarrow> CredentialRepository \<Rightarrow>
   CredentialRepository \<times> (cred_error + ClaimedRevocation list)" where
  "ClaimRevocations sha e q s =
     (case contextError (ce_ctx e) of Some err \<Rightarrow> (s, Inl err) | None \<Rightarrow>
      if \<not> ValidIdentifier (cr_WorkerID q) 256 \<or> bad_limit (cr_Limit q) \<or> \<not> validClaimDuration (cr_LeaseDuration q)
      then (s, Inl ErrInvalidRevocationRequest)
      else let t = ce_clock e 0;
               found = candidates (claimable_revocation t)
                 (\<lambda>v. (rv_AvailableAt v, rv_CreatedAt v, rv_ID v)) (cr_Limit q) s
      in case prepare_claims e 0 found of Inl err \<Rightarrow> (s, Inl err)
         | Inr prepared \<Rightarrow> (let run = apply_claims sha q t prepared s in (fst run, Inr (snd run))))"


definition claimRecord ::
  "(string \<Rightarrow> string) \<Rightarrow> ClaimFence \<Rightarrow> time \<Rightarrow> CredentialRepository \<Rightarrow> cred_error + memoryRevocationRecord" where
  "claimRecord sha f t s =
     (case gget (cdr_records s) (cf_RevocationID f) of None \<Rightarrow> Inl ErrRevocationNotFound | Some r \<Rightarrow>
      if \<not> matchesMemoryClaim r f (sha (cf_Token f)) t then Inl ErrStaleClaim else Inr r)"

definition Cred_Heartbeat ::
  "(string \<Rightarrow> string) \<Rightarrow> cred_env \<Rightarrow> CredHeartbeatRequest \<Rightarrow> CredentialRepository \<Rightarrow>
   CredentialRepository \<times> (cred_error + Revocation)" where
  "Cred_Heartbeat sha e q s =
     (case contextError (ce_ctx e) of Some err \<Rightarrow> (s, Inl err) | None \<Rightarrow>
      if \<not> validClaimFence (hb_Fence q) \<or> \<not> validClaimDuration (hb_Extension q)
      then (s, Inl ErrInvalidRevocationRequest)
      else let t = ce_clock e 0 in
      case claimRecord sha (hb_Fence q) t s of Inl err \<Rightarrow> (s, Inl err) | Inr r \<Rightarrow>
      let r' = bump t (on_revocation (\<lambda>v. v\<lparr>rv_LastHeartbeatAt := t, rv_ClaimExpiresAt := t + hb_Extension q\<rparr>) r)
      in (put_credential (cf_RevocationID (hb_Fence q)) r' s, Inr (publicMemoryRevocation r')))"

definition CompleteRevocation ::
  "(string \<Rightarrow> string) \<Rightarrow> cred_env \<Rightarrow> ClaimFence \<Rightarrow> CredentialRepository \<Rightarrow>
   CredentialRepository \<times> (cred_error + Revocation)" where
  "CompleteRevocation sha e f s =
     (case contextError (ce_ctx e) of Some err \<Rightarrow> (s, Inl err) | None \<Rightarrow>
      if \<not> validClaimFence f then (s, Inl ErrInvalidRevocationRequest)
      else let t = ce_clock e 0 in
      case gget (cdr_records s) (cf_RevocationID f) of None \<Rightarrow> (s, Inl ErrRevocationNotFound) | Some r \<Rightarrow>
      let digest = sha (cf_Token f) in
      if rv_Status (mv_revocation r) = StatusRevoked then
        (if mv_completedClaimSHA256 r = digest \<and> mv_completedClaimEpoch r = cf_Epoch f \<and>
            mv_completedClaimWorker r = cf_WorkerID f
         then (s, Inr (publicMemoryRevocation r)) else (s, Inl ErrStaleClaim))
      else if \<not> matchesMemoryClaim r f digest t then (s, Inl ErrStaleClaim)
      else let r' = bump t (clearProtectedReference (clearActiveClaim
                 (on_revocation (\<lambda>v. v\<lparr>rv_Status := StatusRevoked, rv_RevokedAt := t\<rparr>)
                   (r\<lparr>mv_completedClaimSHA256 := digest, mv_completedClaimEpoch := cf_Epoch f,
                      mv_completedClaimWorker := cf_WorkerID f\<rparr>))))
      in (put_credential (cf_RevocationID f) r' s, Inr (publicMemoryRevocation r')))"

definition failClaim ::
  "(string \<Rightarrow> string) \<Rightarrow> cred_env \<Rightarrow> ClaimFence \<Rightarrow> FailureCode \<Rightarrow> string \<Rightarrow>
   (time \<Rightarrow> memoryRevocationRecord \<Rightarrow> memoryRevocationRecord) \<Rightarrow> CredentialRepository \<Rightarrow>
   CredentialRepository \<times> (cred_error + Revocation)" where
  "failClaim sha e f code detail transition s =
     (case contextError (ce_ctx e) of Some err \<Rightarrow> (s, Inl err) | None \<Rightarrow>
      if \<not> validClaimFence f then (s, Inl ErrInvalidRevocationRequest)
      else let t = ce_clock e 0 in
      case claimRecord sha f t s of Inl err \<Rightarrow> (s, Inl err) | Inr r \<Rightarrow>
      let r' = bump t (clearActiveClaim (on_revocation (\<lambda>v. v\<lparr>rv_FailureCount := wrap64 (rv_FailureCount v + 1),
                 rv_FailureCode := code, rv_FailureDetailSHA256 := sha detail\<rparr>) (transition t r)))
      in (put_credential (cf_RevocationID f) r' s, Inr (publicMemoryRevocation r')))"

definition manual_required :: "time \<Rightarrow> memoryRevocationRecord \<Rightarrow> memoryRevocationRecord" where
  "manual_required t = on_revocation (\<lambda>v. v\<lparr>rv_Status := StatusManualRequired, rv_ManualRequiredAt := t\<rparr>)"

definition retry_later :: "duration \<Rightarrow> time \<Rightarrow> memoryRevocationRecord \<Rightarrow> memoryRevocationRecord" where
  "retry_later delay t r =
     (if memoryRevocationExhausted r t then manual_required t r
      else on_revocation (\<lambda>v. v\<lparr>rv_Status := StatusRevocationPending, rv_AvailableAt := t + delay\<rparr>) r)"

definition RetryRevocation ::
  "(string \<Rightarrow> string) \<Rightarrow> cred_env \<Rightarrow> RetryRevocationRequest \<Rightarrow> CredentialRepository \<Rightarrow>
   CredentialRepository \<times> (cred_error + Revocation)" where
  "RetryRevocation sha e q s =
     (if rt_Delay q < MinRevocationRetryDelay \<or> MaxRevocationRetryDelay < rt_Delay q \<or>
         \<not> validFailure (rt_FailureCode q) (rt_FailureDetail q) then (s, Inl ErrInvalidRevocationRequest)
      else failClaim sha e (rt_Fence q) (rt_FailureCode q) (rt_FailureDetail q) (retry_later (rt_Delay q)) s)"

definition RequireManual ::
  "(string \<Rightarrow> string) \<Rightarrow> cred_env \<Rightarrow> RequireManualRequest \<Rightarrow> CredentialRepository \<Rightarrow>
   CredentialRepository \<times> (cred_error + Revocation)" where
  "RequireManual sha e q s =
     (if \<not> validFailure (rm_FailureCode q) (rm_FailureDetail q) then (s, Inl ErrInvalidRevocationRequest)
      else failClaim sha e (rm_Fence q) (rm_FailureCode q) (rm_FailureDetail q) manual_required s)"

definition RequeueManual ::
  "cred_env \<Rightarrow> RequeueManualRequest \<Rightarrow> CredentialRepository \<Rightarrow>
   CredentialRepository \<times> (cred_error + Revocation)" where
  "RequeueManual e q s =
     (case contextError (ce_ctx e) of Some err \<Rightarrow> (s, Inl err) | None \<Rightarrow>
      if \<not> ValidRevocationID (rqm_RevocationID q) \<or> \<not> validSubject (rqm_ActorSubject q)
      then (s, Inl ErrInvalidRevocationRequest)
      else let t = ce_clock e 0 in
      case gget (cdr_records s) (rqm_RevocationID q) of None \<Rightarrow> (s, Inl ErrRevocationNotFound) | Some r \<Rightarrow>
      if rv_Status (mv_revocation r) = StatusRevocationPending then (s, Inr (publicMemoryRevocation r))
      else if rv_Status (mv_revocation r) \<noteq> StatusManualRequired \<or> rv_EvidenceHash (mv_revocation r) \<noteq> '''' \<or>
              mv_confirmations r \<noteq> [] then (s, Inl CredInvalidTransition)
      else let r' = bump t (on_revocation (\<lambda>v. v\<lparr>rv_Status := StatusRevocationPending, rv_AvailableAt := t\<rparr>)
                 (r\<lparr>mv_retryCycleAttemptBase := rv_Attempt (mv_revocation r), mv_retryCycleStartedAt := t\<rparr>))
      in (put_credential (rqm_RevocationID q) r' s, Inr (publicMemoryRevocation r')))"

definition SubmitExternalConfirmation ::
  "cred_env \<Rightarrow> ExternalConfirmationRequest \<Rightarrow> CredentialRepository \<Rightarrow>
   CredentialRepository \<times> (cred_error + ConfirmationResult)" where
  "SubmitExternalConfirmation e q s =
     (case contextError (ce_ctx e) of Some err \<Rightarrow> (s, Inl err) | None \<Rightarrow>
      if \<not> ValidRevocationID (ecq_RevocationID q) \<or> \<not> validSubject (ecq_Subject q) \<or>
         \<not> ValidSHA256 (ecq_EvidenceHash q) then (s, Inl ErrInvalidRevocationRequest)
      else let t = ce_clock e 0; i = ecq_RevocationID q in
      case gget (cdr_records s) i of None \<Rightarrow> (s, Inl ErrRevocationNotFound) | Some r \<Rightarrow>
      let v = mv_revocation r in
      if rv_Status v \<noteq> StatusManualRequired \<and> rv_Status v \<noteq> StatusRevoked then (s, Inl CredInvalidTransition)
      else if rv_EvidenceHash v \<noteq> '''' \<and> rv_EvidenceHash v \<noteq> ecq_EvidenceHash q then (s, Inl ErrEvidenceConflict)
      else case gget (mv_confirmations r) (ecq_Subject q) of
        Some existing \<Rightarrow>
          if ec_EvidenceHash existing \<noteq> ecq_EvidenceHash q \<or> ec_PlatformAdmin existing \<noteq> ecq_PlatformAdmin q
          then (s, Inl ErrEvidenceConflict) else (s, Inr (confirmationResult r))
      | None \<Rightarrow>
      if rv_Status v = StatusRevoked then (s, Inl CredInvalidTransition)
      else if 1 \<le> length (mv_confirmations r) \<and> \<not> ecq_PlatformAdmin q \<and> \<not> hasPlatformAdmin (mv_confirmations r)
      then (s, Inl ErrPlatformAdminRequired)
      else let r1 = bump t (on_revocation (\<lambda>v. v\<lparr>rv_EvidenceHash := ecq_EvidenceHash q\<rparr>)
                 (r\<lparr>mv_confirmations := gset (ecq_Subject q) \<lparr>ec_Subject = ecq_Subject q,
                      ec_EvidenceHash = ecq_EvidenceHash q, ec_PlatformAdmin = ecq_PlatformAdmin q,
                      ec_CreatedAt = t\<rparr> (mv_confirmations r)\<rparr>))
      in if 2 \<le> length (mv_confirmations r1) then
           if \<not> hasPlatformAdmin (mv_confirmations r1)
           then (put_credential i (r1\<lparr>mv_confirmations := gdel (ecq_Subject q) (mv_confirmations r1)\<rparr>) s,
                 Inl ErrPlatformAdminRequired)
           else let r2 = clearProtectedReference (on_revocation
                      (\<lambda>v. v\<lparr>rv_Status := StatusRevoked, rv_RevokedAt := t\<rparr>) r1)
                in (put_credential i r2 s, Inr (confirmationResult r2))
         else (put_credential i r1 s, Inr (confirmationResult r1)))"

definition Cred_Get :: "cred_env \<Rightarrow> string \<Rightarrow> CredentialRepository \<Rightarrow> cred_error + Revocation" where
  "Cred_Get e i s =
     (case contextError (ce_ctx e) of Some err \<Rightarrow> Inl err | None \<Rightarrow>
      if \<not> ValidRevocationID i then Inl ErrInvalidRevocationRequest
      else case gget (cdr_records s) i of None \<Rightarrow> Inl ErrRevocationNotFound
        | Some r \<Rightarrow> Inr (publicMemoryRevocation r))"

definition InspectCleanup :: "cred_env \<Rightarrow> string \<Rightarrow> int \<Rightarrow> CredentialRepository \<Rightarrow> cred_error + (bool \<times> bool)" where
  "InspectCleanup e actionID epoch s =
     (case contextError (ce_ctx e) of Some err \<Rightarrow> Inl err | None \<Rightarrow>
      if \<not> ValidIdentifier actionID 256 \<or> epoch \<le> 0 then Inl ErrInvalidRevocationRequest
      else case contextError (ce_ctx_locked e) of Some err \<Rightarrow> Inl err | None \<Rightarrow>
      case gget (cdr_actionEpochs s) (actionEpochKey actionID epoch) of None \<Rightarrow> Inr (False, False)
      | Some i \<Rightarrow>
      case gget (cdr_records s) i of None \<Rightarrow> Inl ErrRevocationPersistence
      | Some r \<Rightarrow> Inr (True, Revocation_Terminal (mv_revocation r)))"

definition Cred_List :: "cred_env \<Rightarrow> ListFilter \<Rightarrow> CredentialRepository \<Rightarrow> cred_error + Revocation list" where
  "Cred_List e f s =
     (case contextError (ce_ctx e) of Some err \<Rightarrow> Inl err | None \<Rightarrow>
      if (lfi_WorkspaceID f \<noteq> '''' \<and> \<not> ValidIdentifier (lfi_WorkspaceID f) 256) \<or>
         (lfi_Status f \<noteq> RevocationStatusRaw '''' \<and> \<not> ValidRevocationStatus (lfi_Status f)) \<or>
         lfi_Limit f < 1 \<or> 1000 < lfi_Limit f then Inl ErrInvalidRevocationRequest
      else Inr (take (nat (lfi_Limit f)) (sort_key (\<lambda>v. (rv_CreatedAt v, rv_ID v))
        (map (\<lambda>(i, r). publicMemoryRevocation r) (filter (\<lambda>(i, r).
          \<not> (lfi_WorkspaceID f \<noteq> '''' \<and> rv_WorkspaceID (mv_revocation r) \<noteq> lfi_WorkspaceID f) \<and>
          \<not> (lfi_Status f \<noteq> RevocationStatusRaw '''' \<and> rv_Status (mv_revocation r) \<noteq> lfi_Status f))
          (cdr_records s))))))"

text \<open>
  One turn of the repository: a call that changes it, or the part of a \<open>RecoverManaged\<close> that
  holds the lock for one candidate.
\<close>

inductive cred_call :: "(string \<Rightarrow> string) \<Rightarrow> cred_env \<Rightarrow> CredentialRepository \<Rightarrow> CredentialRepository \<Rightarrow> bool"
  for sha e s where
  ccall_Prepare: "cred_call sha e s (fst (Prepare sha e pq s))"
| ccall_Authorize: "cred_call sha e s (fst (AuthorizeChildCreate sha e aq s))"
| ccall_Anchor: "cred_call sha e s (fst (RecordAnchor sha e nq s))"
| ccall_Activate: "cred_call sha e s (fst (Activate sha e tq s))"
| ccall_NoCredential: "cred_call sha e s (fst (RecordNoCredential sha e tq s))"
| ccall_RecoverPrepared: "cred_call sha e s (fst (RecoverPrepared e limit s))"
| ccall_RecoverManaged: "cred_call sha e s (fst (recover_managed_item e n i actionID s))"
| ccall_RecoverExhausted: "cred_call sha e s (fst (RecoverExhausted sha e limit s))"
| ccall_Request: "cred_call sha e s (fst (RequestRevocation sha e tq s))"
| ccall_Claim: "cred_call sha e s (fst (ClaimRevocations sha e cq s))"
| ccall_Heartbeat: "cred_call sha e s (fst (Cred_Heartbeat sha e hq s))"
| ccall_Complete: "cred_call sha e s (fst (CompleteRevocation sha e f s))"
| ccall_Retry: "cred_call sha e s (fst (RetryRevocation sha e rq s))"
| ccall_Manual: "cred_call sha e s (fst (RequireManual sha e mq s))"
| ccall_Requeue: "cred_call sha e s (fst (RequeueManual e uq s))"
| ccall_Confirm: "cred_call sha e s (fst (SubmitExternalConfirmation e xq s))"

definition cred_step :: "(string \<Rightarrow> string) \<Rightarrow> CredentialRepository \<Rightarrow> CredentialRepository \<Rightarrow> bool" where
  "cred_step sha s u \<longleftrightarrow> (\<exists>e. cred_call sha e s u)"


section \<open>The life of a credential record\<close>

abbreviation cred_status :: "memoryRevocationRecord \<Rightarrow> RevocationStatus" where
  "cred_status r \<equiv> rv_Status (mv_revocation r)"

text \<open>The state machine as its specification: which status may follow which.\<close>

fun cred_next :: "RevocationStatus \<Rightarrow> RevocationStatus list" where
  "cred_next StatusPrepared = [StatusPrepared, StatusAnchored, StatusNoCredential]"
| "cred_next StatusAnchored = [StatusActive, StatusRevocationPending]"
| "cred_next StatusActive = [StatusRevocationPending]"
| "cred_next StatusRevocationPending = [StatusRevoking, StatusManualRequired]"
| "cred_next StatusRevoking = [StatusRevoking, StatusRevoked, StatusRevocationPending, StatusManualRequired]"
| "cred_next StatusManualRequired = [StatusManualRequired, StatusRevocationPending, StatusRevoked]"
| "cred_next _ = []"

text \<open>What is fixed when a record is created.\<close>

definition frozen ::
  "memoryRevocationRecord \<Rightarrow> string \<times> string \<times> int \<times> string \<times> bool \<times> int \<times> time \<times> time \<times> string \<times> string" where
  "frozen r = (rv_ID (mv_revocation r), rv_ActionID (mv_revocation r), rv_ActionLeaseEpoch (mv_revocation r),
     rv_TargetKey (mv_revocation r), rv_Production (mv_revocation r),
     rv_CredentialTTLSeconds (mv_revocation r), rv_CredentialExpiresAt (mv_revocation r),
     rv_CreatedAt (mv_revocation r), mv_actionTokenSHA256 r, mv_childCreatePermitSHA256 r)"

definition epoch_key :: "memoryRevocationRecord \<Rightarrow> string" where
  "epoch_key r = actionEpochKey (rv_ActionID (mv_revocation r)) (rv_ActionLeaseEpoch (mv_revocation r))"

definition cred_move :: "cred_env \<Rightarrow> memoryRevocationRecord \<Rightarrow> memoryRevocationRecord \<Rightarrow> bool" where
  "cred_move e r r' \<longleftrightarrow> r' = r \<or>
     frozen r' = frozen r \<and> cred_status r' \<in> set (cred_next (cred_status r)) \<and>
     rv_ClaimEpoch (mv_revocation r) \<le> rv_ClaimEpoch (mv_revocation r') \<and>
     (mv_childCreateAuthorizedAt r' = mv_childCreateAuthorizedAt r \<or> mv_childCreateAuthorizedAt r = 0) \<and>
     (cred_status r' = StatusNoCredential \<longrightarrow> mv_childCreateAuthorizedAt r' = 0 \<or>
        (\<exists>n. rv_CredentialExpiresAt (mv_revocation r) + PreparedRecoveryGrace \<le> ce_clock e n))"

section \<open>The invariant of one record\<close>

text \<open>A record in one of these statuses stands for a credential that may be alive.\<close>

definition outstanding :: "RevocationStatus \<Rightarrow> bool" where
  "outstanding st \<longleftrightarrow> st \<in> {StatusAnchored, StatusActive, StatusRevocationPending, StatusRevoking, StatusManualRequired}"

definition confirmations_ok :: "memoryRevocationRecord \<Rightarrow> bool" where
  "confirmations_ok r \<longleftrightarrow> distinct (gkeys (mv_confirmations r)) \<and>
     (\<forall>subject c. gget (mv_confirmations r) subject = Some c \<longrightarrow> ec_Subject c = subject \<and>
        ec_EvidenceHash c = rv_EvidenceHash (mv_revocation r) \<and> ValidSHA256 (ec_EvidenceHash c)) \<and>
     (mv_confirmations r \<noteq> [] \<longrightarrow> cred_status r \<in> {StatusManualRequired, StatusRevoked}) \<and>
     (cred_status r = StatusManualRequired \<longrightarrow> length (mv_confirmations r) \<le> 1)"

definition claims_ok :: "memoryRevocationRecord \<Rightarrow> bool" where
  "claims_ok r \<longleftrightarrow> rv_Attempt (mv_revocation r) = rv_ClaimEpoch (mv_revocation r) \<and>
     0 \<le> mv_retryCycleAttemptBase r \<and> mv_retryCycleAttemptBase r \<le> rv_Attempt (mv_revocation r) \<and>
     rv_ClaimEpoch (mv_revocation r) \<le> MaxInt64 \<and>
     rv_Attempt (mv_revocation r) - mv_retryCycleAttemptBase r \<le> MaxRevocationAttempts \<and>
     (mv_completedClaimEpoch r = 0 \<or>
      cred_status r = StatusRevoked \<and> mv_completedClaimEpoch r = rv_ClaimEpoch (mv_revocation r))"

definition revoked_by_claim :: "memoryRevocationRecord \<Rightarrow> bool" where
  "revoked_by_claim r \<longleftrightarrow> 0 < mv_completedClaimEpoch r \<and> mv_completedClaimEpoch r = rv_ClaimEpoch (mv_revocation r)"

definition revoked_by_people :: "memoryRevocationRecord \<Rightarrow> bool" where
  "revoked_by_people r \<longleftrightarrow> 2 \<le> length (mv_confirmations r) \<and> hasPlatformAdmin (mv_confirmations r)"

definition cred_phase :: "memoryRevocationRecord \<Rightarrow> bool" where
  "cred_phase r \<longleftrightarrow> confirmations_ok r \<and> claims_ok r \<and>
     (rv_AccessorPresent (mv_revocation r) \<longleftrightarrow> outstanding (cred_status r)) \<and>
     (\<not> outstanding (cred_status r) \<longrightarrow> prf_Ciphertext (mv_protected r) = '''') \<and>
     (outstanding (cred_status r) \<longrightarrow> mv_childCreateAuthorizedAt r \<noteq> 0) \<and>
     (cred_status r = StatusRevoked \<longrightarrow> revoked_by_claim r \<or> revoked_by_people r) \<and>
     ValidRevocationStatus (cred_status r)"

definition cred_identity :: "string \<Rightarrow> memoryRevocationRecord \<Rightarrow> bool" where
  "cred_identity i r \<longleftrightarrow> (let v = mv_revocation r in
     rv_ID v = i \<and> \<not> rv_Production v \<and> ValidIdentifier (rv_ActionID v) 256 \<and> 0 < rv_ActionLeaseEpoch v \<and>
     validCredentialTTLSeconds (rv_CredentialTTLSeconds v) \<and> rv_CreatedAt v < rv_CredentialExpiresAt v \<and>
     rv_CredentialExpiresAt v \<le> rv_CreatedAt v + rv_CredentialTTLSeconds v * Second)"

definition cred_inv :: "CredentialRepository \<Rightarrow> bool" where
  "cred_inv s \<longleftrightarrow> distinct (gkeys (cdr_records s)) \<and>
     (\<forall>i r. gget (cdr_records s) i = Some r \<longrightarrow> cred_identity i r \<and> cred_phase r \<and>
        gget (cdr_actionEpochs s) (epoch_key r) = Some i) \<and>
     (\<forall>k i. gget (cdr_actionEpochs s) k = Some i \<longrightarrow>
        (\<exists>r. gget (cdr_records s) i = Some r \<and> epoch_key r = k))"

definition empty_credentials :: CredentialRepository where
  "empty_credentials = \<lparr>cdr_records = [], cdr_actionEpochs = []\<rparr>"

lemma cred_invD:
  assumes "cred_inv s"
  shows "distinct (gkeys (cdr_records s))"
    and "gget (cdr_records s) i = Some r \<Longrightarrow> cred_identity i r"
    and "gget (cdr_records s) i = Some r \<Longrightarrow> cred_phase r"
    and "gget (cdr_records s) i = Some r \<Longrightarrow> gget (cdr_actionEpochs s) (epoch_key r) = Some i"
    and "gget (cdr_actionEpochs s) k = Some i \<Longrightarrow> \<exists>r. gget (cdr_records s) i = Some r \<and> epoch_key r = k"
  using assms unfolding cred_inv_def by blast+

lemma cred_inv_empty: "cred_inv empty_credentials"
  by (simp add: cred_inv_def empty_credentials_def)

lemma frozen_key: "frozen r' = frozen r \<Longrightarrow> epoch_key r' = epoch_key r"
  by (simp add: frozen_def epoch_key_def)

lemma frozen_identity: "frozen r' = frozen r \<Longrightarrow> cred_identity i r \<Longrightarrow> cred_identity i r'"
  by (simp add: frozen_def cred_identity_def Let_def)

lemma cred_move_refl: "cred_move e r r"
  by (simp add: cred_move_def)

lemma cred_move_frozen: "cred_move e r r' \<Longrightarrow> frozen r' = frozen r"
  by (auto simp: cred_move_def)

text \<open>The key of an action and an epoch determines both.\<close>

lemma actionEpochKey_inj:
  "CHR 0x00 \<notin> set a \<Longrightarrow> CHR 0x00 \<notin> set b \<Longrightarrow> actionEpochKey a m = actionEpochKey b n \<Longrightarrow> a = b \<and> m = n"
  unfolding actionEpochKey_def by (drule append_sep_inj) (auto dest: FormatInt_inj)

section \<open>Effects\<close>

inductive cred_effect :: "cred_env \<Rightarrow> CredentialRepository \<Rightarrow> CredentialRepository \<Rightarrow> bool" for e s where
  ceff_insert: "gget (cdr_records s) i = None \<Longrightarrow> gget (cdr_actionEpochs s) (epoch_key r) = None \<Longrightarrow>
    cred_identity i r \<Longrightarrow> cred_phase r \<Longrightarrow>
    cred_effect e s (s\<lparr>cdr_records := gset i r (cdr_records s),
      cdr_actionEpochs := gset (epoch_key r) i (cdr_actionEpochs s)\<rparr>)"
| ceff_put: "gget (cdr_records s) i = Some r \<Longrightarrow> cred_move e r r' \<Longrightarrow> cred_phase r' \<Longrightarrow>
    cred_effect e s (put_credential i r' s)"

lemma cred_effect_inv: "cred_effect e s u \<Longrightarrow> cred_inv s \<Longrightarrow> cred_inv u"
proof (induction rule: cred_effect.induct)
  case (ceff_insert i r)
  note D = cred_invD [OF ceff_insert(5)]
  have "epoch_key q \<noteq> epoch_key r" if "gget (cdr_records s) j = Some q" for j q
    using D(4) [OF that] ceff_insert(2) by auto
  moreover have "\<exists>q. gget (gset i r (cdr_records s)) j = Some q \<and> epoch_key q = k"
    if "gget (gset (epoch_key r) i (cdr_actionEpochs s)) k = Some j" for k j
    using that D(5) [of k j] ceff_insert(1) by (auto simp: gomap_simps split: if_splits)
  ultimately show ?case
    using D(1-4) ceff_insert(3,4) by (auto simp: cred_inv_def gomap_simps distinct_gset)
next
  case (ceff_put i r r')
  note D = cred_invD [OF ceff_put(4)]
  have same: "frozen r' = frozen r" by (rule cred_move_frozen [OF ceff_put(2)])
  have "\<exists>q. gget (gset i r' (cdr_records s)) j = Some q \<and> epoch_key q = k"
    if "gget (cdr_actionEpochs s) k = Some j" for k j
    using D(5) [OF that] ceff_put(1) frozen_key [OF same] by (auto simp: gomap_simps)
  then show ?case
    using D(1-4) ceff_put(1,3) frozen_key [OF same] frozen_identity [OF same]
    by (auto simp: cred_inv_def put_credential_def gomap_simps distinct_gset)
qed

interpretation cred_effect_system: invariant_system empty_credentials "cred_effect e" cred_inv
  by unfold_locales (rule cred_inv_empty, rule cred_effect_inv)


abbreviation cred_effects :: "cred_env \<Rightarrow> CredentialRepository \<Rightarrow> CredentialRepository \<Rightarrow> bool" where
  "cred_effects e \<equiv> (cred_effect e)\<^sup>*\<^sup>*"

lemmas cred_update_defs = on_revocation_def bump_def clearActiveClaim_def clearProtectedReference_def

lemmas cred_phase_defs = cred_phase_def confirmations_ok_def claims_ok_def outstanding_def
  revoked_by_claim_def revoked_by_people_def

lemma cred_effects_put:
  "gget (cdr_records s) i = Some r \<Longrightarrow> cred_move e r r' \<and> cred_phase r' \<Longrightarrow> cred_effects e s (put_credential i r' s)"
  by (intro r_into_rtranclp ceff_put) auto

lemma put_credential_twice: "put_credential i r' (put_credential i r s) = put_credential i r' s"
  by (simp add: put_credential_def AList.update_last)

lemma gget_put_credential: "gget (cdr_records (put_credential i r s)) j = (if j = i then Some r else gget (cdr_records s) j)"
  by (simp add: put_credential_def gomap_simps)

lemma cred_moveI:
  "frozen r' = frozen r \<Longrightarrow> cred_status r' \<in> set (cred_next (cred_status r)) \<Longrightarrow>
   rv_ClaimEpoch (mv_revocation r) \<le> rv_ClaimEpoch (mv_revocation r') \<Longrightarrow>
   mv_childCreateAuthorizedAt r' = mv_childCreateAuthorizedAt r \<Longrightarrow>
   (cred_status r' = StatusNoCredential \<Longrightarrow> mv_childCreateAuthorizedAt r = 0 \<or>
     (\<exists>n. rv_CredentialExpiresAt (mv_revocation r) + PreparedRecoveryGrace \<le> ce_clock e n)) \<Longrightarrow> cred_move e r r'"
  unfolding cred_move_def by auto

lemma applyRequestRevocation_move:
  assumes "applyRequestRevocation t r = Inr r'" and "cred_phase r"
  shows "cred_move e r r' \<and> cred_phase r'"
proof (cases "cred_status r \<in> {StatusAnchored, StatusActive}")
  case True
  then have r': "r' = bump t (on_revocation (\<lambda>v. v\<lparr>rv_Status := StatusRevocationPending,
          rv_AvailableAt := t, rv_RevocationRequestedAt := t\<rparr>)
          (r\<lparr>mv_retryCycleAttemptBase := rv_Attempt (mv_revocation r), mv_retryCycleStartedAt := t\<rparr>))"
    using assms(1) by (auto simp: applyRequestRevocation_def)
  have "cred_phase r'"
    using True assms(2)
    by (cases "cred_status r") (simp_all add: r' cred_update_defs cred_phase_defs credential_durations)
  moreover have "cred_move e r r'"
    unfolding r' using True by (intro cred_moveI) (auto simp: cred_update_defs frozen_def)
  ultimately show ?thesis by simp
next
  case False
  then have "r' = r"
    using assms(1) by (auto simp: applyRequestRevocation_def split: RevocationStatus.splits)
  then show ?thesis using assms(2) cred_move_refl by simp
qed

lemma revoke_unless_effects:
  assumes r: "gget (cdr_records s) i = Some r" and first: "cred_move e r r1 \<and> cred_phase r1"
  shows "cred_effects e s (fst (revoke_unless current t i r1 s))"
proof -
  have put: "cred_effects e s (put_credential i r1 s)" by (rule cred_effects_put [OF r first])
  have "cred_effects e s (put_credential i r' s)" if "applyRequestRevocation t r1 = Inr r'" for r'
  proof -
    have "cred_effects e (put_credential i r1 s) (put_credential i r' (put_credential i r1 s))"
      by (rule cred_effects_put [OF _ applyRequestRevocation_move [OF that conjunct2 [OF first]]])
        (simp add: gget_put_credential)
    with put show ?thesis unfolding put_credential_twice by (rule rtranclp_trans)
  qed
  with put show ?thesis by (auto simp: revoke_unless_def split: sum.splits)
qed

lemma revoke_unless_unchanged:
  assumes "cred_inv s" and r: "gget (cdr_records s) i = Some r"
  shows "cred_effects e s (fst (revoke_unless current t i r s))"
  using cred_invD(3) [OF assms] cred_move_refl by (intro revoke_unless_effects [OF r]) auto

lemma new_record_phase: "cred_phase (new_record sha q d t token)"
  by (simp add: new_record_def new_revocation_def cred_phase_defs credential_durations go_defs)

lemma resolvePrepareAction_Inr:
  "resolvePrepareAction e n f t = Inr d \<Longrightarrow> am_ActionID d = af_ActionID f \<and> am_LeaseEpoch d = af_Epoch f \<and>
   validCredentialTTLSeconds (am_CredentialTTLSeconds d)"
  by (auto simp: resolvePrepareAction_def resolveAction_def Let_def split: sum.splits option.splits if_splits)

lemma Prepare_effects: "cred_effects e s (fst (Prepare sha e q0 s))"
proof -
  have step: "cred_effects e s (fst (prepare_locked sha e q d t s))"
    if "am_ActionID d = af_ActionID (pr_Fence q)" "am_LeaseEpoch d = af_Epoch (pr_Fence q)"
      "validCredentialTTLSeconds (am_CredentialTTLSeconds d)" "Credential_validActionFence (pr_Fence q)"
      "\<not> am_Production d" "t < pr_CredentialExpiresAt q"
      "\<not> After (pr_CredentialExpiresAt q) (signedCredentialExpiry t (am_CredentialTTLSeconds d))" for q d t
  proof -
    have "cred_identity (pr_RevocationID q) (new_record sha q d t token)" for token
      using that CanonicalCredentialExpiry_le [of "t + am_CredentialTTLSeconds d * Second"]
      by (auto simp: cred_identity_def new_record_def new_revocation_def Let_def
          Credential_validActionFence_def signedCredentialExpiry_def)
    moreover have key: "epoch_key (new_record sha q d t token) =
        actionEpochKey (af_ActionID (pr_Fence q)) (af_Epoch (pr_Fence q))" for token
      using that(1,2) by (simp add: epoch_key_def new_record_def new_revocation_def)
    ultimately have "cred_effects e s (s\<lparr>cdr_records := gset (pr_RevocationID q) (new_record sha q d t token) (cdr_records s),
        cdr_actionEpochs := gset (actionEpochKey (af_ActionID (pr_Fence q)) (af_Epoch (pr_Fence q)))
          (pr_RevocationID q) (cdr_actionEpochs s)\<rparr>)"
      if "gget (cdr_records s) (pr_RevocationID q) = None"
        "gget (cdr_actionEpochs s) (actionEpochKey (af_ActionID (pr_Fence q)) (af_Epoch (pr_Fence q))) = None" for token
      using that ceff_insert [of s "pr_RevocationID q" "new_record sha q d t token" e, unfolded key] new_record_phase
      by (intro r_into_rtranclp) simp
    then show ?thesis
      by (auto simp: prepare_locked_def Let_def split: option.splits)
  qed
  show ?thesis
    unfolding Prepare_def Let_def
    by (auto simp: sameActionScope_def dest!: resolvePrepareAction_Inr intro!: step
        split: option.splits sum.splits)
qed


lemma withLocked_effects:
  assumes "\<And>inspection s. cred_inv s \<Longrightarrow> cred_effects e s (fst (operation inspection s))" and "cred_inv s"
  shows "cred_effects e s (fst (withLockedActionInspection source operation s))"
  using assms by (auto simp: withLockedActionInspection_def Let_def split: list.splits sum.splits)

lemma authorize_move:
  assumes "cred_phase r" and "cred_status r = StatusPrepared" and "mv_childCreateAuthorizedAt r = 0"
  shows "cred_move e r (bump t (r\<lparr>mv_childCreateAuthorizedAt := t, mv_childCreateTTL := ttl\<rparr>)) \<and>
    cred_phase (bump t (r\<lparr>mv_childCreateAuthorizedAt := t, mv_childCreateTTL := ttl\<rparr>))"
proof
  show "cred_phase (bump t (r\<lparr>mv_childCreateAuthorizedAt := t, mv_childCreateTTL := ttl\<rparr>))"
    using assms by (simp add: cred_update_defs cred_phase_defs)
  show "cred_move e r (bump t (r\<lparr>mv_childCreateAuthorizedAt := t, mv_childCreateTTL := ttl\<rparr>))"
    unfolding cred_move_def using assms by (intro disjI2) (simp add: cred_update_defs frozen_def)
qed

lemma Authorize_effects:
  assumes "cred_inv s" shows "cred_effects e s (fst (AuthorizeChildCreate sha e q s))"
proof -
  have op: "cred_effects e s (fst (authorize_locked sha t q inspection s))" if "cred_inv s" for inspection t s
    using authorize_move cred_invD(3) [OF that]
    by (auto simp: authorize_locked_def Let_def intro!: cred_effects_put split: option.splits)
  show ?thesis
    by (auto simp: AuthorizeChildCreate_def intro!: withLocked_effects op assms split: option.splits)
qed

lemma anchor_move:
  assumes "cred_phase r" and "cred_status r = StatusPrepared" and "mv_childCreateAuthorizedAt r \<noteq> 0"
  shows "cred_move e r (bump t (on_revocation (\<lambda>v. v\<lparr>rv_Status := StatusAnchored, rv_AccessorPresent := True,
      rv_AccessorHMAC := h, rv_EncryptionKeyID := k, rv_AnchoredAt := t\<rparr>) (r\<lparr>mv_protected := p\<rparr>))) \<and>
    cred_phase (bump t (on_revocation (\<lambda>v. v\<lparr>rv_Status := StatusAnchored, rv_AccessorPresent := True,
      rv_AccessorHMAC := h, rv_EncryptionKeyID := k, rv_AnchoredAt := t\<rparr>) (r\<lparr>mv_protected := p\<rparr>)))"
    (is "cred_move e r ?r \<and> cred_phase ?r")
proof
  show "cred_phase ?r" using assms by (simp add: cred_update_defs cred_phase_defs)
  show "cred_move e r ?r" using assms by (intro cred_moveI) (simp_all add: cred_update_defs frozen_def)
qed

lemma Anchor_effects:
  assumes "cred_inv s" shows "cred_effects e s (fst (RecordAnchor sha e q s))"
proof -
  have op: "cred_effects e s (fst (anchor_locked sha e q inspection s))" if "cred_inv s" for inspection s
  proof -
    note new = revoke_unless_effects [OF _ anchor_move [OF cred_invD(3) [OF that]]]
    note old = revoke_unless_unchanged [OF that]
    show ?thesis
      by (auto simp: anchor_locked_def Let_def new old split: option.splits bool.splits)
  qed
  show ?thesis
    by (auto simp: RecordAnchor_def intro!: withLocked_effects op assms split: option.splits)
qed

lemma activate_move:
  assumes "cred_phase r" and "cred_status r = StatusAnchored"
  shows "cred_move e r (bump t (on_revocation (\<lambda>v. v\<lparr>rv_Status := StatusActive, rv_ActivatedAt := t\<rparr>) r)) \<and>
    cred_phase (bump t (on_revocation (\<lambda>v. v\<lparr>rv_Status := StatusActive, rv_ActivatedAt := t\<rparr>) r))"
    (is "cred_move e r ?r \<and> cred_phase ?r")
proof
  show "cred_phase ?r" using assms by (simp add: cred_update_defs cred_phase_defs)
  show "cred_move e r ?r" using assms by (intro cred_moveI) (simp_all add: cred_update_defs frozen_def)
qed

lemma Activate_effects:
  assumes "cred_inv s" shows "cred_effects e s (fst (Activate sha e q s))"
proof -
  have op: "cred_effects e s (fst (activate_locked sha e q inspection s))" if "cred_inv s" for inspection s
  proof -
    note new = revoke_unless_effects [OF _ activate_move [OF cred_invD(3) [OF that]]]
    note old = revoke_unless_unchanged [OF that]
    show ?thesis
      by (auto simp: activate_locked_def Let_def new old split: option.splits RevocationStatus.splits)
  qed
  show ?thesis
    by (auto simp: Activate_def intro!: withLocked_effects op assms split: option.splits)
qed

lemma actionTransition_effects:
  assumes inv: "cred_inv s"
    and "\<And>r r' t. cred_phase r \<Longrightarrow> transition t r = Inr r' \<Longrightarrow> cred_move e r r' \<and> cred_phase r'"
  shows "cred_effects e s (fst (actionTransition sha e q transition s))"
proof -
  have put: "cred_effects e s (put_credential i r' s)"
    if "actionRecord sha i f d s = Inr r" and "transition t r = Inr r'" for i f d r t r'
  proof -
    have r: "gget (cdr_records s) i = Some r"
      using that(1) by (auto simp: actionRecord_def Let_def split: option.splits if_splits)
    show ?thesis by (rule cred_effects_put [OF r assms(2) [OF cred_invD(3) [OF inv r] that(2)]])
  qed
  show ?thesis
    by (auto simp: actionTransition_def Let_def intro!: put split: option.splits sum.splits)
qed

lemma noCredential_move:
  assumes "cred_phase r" and "noCredential t r = Inr r'"
  shows "cred_move e r r' \<and> cred_phase r'"
proof (cases "cred_status r = StatusPrepared")
  case True
  then have "mv_childCreateAuthorizedAt r = 0"
    and r': "r' = bump t (on_revocation (\<lambda>v. v\<lparr>rv_Status := StatusNoCredential\<rparr>) r)"
    using assms(2) by (auto simp: noCredential_def split: if_splits)
  then show ?thesis
    using assms(1) True
    by (intro conjI cred_moveI) (simp_all add: r' cred_update_defs frozen_def cred_phase_defs)
next
  case False
  then have "r' = r" using assms(2) by (auto simp: noCredential_def split: RevocationStatus.splits)
  then show ?thesis using assms(1) cred_move_refl by simp
qed

lemma NoCredential_effects:
  "cred_inv s \<Longrightarrow> cred_effects e s (fst (RecordNoCredential sha e q s))"
  unfolding RecordNoCredential_def by (erule actionTransition_effects) (rule noCredential_move)

lemma Request_effects:
  assumes "cred_inv s" shows "cred_effects e s (fst (RequestRevocation sha e q s))"
proof -
  have "cred_effects e s (fst (actionTransition sha e q applyRequestRevocation s))"
    using assms by (rule actionTransition_effects) (rule applyRequestRevocation_move)
  then show ?thesis
    using cred_invD(3) [OF assms]
    by (auto simp: RequestRevocation_def intro!: cred_effects_put applyRequestRevocation_move
        split: option.splits sum.splits)
qed

lemma RecoverManaged_effects:
  assumes "cred_inv s" shows "cred_effects e s (fst (recover_managed_item e n i a s))"
  unfolding recover_managed_item_def
proof (rule withLocked_effects [OF _ assms])
  fix inspection s
  assume "cred_inv s"
  then show "cred_effects e s (fst (let t = ce_clock e n in
       case gget (cdr_records s) i of None \<Rightarrow> (s, Inr None) | Some r \<Rightarrow>
       if \<not> managed r then (s, Inr None)
       else if inspectionScopeMatches (mv_revocation r) (ai_Metadata inspection) \<and>
               inspectionFenceCurrent r inspection t MinPostChildFenceWindow \<and>
               \<not> (cred_status r = StatusAnchored \<and>
                  \<not> After (rv_AnchoredAt (mv_revocation r) + ManagedAnchorRecoveryGrace) t)
       then (s, Inr None)
       else case applyRequestRevocation t r of Inl err \<Rightarrow> (s, Inl err)
         | Inr r' \<Rightarrow> (put_credential i r' s, Inr (Some (publicMemoryRevocation r')))))"
    by (auto simp: Let_def intro!: cred_effects_put applyRequestRevocation_move
        dest: cred_invD(3) split: option.splits sum.splits)
qed

lemma candidates_entries:
  assumes "distinct (gkeys (cdr_records s))"
  shows "distinct (gkeys (candidates eligible key limit s))"
    and "(i, r) \<in> set (candidates eligible key limit s) \<Longrightarrow> gget (cdr_records s) i = Some r \<and> eligible r"
proof -
  let ?found = "filter (\<lambda>(i, r). eligible r) (cdr_records s)"
  have "distinct (gkeys (sort_key (\<lambda>(i, r). key (mv_revocation r)) ?found))"
    using assms by (simp add: distinct_map distinct_map_filter) (auto simp: inj_on_def distinct_map)
  then show "distinct (gkeys (candidates eligible key limit s))"
    by (simp add: candidates_def take_map [symmetric] distinct_take)
  show "gget (cdr_records s) i = Some r \<and> eligible r"
    if "(i, r) \<in> set (candidates eligible key limit s)"
    using that assms by (auto simp: candidates_def dest!: in_set_takeD)
qed

lemma update_entries_effects:
  assumes "distinct (gkeys es)"
    and "\<And>i r. (i, r) \<in> set es \<Longrightarrow> gget (cdr_records s) i = Some r \<and> cred_move e r (f r) \<and> cred_phase (f r)"
  shows "cred_effects e s (update_entries f es s)"
  using assms
proof (induction es arbitrary: s)
  case (Cons p es)
  obtain i r where p: "p = (i, r)" by (cases p)
  have "cred_effects e s (put_credential i (f r) s)"
    using Cons.prems(2) [of i r] by (intro cred_effects_put) (auto simp: p)
  moreover have "cred_effects e (put_credential i (f r) s) (update_entries f es (put_credential i (f r) s))"
  proof (rule Cons.IH)
    show "distinct (gkeys es)" using Cons.prems(1) by simp
    show "gget (cdr_records (put_credential i (f r) s)) j = Some q \<and> cred_move e q (f q) \<and> cred_phase (f q)"
      if "(j, q) \<in> set es" for j q
      using that Cons.prems(1) Cons.prems(2) [of j q] by (auto simp: p gget_put_credential rev_image_eqI)
  qed
  ultimately show ?case by (simp add: p)
qed simp

lemma candidates_effects:
  assumes inv: "cred_inv s"
    and "\<And>r. cred_phase r \<Longrightarrow> eligible r \<Longrightarrow> cred_move e r (f r) \<and> cred_phase (f r)"
  shows "cred_effects e s (update_entries f (candidates eligible key limit s) s)"
  using candidates_entries [OF cred_invD(1) [OF inv]] cred_invD(3) [OF inv] assms(2)
  by (intro update_entries_effects) blast+

lemma RecoverPrepared_effects:
  assumes "cred_inv s" shows "cred_effects e s (fst (RecoverPrepared e limit s))"
proof -
  let ?t = "ce_clock e 0"
  have "cred_move e r (give_up_prepared ?t r) \<and> cred_phase (give_up_prepared ?t r)"
    if "cred_phase r" "prepared_recoverable ?t r" for r
  proof
    show "cred_phase (give_up_prepared ?t r)"
      using that by (simp add: give_up_prepared_def prepared_recoverable_def cred_update_defs cred_phase_defs)
    show "cred_move e r (give_up_prepared ?t r)"
      using that by (intro cred_moveI)
        (auto simp: give_up_prepared_def prepared_recoverable_def cred_update_defs frozen_def intro: exI [of _ 0])
  qed
  then have "cred_effects e s (update_entries (give_up_prepared ?t)
      (candidates (prepared_recoverable ?t) (\<lambda>v. (rv_CredentialExpiresAt v, rv_ID v)) limit s) s)"
    by (intro candidates_effects [OF assms])
  then show ?thesis by (simp add: RecoverPrepared_def Let_def split: option.split)
qed

lemma give_up_claims_move:
  assumes "cred_phase r" and "cred_status r \<in> {StatusRevocationPending, StatusRevoking}"
  shows "cred_move e r (give_up_claims sha t r) \<and> cred_phase (give_up_claims sha t r)"
proof
  show "cred_phase (give_up_claims sha t r)"
    using assms by (cases "cred_status r") (simp_all add: give_up_claims_def cred_update_defs cred_phase_defs)
  show "cred_move e r (give_up_claims sha t r)"
    using assms(2) by (intro cred_moveI) (auto simp: give_up_claims_def cred_update_defs frozen_def)
qed

lemma RecoverExhausted_effects:
  assumes "cred_inv s" shows "cred_effects e s (fst (RecoverExhausted sha e limit s))"
proof -
  let ?t = "ce_clock e 0"
  have "cred_effects e s (update_entries (give_up_claims sha ?t)
      (candidates (exhausted_recoverable ?t) (\<lambda>v. (rv_RevocationRequestedAt v, rv_ID v)) limit s) s)"
    by (intro candidates_effects [OF assms] give_up_claims_move) (auto simp: exhausted_recoverable_def)
  then show ?thesis by (simp add: RecoverExhausted_def Let_def split: option.split)
qed

abbreviation claim_entry :: "memoryPreparedClaim \<Rightarrow> credential_entry" where
  "claim_entry c \<equiv> (pcl_id c, pcl_record c)"

lemma prepare_claims_entries:
  "prepare_claims e n es = Inr cs \<Longrightarrow> map claim_entry cs = es \<and>
   (\<forall>c\<in>set cs. rv_ClaimEpoch (mv_revocation (pcl_record c)) \<noteq> MaxInt64)"
  by (induction es arbitrary: n cs) (auto simp: Let_def split: if_splits option.splits sum.splits)

lemma start_claim_counts:
  assumes "claims_ok r" and "rv_ClaimEpoch (mv_revocation r) \<noteq> MaxInt64" and "\<not> memoryRevocationExhausted r t"
    and "cred_status r \<noteq> StatusRevoked"
  shows "claims_ok (start_claim sha q t token r)"
    and "rv_ClaimEpoch (mv_revocation (start_claim sha q t token r)) = rv_ClaimEpoch (mv_revocation r) + 1"
proof -
  have "wrap64 (rv_ClaimEpoch (mv_revocation r) + 1) = rv_ClaimEpoch (mv_revocation r) + 1"
    using assms(1,2) by (intro wrap64_inc) (auto simp: claims_ok_def MaxInt64_def MinInt64_def)
  then show "claims_ok (start_claim sha q t token r)"
    and "rv_ClaimEpoch (mv_revocation (start_claim sha q t token r)) = rv_ClaimEpoch (mv_revocation r) + 1"
    using assms by (auto simp: claims_ok_def start_claim_def cred_update_defs memoryRevocationExhausted_def)
qed

lemma start_claim_move:
  assumes phase: "cred_phase r" and eligible: "claimable_revocation t r"
    and "rv_ClaimEpoch (mv_revocation r) \<noteq> MaxInt64"
  shows "cred_move e r (start_claim sha q t token r) \<and> cred_phase (start_claim sha q t token r)"
proof
  have claims: "claims_ok r" and live: "\<not> memoryRevocationExhausted r t"
    and st: "cred_status r \<in> {StatusRevocationPending, StatusRevoking}"
    using phase eligible by (auto simp: cred_phase_def claimable_revocation_def)
  from st have "cred_status r \<noteq> StatusRevoked" by auto
  note counts = start_claim_counts [OF claims assms(3) live this, of sha q token]
  show "cred_move e r (start_claim sha q t token r)"
    using st by (intro cred_moveI) (auto simp: counts(2), auto simp: start_claim_def cred_update_defs frozen_def)
  have "confirmations_ok (start_claim sha q t token r)"
    using phase st by (cases "cred_status r")
      (simp_all add: cred_phase_def confirmations_ok_def start_claim_def cred_update_defs)
  with counts(1) show "cred_phase (start_claim sha q t token r)"
    using phase st by (cases "cred_status r")
      (simp_all add: cred_phase_def outstanding_def, simp_all add: start_claim_def cred_update_defs)
qed

lemma poison_claim_move:
  assumes "cred_phase r" and "cred_status r = StatusRevoking"
  shows "cred_move e r (poison_claim sha t r) \<and> cred_phase (poison_claim sha t r)"
proof
  show "cred_phase (poison_claim sha t r)"
    using assms by (simp add: poison_claim_def cred_update_defs cred_phase_defs)
  show "cred_move e r (poison_claim sha t r)"
    using assms(2) by (intro cred_moveI) (auto simp: poison_claim_def cred_update_defs frozen_def)
qed

lemma start_claim_status: "cred_status (start_claim sha q t token r) = StatusRevoking"
  by (simp add: start_claim_def cred_update_defs)

lemma claim_effects:
  assumes r: "gget (cdr_records s) i = Some r" and "cred_phase r" and "claimable_revocation t r"
    and "rv_ClaimEpoch (mv_revocation r) \<noteq> MaxInt64"
  shows "cred_effects e s (put_credential i (start_claim sha q t token r) s)"
    and "cred_effects e s (put_credential i (poison_claim sha t (start_claim sha q t token r)) s)"
proof -
  let ?r = "start_claim sha q t token r"
  note m = start_claim_move [OF assms(2-4), of e sha q token]
  show one: "cred_effects e s (put_credential i ?r s)" by (rule cred_effects_put [OF r m])
  have "cred_effects e (put_credential i ?r s) (put_credential i (poison_claim sha t ?r) (put_credential i ?r s))"
    by (rule cred_effects_put [OF _ poison_claim_move [OF conjunct2 [OF m] start_claim_status]])
      (simp add: gget_put_credential)
  with one show "cred_effects e s (put_credential i (poison_claim sha t ?r) s)"
    unfolding put_credential_twice by (rule rtranclp_trans)
qed

lemma apply_claims_effects:
  assumes "distinct (map pcl_id cs)"
    and "\<And>c. c \<in> set cs \<Longrightarrow> gget (cdr_records s) (pcl_id c) = Some (pcl_record c) \<and> cred_phase (pcl_record c) \<and>
      claimable_revocation t (pcl_record c) \<and> rv_ClaimEpoch (mv_revocation (pcl_record c)) \<noteq> MaxInt64"
  shows "cred_effects e s (fst (apply_claims sha q t cs s))"
  using assms
proof (induction cs arbitrary: s)
  case (Cons c cs)
  define r' where "r' = (if pcl_poison c then poison_claim sha t (start_claim sha q t (pcl_token c) (pcl_record c))
    else start_claim sha q t (pcl_token c) (pcl_record c))"
  have "cred_effects e s (put_credential (pcl_id c) r' s)"
    using Cons.prems(2) [of c] by (auto simp: r'_def intro!: claim_effects)
  moreover have "cred_effects e (put_credential (pcl_id c) r' s)
      (fst (apply_claims sha q t cs (put_credential (pcl_id c) r' s)))"
  proof (rule Cons.IH)
    show "distinct (map pcl_id cs)" using Cons.prems(1) by simp
    show "gget (cdr_records (put_credential (pcl_id c) r' s)) (pcl_id d) = Some (pcl_record d) \<and>
        cred_phase (pcl_record d) \<and> claimable_revocation t (pcl_record d) \<and>
        rv_ClaimEpoch (mv_revocation (pcl_record d)) \<noteq> MaxInt64" if "d \<in> set cs" for d
      using that Cons.prems(1) Cons.prems(2) [of d] by (auto simp: gget_put_credential rev_image_eqI)
  qed
  ultimately have "cred_effects e s (fst (apply_claims sha q t cs (put_credential (pcl_id c) r' s)))"
    by (rule rtranclp_trans)
  then show ?case by (simp add: r'_def Let_def split: if_splits)
qed simp

lemma Claim_credential_effects:
  assumes inv: "cred_inv s" shows "cred_effects e s (fst (ClaimRevocations sha e q s))"
proof -
  let ?t = "ce_clock e 0"
  let ?found = "candidates (claimable_revocation ?t) (\<lambda>v. (rv_AvailableAt v, rv_CreatedAt v, rv_ID v)) (cr_Limit q) s"
  have "cred_effects e s (fst (apply_claims sha q ?t cs s))" if cs: "prepare_claims e 0 ?found = Inr cs" for cs
  proof (rule apply_claims_effects)
    note found = candidates_entries [OF cred_invD(1) [OF inv]]
    note P = prepare_claims_entries [OF cs]
    have "map pcl_id cs = gkeys ?found" using P by (metis (no_types, lifting) comp_apply fst_conv map_eq_conv map_map)
    then show "distinct (map pcl_id cs)" using found(1) by simp
    show "gget (cdr_records s) (pcl_id c) = Some (pcl_record c) \<and> cred_phase (pcl_record c) \<and>
      claimable_revocation ?t (pcl_record c) \<and> rv_ClaimEpoch (mv_revocation (pcl_record c)) \<noteq> MaxInt64"
      if "c \<in> set cs" for c
    proof -
      have "claim_entry c \<in> set ?found" using P that by (metis (no_types, lifting) imageI list.set_map)
      then show ?thesis using found(2) cred_invD(3) [OF inv] P that by blast
    qed
  qed
  then show ?thesis by (simp add: ClaimRevocations_def Let_def split: option.split sum.split)
qed

lemma claimRecord_Inr:
  "claimRecord sha f t s = Inr r \<Longrightarrow>
   gget (cdr_records s) (cf_RevocationID f) = Some r \<and> matchesMemoryClaim r f (sha (cf_Token f)) t"
  by (auto simp: claimRecord_def split: option.splits if_splits)

lemma Heartbeat_credential_effects:
  assumes inv: "cred_inv s" shows "cred_effects e s (fst (Cred_Heartbeat sha e q s))"
proof -
  have "cred_effects e s (put_credential (cf_RevocationID (hb_Fence q))
      (bump t (on_revocation (\<lambda>v. v\<lparr>rv_LastHeartbeatAt := t, rv_ClaimExpiresAt := t + hb_Extension q\<rparr>) r)) s)"
    if "claimRecord sha (hb_Fence q) t s = Inr r" for t r
  proof -
    note R = claimRecord_Inr [OF that]
    have "cred_status r = StatusRevoking" using R by (simp add: matchesMemoryClaim_def)
    then show ?thesis
      using R cred_invD(3) [OF inv, of "cf_RevocationID (hb_Fence q)" r]
      by (intro cred_effects_put [OF conjunct1 [OF R]] conjI cred_moveI)
        (simp_all add: cred_update_defs frozen_def cred_phase_defs)
  qed
  then show ?thesis by (simp add: Cred_Heartbeat_def Let_def split: option.split sum.split)
qed

lemma complete_move:
  assumes "cred_phase r" and "matchesMemoryClaim r f digest t" and "0 < cf_Epoch f"
  shows "cred_move e r (bump t (clearProtectedReference (clearActiveClaim
        (on_revocation (\<lambda>v. v\<lparr>rv_Status := StatusRevoked, rv_RevokedAt := t\<rparr>)
          (r\<lparr>mv_completedClaimSHA256 := digest, mv_completedClaimEpoch := cf_Epoch f,
             mv_completedClaimWorker := cf_WorkerID f\<rparr>))))) \<and>
    cred_phase (bump t (clearProtectedReference (clearActiveClaim
        (on_revocation (\<lambda>v. v\<lparr>rv_Status := StatusRevoked, rv_RevokedAt := t\<rparr>)
          (r\<lparr>mv_completedClaimSHA256 := digest, mv_completedClaimEpoch := cf_Epoch f,
             mv_completedClaimWorker := cf_WorkerID f\<rparr>)))))"
    (is "cred_move e r ?r \<and> cred_phase ?r")
proof -
  have st: "cred_status r = StatusRevoking" "rv_ClaimEpoch (mv_revocation r) = cf_Epoch f"
    using assms(2) by (simp_all add: matchesMemoryClaim_def)
  then have "cred_phase ?r"
    using assms(1,3) by (simp add: cred_update_defs cred_phase_defs)
  moreover have "cred_move e r ?r"
    using st by (intro cred_moveI) (simp_all add: cred_update_defs frozen_def)
  ultimately show ?thesis by simp
qed

lemma Complete_credential_effects:
  assumes inv: "cred_inv s" shows "cred_effects e s (fst (CompleteRevocation sha e f s))"
proof -
  have epoch: "validClaimFence f \<Longrightarrow> 0 < cf_Epoch f" by (simp add: validClaimFence_def)
  show ?thesis
    using cred_effects_put [OF _ complete_move [OF cred_invD(3) [OF inv]]] epoch
    by (auto simp: CompleteRevocation_def Let_def split: option.splits)
qed

definition leaves_claim :: "(time \<Rightarrow> memoryRevocationRecord \<Rightarrow> memoryRevocationRecord) \<Rightarrow> bool" where
  "leaves_claim transition \<longleftrightarrow> (\<forall>t r. cred_phase r \<longrightarrow> cred_status r = StatusRevoking \<longrightarrow>
     (\<exists>at. transition t r = on_revocation (\<lambda>v. v\<lparr>rv_Status := StatusManualRequired, rv_ManualRequiredAt := at\<rparr>) r \<or>
           transition t r = on_revocation (\<lambda>v. v\<lparr>rv_Status := StatusRevocationPending, rv_AvailableAt := at\<rparr>) r))"

lemma failClaim_effects:
  assumes inv: "cred_inv s" and "leaves_claim transition"
  shows "cred_effects e s (fst (failClaim sha e f code detail transition s))"
proof -
  have "cred_effects e s (put_credential (cf_RevocationID f)
      (bump t (clearActiveClaim (on_revocation (\<lambda>v. v\<lparr>rv_FailureCount := wrap64 (rv_FailureCount v + 1),
         rv_FailureCode := code, rv_FailureDetailSHA256 := sha detail\<rparr>) (transition t r)))) s)"
    if "claimRecord sha f t s = Inr r" for t r
  proof -
    note R = claimRecord_Inr [OF that]
    have st: "cred_status r = StatusRevoking" using R by (simp add: matchesMemoryClaim_def)
    have phase: "cred_phase r" using R by (auto intro: cred_invD(3) [OF inv])
    from assms(2) phase st obtain at where
      "transition t r = on_revocation (\<lambda>v. v\<lparr>rv_Status := StatusManualRequired, rv_ManualRequiredAt := at\<rparr>) r \<or>
       transition t r = on_revocation (\<lambda>v. v\<lparr>rv_Status := StatusRevocationPending, rv_AvailableAt := at\<rparr>) r"
      unfolding leaves_claim_def by blast
    then show ?thesis
    proof (elim disjE)
      assume T: "transition t r = on_revocation (\<lambda>v. v\<lparr>rv_Status := StatusManualRequired, rv_ManualRequiredAt := at\<rparr>) r"
      show ?thesis unfolding T using st phase
        by (intro cred_effects_put [OF conjunct1 [OF R]] conjI cred_moveI)
          (simp_all add: cred_update_defs frozen_def cred_phase_defs)
    next
      assume T: "transition t r = on_revocation (\<lambda>v. v\<lparr>rv_Status := StatusRevocationPending, rv_AvailableAt := at\<rparr>) r"
      show ?thesis unfolding T using st phase
        by (intro cred_effects_put [OF conjunct1 [OF R]] conjI cred_moveI)
          (simp_all add: cred_update_defs frozen_def cred_phase_defs)
    qed
  qed
  then show ?thesis by (simp add: failClaim_def Let_def split: option.split sum.split)
qed

lemma leaves_claim_manual: "leaves_claim manual_required"
  unfolding leaves_claim_def manual_required_def by blast

lemma leaves_claim_retry: "leaves_claim (retry_later delay)"
  unfolding leaves_claim_def retry_later_def manual_required_def by auto

lemma Retry_effects: "cred_inv s \<Longrightarrow> cred_effects e s (fst (RetryRevocation sha e q s))"
  by (simp add: RetryRevocation_def failClaim_effects leaves_claim_retry)

lemma Manual_effects: "cred_inv s \<Longrightarrow> cred_effects e s (fst (RequireManual sha e q s))"
  by (simp add: RequireManual_def failClaim_effects leaves_claim_manual)

lemma requeue_move:
  assumes "cred_phase r" and "cred_status r = StatusManualRequired" and "mv_confirmations r = []"
  shows "cred_move e r (bump t (on_revocation (\<lambda>v. v\<lparr>rv_Status := StatusRevocationPending, rv_AvailableAt := t\<rparr>)
      (r\<lparr>mv_retryCycleAttemptBase := rv_Attempt (mv_revocation r), mv_retryCycleStartedAt := t\<rparr>))) \<and>
    cred_phase (bump t (on_revocation (\<lambda>v. v\<lparr>rv_Status := StatusRevocationPending, rv_AvailableAt := t\<rparr>)
      (r\<lparr>mv_retryCycleAttemptBase := rv_Attempt (mv_revocation r), mv_retryCycleStartedAt := t\<rparr>)))"
  using assms by (intro conjI cred_moveI)
    (simp_all add: cred_update_defs frozen_def cred_phase_defs credential_durations)

lemma Requeue_effects:
  assumes inv: "cred_inv s" shows "cred_effects e s (fst (RequeueManual e q s))"
  using cred_effects_put [OF _ requeue_move [OF cred_invD(3) [OF inv]]]
  by (auto simp: RequeueManual_def Let_def split: option.splits)

text \<open>
  A second confirmation is only stored when a platform administrator is among the two: the check
  before the change makes the roll-back after it unreachable.
\<close>

abbreviation confirm_record ::
  "time \<Rightarrow> ExternalConfirmationRequest \<Rightarrow> memoryRevocationRecord \<Rightarrow> memoryRevocationRecord" where
  "confirm_record t q r \<equiv> bump t (on_revocation (\<lambda>v. v\<lparr>rv_EvidenceHash := ecq_EvidenceHash q\<rparr>)
     (r\<lparr>mv_confirmations := gset (ecq_Subject q) \<lparr>ec_Subject = ecq_Subject q,
          ec_EvidenceHash = ecq_EvidenceHash q, ec_PlatformAdmin = ecq_PlatformAdmin q,
          ec_CreatedAt = t\<rparr> (mv_confirmations r)\<rparr>))"

abbreviation confirmed_record ::
  "time \<Rightarrow> ExternalConfirmationRequest \<Rightarrow> memoryRevocationRecord \<Rightarrow> memoryRevocationRecord" where
  "confirmed_record t q r \<equiv> clearProtectedReference (on_revocation
     (\<lambda>v. v\<lparr>rv_Status := StatusRevoked, rv_RevokedAt := t\<rparr>) (confirm_record t q r))"

definition confirmable :: "ExternalConfirmationRequest \<Rightarrow> memoryRevocationRecord \<Rightarrow> bool" where
  "confirmable q r \<longleftrightarrow> cred_status r = StatusManualRequired \<and> ValidSHA256 (ecq_EvidenceHash q) \<and>
     (rv_EvidenceHash (mv_revocation r) = '''' \<or> rv_EvidenceHash (mv_revocation r) = ecq_EvidenceHash q) \<and>
     gget (mv_confirmations r) (ecq_Subject q) = None \<and>
     \<not> (1 \<le> length (mv_confirmations r) \<and> \<not> ecq_PlatformAdmin q \<and> \<not> hasPlatformAdmin (mv_confirmations r))"

lemma confirm_admin:
  assumes "confirmable q r" and "2 \<le> length (mv_confirmations (confirm_record t q r))"
  shows "hasPlatformAdmin (mv_confirmations (confirm_record t q r))"
  using assms by (auto simp: confirmable_def gset_fresh hasPlatformAdmin_def gany_def cred_update_defs)

lemma confirm_record_confirmations:
  assumes "confirmations_ok r" and "confirmable q r"
  shows "distinct (gkeys (mv_confirmations (confirm_record t q r)))"
    and "gget (mv_confirmations (confirm_record t q r)) subject = Some c \<Longrightarrow>
      ec_Subject c = subject \<and> ec_EvidenceHash c = ecq_EvidenceHash q \<and> ValidSHA256 (ec_EvidenceHash c)"
proof -
  have none: "rv_EvidenceHash (mv_revocation r) = '''' \<Longrightarrow> mv_confirmations r = []"
  proof (rule ccontr)
    assume e: "rv_EvidenceHash (mv_revocation r) = ''''" and "mv_confirmations r \<noteq> []"
    then obtain p m where "mv_confirmations r = p # m" by (cases "mv_confirmations r") auto
    then have "gget (mv_confirmations r) (fst p) = Some (snd p)" by simp
    then have "ValidSHA256 ''''" using assms(1) e unfolding confirmations_ok_def by metis
    then show False by (simp add: ValidSHA256_def match_hex_def)
  qed
  show "distinct (gkeys (mv_confirmations (confirm_record t q r)))"
    using assms(1) by (simp add: confirmations_ok_def cred_update_defs distinct_gset)
  show "ec_Subject c = subject \<and> ec_EvidenceHash c = ecq_EvidenceHash q \<and> ValidSHA256 (ec_EvidenceHash c)"
    if "gget (mv_confirmations (confirm_record t q r)) subject = Some c"
    using that none assms by (auto simp: confirmable_def confirmations_ok_def cred_update_defs gget_gset split: if_splits)
qed

lemma confirm_move:
  assumes phase: "cred_phase r" and ok: "confirmable q r"
  shows "length (mv_confirmations (confirm_record t q r)) < 2 \<Longrightarrow>
      cred_move e r (confirm_record t q r) \<and> cred_phase (confirm_record t q r)"
    and "2 \<le> length (mv_confirmations (confirm_record t q r)) \<Longrightarrow>
      cred_move e r (confirmed_record t q r) \<and> cred_phase (confirmed_record t q r)"
proof -
  have st: "cred_status r = StatusManualRequired" and cf: "confirmations_ok r"
    using ok phase by (simp_all add: confirmable_def cred_phase_def)
  note C = confirm_record_confirmations [OF cf ok, of t]
  show "cred_move e r (confirm_record t q r) \<and> cred_phase (confirm_record t q r)"
    if "length (mv_confirmations (confirm_record t q r)) < 2"
  proof
    have "confirmations_ok (confirm_record t q r)"
      unfolding confirmations_ok_def using C that st ok by (simp add: confirmable_def cred_update_defs)
    then show "cred_phase (confirm_record t q r)"
      using phase st by (simp add: cred_phase_def outstanding_def claims_ok_def cred_update_defs)
    show "cred_move e r (confirm_record t q r)"
      using st by (intro cred_moveI) (simp_all add: cred_update_defs frozen_def)
  qed
  show "cred_move e r (confirmed_record t q r) \<and> cred_phase (confirmed_record t q r)"
    if "2 \<le> length (mv_confirmations (confirm_record t q r))"
  proof
    have "confirmations_ok (confirmed_record t q r)"
      unfolding confirmations_ok_def using C ok by (simp add: confirmable_def cred_update_defs)
    moreover have "revoked_by_people (confirmed_record t q r)"
      using that confirm_admin [OF ok that] by (simp add: revoked_by_people_def cred_update_defs)
    ultimately show "cred_phase (confirmed_record t q r)"
      using phase st by (simp add: cred_phase_def outstanding_def claims_ok_def cred_update_defs)
    show "cred_move e r (confirmed_record t q r)"
      using st by (intro cred_moveI) (simp_all add: cred_update_defs frozen_def)
  qed
qed

lemma SubmitExternalConfirmation_cases:
  fixes e q s
  defines "t \<equiv> ce_clock e 0" and "i \<equiv> ecq_RevocationID q"
  obtains "fst (SubmitExternalConfirmation e q s) = s"
  | r where "gget (cdr_records s) i = Some r" and "confirmable q r"
      and "length (mv_confirmations (confirm_record t q r)) < 2"
      and "SubmitExternalConfirmation e q s =
        (put_credential i (confirm_record t q r) s, Inr (confirmationResult (confirm_record t q r)))"
  | r where "gget (cdr_records s) i = Some r" and "confirmable q r"
      and "2 \<le> length (mv_confirmations (confirm_record t q r))"
      and "SubmitExternalConfirmation e q s =
        (put_credential i (confirmed_record t q r) s, Inr (confirmationResult (confirmed_record t q r)))"
proof (cases "fst (SubmitExternalConfirmation e q s) = s")
  case False
  have "fst (SubmitExternalConfirmation e q s) = s" if "gget (cdr_records s) i = None"
    using that by (simp add: SubmitExternalConfirmation_def i_def Let_def split: option.split)
  with False obtain r where r: "gget (cdr_records s) i = Some r" by auto
  have "fst (SubmitExternalConfirmation e q s) = s" if "\<not> confirmable q r"
    using that r by (auto simp: SubmitExternalConfirmation_def i_def confirmable_def Let_def split: option.split)
  with False have ok: "confirmable q r" by auto
  show ?thesis
  proof (cases "2 \<le> length (mv_confirmations (confirm_record t q r))")
    case True
    have "SubmitExternalConfirmation e q s =
        (put_credential i (confirmed_record t q r) s, Inr (confirmationResult (confirmed_record t q r)))"
      using False r ok True confirm_admin [OF ok True]
      by (simp add: SubmitExternalConfirmation_def confirmable_def i_def t_def Let_def split: option.splits if_splits)
    with r ok True show ?thesis by (rule that(3))
  next
    case few: False
    have "SubmitExternalConfirmation e q s =
        (put_credential i (confirm_record t q r) s, Inr (confirmationResult (confirm_record t q r)))"
      using False r ok few
      by (simp add: SubmitExternalConfirmation_def confirmable_def i_def t_def Let_def split: option.splits if_splits)
    with r ok few show ?thesis by (intro that(2)) auto
  qed
qed (rule that(1))

lemma Confirm_effects:
  assumes inv: "cred_inv s" shows "cred_effects e s (fst (SubmitExternalConfirmation e q s))"
proof (cases rule: SubmitExternalConfirmation_cases [of e q s])
  case (2 r)
  show ?thesis
    unfolding 2(4) fst_conv by (rule cred_effects_put [OF 2(1) confirm_move(1) [OF cred_invD(3) [OF inv 2(1)] 2(2,3)]])
next
  case (3 r)
  show ?thesis
    unfolding 3(4) fst_conv by (rule cred_effects_put [OF 3(1) confirm_move(2) [OF cred_invD(3) [OF inv 3(1)] 3(2,3)]])
qed simp

lemma cred_call_effects: "cred_call sha e s u \<Longrightarrow> cred_inv s \<Longrightarrow> cred_effects e s u"
  by (induction rule: cred_call.induct) (simp_all add: Prepare_effects Authorize_effects Anchor_effects
      Activate_effects NoCredential_effects RecoverPrepared_effects RecoverManaged_effects
      RecoverExhausted_effects Request_effects Claim_credential_effects Heartbeat_credential_effects Complete_credential_effects
      Retry_effects Manual_effects Requeue_effects Confirm_effects)

lemma cred_call_inv: "cred_call sha e s u \<Longrightarrow> cred_inv s \<Longrightarrow> cred_inv u"
  by (rule cred_effect_system.steps_inv [OF cred_call_effects])

interpretation cred_calls: invariant_system empty_credentials "cred_step sha" cred_inv
  by unfold_locales (rule cred_inv_empty, auto simp: cred_step_def intro: cred_call_inv)

section \<open>The history of one record\<close>

definition cred_path :: "RevocationStatus \<Rightarrow> RevocationStatus \<Rightarrow> bool" where
  "cred_path = (\<lambda>a b. b \<in> set (cred_next a))\<^sup>*\<^sup>*"

definition cred_terminal :: "RevocationStatus \<Rightarrow> bool" where
  "cred_terminal st \<longleftrightarrow> st = StatusRevoked \<or> st = StatusNoCredential"

definition cred_later :: "memoryRevocationRecord \<Rightarrow> memoryRevocationRecord \<Rightarrow> bool" where
  "cred_later r r' \<longleftrightarrow> frozen r' = frozen r \<and> cred_path (cred_status r) (cred_status r') \<and>
     rv_ClaimEpoch (mv_revocation r) \<le> rv_ClaimEpoch (mv_revocation r') \<and>
     (mv_childCreateAuthorizedAt r \<noteq> 0 \<longrightarrow> mv_childCreateAuthorizedAt r' = mv_childCreateAuthorizedAt r) \<and>
     (cred_terminal (cred_status r) \<longrightarrow> r' = r)"

definition cred_called :: "cred_env \<Rightarrow> memoryRevocationRecord \<Rightarrow> memoryRevocationRecord \<Rightarrow> bool" where
  "cred_called e r r' \<longleftrightarrow> cred_later r r' \<and>
     (cred_status r' = StatusNoCredential \<longrightarrow> cred_status r = StatusNoCredential \<or>
        mv_childCreateAuthorizedAt r' = 0 \<or>
        (\<exists>n. rv_CredentialExpiresAt (mv_revocation r) + PreparedRecoveryGrace \<le> ce_clock e n))"

lemma cred_later_refl: "cred_later r r"
  by (simp add: cred_later_def cred_path_def)

lemma cred_later_trans: "cred_later r r1 \<Longrightarrow> cred_later r1 r2 \<Longrightarrow> cred_later r r2"
  unfolding cred_later_def cred_path_def by (auto intro: rtranclp_trans)

lemma frozen_expiry: "frozen r' = frozen r \<Longrightarrow> rv_CredentialExpiresAt (mv_revocation r') = rv_CredentialExpiresAt (mv_revocation r)"
  by (simp add: frozen_def)

lemma cred_called_trans: "cred_called e r r1 \<Longrightarrow> cred_called e r1 r2 \<Longrightarrow> cred_called e r r2"
  using cred_later_trans [of r r1 r2] frozen_expiry [of r1 r]
  by (auto simp: cred_called_def cred_later_def cred_terminal_def)

lemma cred_move_called: "cred_move e r r' \<Longrightarrow> cred_called e r r'"
  by (auto simp: cred_move_def cred_called_def cred_later_def cred_path_def cred_terminal_def)

lemma cred_effect_record:
  assumes "cred_effect e s u" and "gget (cdr_records s) i = Some r"
  shows "\<exists>r'. gget (cdr_records u) i = Some r' \<and> cred_called e r r'"
  using assms
proof (cases rule: cred_effect.cases)
  case (ceff_insert j q)
  then show ?thesis using assms(2) cred_move_called [OF cred_move_refl] by (auto simp: gomap_simps)
next
  case (ceff_put j q q')
  then show ?thesis
    using assms(2) cred_move_called [OF cred_move_refl] cred_move_called [of e q q']
    by (auto simp: gget_put_credential)
qed

lemma cred_call_record:
  assumes "cred_call sha e s u" and "cred_inv s" and "gget (cdr_records s) i = Some r"
  shows "\<exists>r'. gget (cdr_records u) i = Some r' \<and> cred_called e r r'"
  using cred_call_effects [OF assms(1,2)]
proof (induction rule: rtranclp_induct)
  case base
  then show ?case using assms(3) cred_move_called [OF cred_move_refl] by blast
next
  case (step y z)
  then show ?case using cred_effect_record cred_called_trans by blast
qed

lemma cred_steps_record:
  assumes "(cred_step sha)\<^sup>*\<^sup>* s u" and "cred_inv s" and "gget (cdr_records s) i = Some r"
  shows "\<exists>r'. gget (cdr_records u) i = Some r' \<and> cred_later r r'"
  using assms(1)
proof (induction rule: rtranclp_induct)
  case base
  then show ?case using assms(3) cred_later_refl by blast
next
  case (step y z)
  from step.hyps(2) obtain e where "cred_call sha e y z" by (auto simp: cred_step_def)
  moreover have "cred_inv y" by (rule cred_calls.steps_inv [OF step.hyps(1) assms(2)])
  ultimately show ?case using step.IH cred_call_record cred_later_trans unfolding cred_called_def by blast
qed

lemma cred_path_closed:
  assumes "cred_path a b" and "a \<in> A" and "\<And>x y. x \<in> A \<Longrightarrow> y \<in> set (cred_next x) \<Longrightarrow> y \<in> A"
  shows "b \<in> A"
  using assms(1) unfolding cred_path_def by (induction rule: rtranclp_induct) (use assms(2,3) in auto)

lemma cred_steps_status:
  assumes "(cred_step sha)\<^sup>*\<^sup>* s u" and "cred_inv s" and "gget (cdr_records s) i = Some r" and "cred_status r \<in> A"
    and "\<And>x y. x \<in> A \<Longrightarrow> y \<in> set (cred_next x) \<Longrightarrow> y \<in> A"
  shows "\<exists>r'. gget (cdr_records u) i = Some r' \<and> cred_status r' \<in> A"
proof -
  from cred_steps_record [OF assms(1-3)] obtain r' where "gget (cdr_records u) i = Some r'" "cred_later r r'" by blast
  moreover from this(2) have "cred_path (cred_status r) (cred_status r')" by (simp add: cred_later_def)
  from cred_path_closed [OF this assms(4)] assms(5) have "cred_status r' \<in> A" by blast
  ultimately show ?thesis by blast
qed

section \<open>The other users of the repository\<close>

text \<open>
  A component that calls the repository is not its only user. What the others did before one of its
  calls is a list of requests, each with the environment it was served in.
\<close>

datatype cred_request =
    RqPrepare PrepareRequest | RqAuthorize AuthorizeChildCreateRequest | RqAnchor RecordAnchorRequest
  | RqActivate ActionTransitionRequest | RqNoCredential ActionTransitionRequest | RqRecoverPrepared int
  | RqRecoverManaged nat string string | RqRecoverExhausted int | RqRequest ActionTransitionRequest
  | RqClaim ClaimRevocationsRequest | RqHeartbeat CredHeartbeatRequest | RqComplete ClaimFence
  | RqRetry RetryRevocationRequest | RqManual RequireManualRequest | RqRequeue RequeueManualRequest
  | RqConfirm ExternalConfirmationRequest

fun serve :: "(string \<Rightarrow> string) \<Rightarrow> cred_env \<times> cred_request \<Rightarrow> CredentialRepository \<Rightarrow> CredentialRepository" where
  "serve sha (e, RqPrepare q) s = fst (Prepare sha e q s)"
| "serve sha (e, RqAuthorize q) s = fst (AuthorizeChildCreate sha e q s)"
| "serve sha (e, RqAnchor q) s = fst (RecordAnchor sha e q s)"
| "serve sha (e, RqActivate q) s = fst (Activate sha e q s)"
| "serve sha (e, RqNoCredential q) s = fst (RecordNoCredential sha e q s)"
| "serve sha (e, RqRecoverPrepared limit) s = fst (RecoverPrepared e limit s)"
| "serve sha (e, RqRecoverManaged n i a) s = fst (recover_managed_item e n i a s)"
| "serve sha (e, RqRecoverExhausted limit) s = fst (RecoverExhausted sha e limit s)"
| "serve sha (e, RqRequest q) s = fst (RequestRevocation sha e q s)"
| "serve sha (e, RqClaim q) s = fst (ClaimRevocations sha e q s)"
| "serve sha (e, RqHeartbeat q) s = fst (Cred_Heartbeat sha e q s)"
| "serve sha (e, RqComplete f) s = fst (CompleteRevocation sha e f s)"
| "serve sha (e, RqRetry q) s = fst (RetryRevocation sha e q s)"
| "serve sha (e, RqManual q) s = fst (RequireManual sha e q s)"
| "serve sha (e, RqRequeue q) s = fst (RequeueManual e q s)"
| "serve sha (e, RqConfirm q) s = fst (SubmitExternalConfirmation e q s)"

lemma serve_call: "cred_call sha (fst call) s (serve sha call s)"
  by (cases "(sha, call, s)" rule: serve.cases) (simp_all add: cred_call.intros)

lemma others_steps: "(cred_step sha)\<^sup>*\<^sup>* s (fold (serve sha) calls s)"
proof (induction calls arbitrary: s)
  case (Cons c calls)
  have "cred_step sha s (serve sha c s)" unfolding cred_step_def by (rule exI [of _ "fst c"]) (rule serve_call)
  with Cons show ?case by (simp add: converse_rtranclp_into_rtranclp)
qed simp

end
