(* ===== verification/Durable_Broker.thy ===== *)
theory Durable_Broker
  imports Credential_Repository "HOL-Library.State_Monad"
begin

text \<open>
  The durable credential broker of \<^verbatim>\<open>internal/credential/durable_broker.go\<close> with the issuer
  registry of \<^verbatim>\<open>internal/credential/issuer_registry.go\<close>. The broker stands between the
  execution service, the credential repository and a remote issuer: it prepares a record, has the
  creation of a child credential authorized, anchors the child's accessor before anything is done
  with it, and records the intent to revoke whenever the rest does not go through.

  A call is a state-monad program. The state holds the calls the broker made so far with their
  answers, the repository, and the heap of handle states: a handle is an address, so copies of it
  share one state. \<^verbatim>\<open>Repository\<close> is an interface: its operations are the fields of
  \<open>repository_ops\<close>, functions of the calls so far, the request and the repository, so other
  parties may have changed the repository in between. Everything else a call reads (the caller's
  context, the clock, the id source, the issuer, the contexts the sources return) is a field of
  \<open>broker_env\<close>, again a function of the calls so far.

  \<^verbatim>\<open>state.mu\<close> makes the consumption of a prepared handle atomic, and after it a call works on
  its own copy; so calls on one handle behave as if made one after the other, and the model makes
  them so. Secrets are byte strings, the empty one standing for nil; a \<^verbatim>\<open>SensitiveValue\<close> is
  assumed to be handed over by the issuer, not kept. The redacting String, Format and JSON methods
  are presentation.
\<close>

section \<open>Data\<close>

definition PostDispatchPersistenceTimeout :: duration where "PostDispatchPersistenceTimeout = 20 * Second"

datatype broker_error =
    ErrInvalidDurableBrokerConfiguration
  | ErrInvalidDurableCredentialRequest
  | ErrDurableCredentialIssuance string
  | ErrDurableCredentialState
  | BrokerCtx ctx_error

record DurableIssuerProfile =
  ip_IssuerID :: string
  ip_Revision :: string
  ip_CredentialTTL :: duration

text \<open>
  An issuer as an object: its identity (what comparing two interface values compares), whether its
  type can be compared at all, and the two constant methods.
\<close>

record DurableIssuer =
  di_object :: nat
  di_comparable :: bool
  di_IssuerID :: string
  di_IssuerRevision :: string

record ResolvedDurableIssuer =
  rd_Profile :: DurableIssuerProfile
  rd_Issuer :: "DurableIssuer option"

record DurableChildCreateRequest =
  cc_RevocationID :: string
  cc_ProfileRevision :: string
  cc_DatabaseAuthorizedAt :: time
  cc_TTL :: duration
  cc_CredentialExpiresAt :: time

text \<open>
  \<^verbatim>\<open>==\<close> on two instants also compares location and monotonic reading; the canonical form has
  neither, which the flag \<open>_plain\<close> of an instant from outside says.
\<close>

record DurableChild =
  ch_Token :: string
  ch_Accessor :: "string option"
  ch_ExpiresAt :: time
  ch_plain :: bool

record DurableChildInspectionRequest =
  ci_RevocationID :: string
  ci_ProfileRevision :: string
  ci_ExpectedTTL :: duration
  ci_CredentialExpiresAt :: time

record DurableDynamicIssueRequest =
  dy_RevocationID :: string
  dy_ProfileRevision :: string
  dy_CredentialExpiresAt :: time

record DurableDynamicSecret =
  ds_Secret :: string
  ds_ExpiresAt :: time
  ds_plain :: bool

datatype preparedDurableCredentialPhase =
    preparedDurableCredentialReady | preparedDurableCredentialIssuing | preparedDurableCredentialNoCredential

record preparedDurableCredentialState =
  ps_broker :: nat
  ps_phase :: preparedDurableCredentialPhase
  ps_request :: PrepareDurableCredentialRequest
  ps_resolved :: ResolvedDurableIssuer
  ps_prepared :: Revocation
  ps_permit :: ChildCreatePermit
  ps_revocationID :: string
  ps_expiresAt :: time

record durableCredentialState =
  cs_broker :: nat
  cs_revocationID :: string
  cs_expiresAt :: time
  cs_secret :: string
  cs_activeSnapshot :: Revocation
  cs_revocationResult :: "Revocation option"

record durable_handle =
  dh_revocationID :: string
  dh_expiresAt :: time
  dh_state :: nat

section \<open>Validation\<close>

definition validDurableSelection :: "DurableIssuerResolveRequest \<Rightarrow> bool" where
  "validDurableSelection q \<longleftrightarrow> \<not> ir_Production q \<and> ValidIdentifier (ir_TenantID q) 256 \<and>
     ValidIdentifier (ir_WorkspaceID q) 256 \<and> ValidIdentifier (ir_EnvironmentID q) 256 \<and>
     ValidIdentifier (ir_ActionType q) 256 \<and> ValidIdentifier (ir_ConnectorID q) 256 \<and>
     ValidIdentifier (ir_Permission q) 256 \<and> ValidIdentifier (ir_Resource q) 256"

definition validDurableCredentialWindow :: "PrepareDurableCredentialRequest \<Rightarrow> bool" where
  "validDurableCredentialWindow q \<longleftrightarrow> ChildCreateExpiryReserve + MinChildCreateTTL \<le> pq_RequestedTTL q \<and>
     pq_RequestedTTL q \<le> Credential_MaxCredentialTTL \<and> pq_RequestedTTL q mod VaultTTLQuantum = 0 \<and>
     \<not> IsZero (pq_PolicyExpiresAt q)"

definition durableCredentialExpiry ::
  "time \<Rightarrow> PrepareDurableCredentialRequest \<Rightarrow> DurableIssuerProfile \<Rightarrow> time option" where
  "durableCredentialExpiry t q profile =
     (if IsZero t \<or> \<not> validDurableCredentialWindow q then None
      else let e0 = t + ip_CredentialTTL profile;
               requested = t + pq_RequestedTTL q;
               e1 = if Before requested e0 then requested else e0;
               e2 = if Before (pq_PolicyExpiresAt q) e1 then pq_PolicyExpiresAt q else e1;
               expiresAt = CanonicalCredentialExpiry e2;
               minimum = t + (ChildCreateExpiryReserve + MinChildCreateTTL)
      in if Before expiresAt minimum then None else Some expiresAt)"

definition validDurableResolution :: "ResolvedDurableIssuer \<Rightarrow> bool" where
  "validDurableResolution r \<longleftrightarrow> (let profile = rd_Profile r in
     case rd_Issuer r of None \<Rightarrow> False | Some issuer \<Rightarrow>
       ValidIdentifier (ip_IssuerID profile) 256 \<and> ValidIdentifier (ip_Revision profile) 256 \<and>
       ChildCreateExpiryReserve + MinChildCreateTTL \<le> ip_CredentialTTL profile \<and>
       ip_CredentialTTL profile \<le> Credential_MaxCredentialTTL \<and> ip_CredentialTTL profile mod VaultTTLQuantum = 0 \<and>
       di_IssuerID issuer = ip_IssuerID profile \<and> di_IssuerRevision issuer = ip_Revision profile)"

definition validFrozenRevocation ::
  "Revocation \<Rightarrow> string \<Rightarrow> PrepareDurableCredentialRequest \<Rightarrow> DurableIssuerProfile \<Rightarrow> time \<Rightarrow>
   RevocationStatus \<Rightarrow> bool \<Rightarrow> bool" where
  "validFrozenRevocation v revocationID q profile expiresAt status accessorPresent \<longleftrightarrow>
     rv_ID v = revocationID \<and> rv_TenantID v = ir_TenantID (pq_Selection q) \<and>
     rv_WorkspaceID v = ir_WorkspaceID (pq_Selection q) \<and> rv_EnvironmentID v = ir_EnvironmentID (pq_Selection q) \<and>
     rv_ActionID v = af_ActionID (pq_Fence q) \<and> rv_Production v = ir_Production (pq_Selection q) \<and>
     rv_RunnerID v = af_RunnerID (pq_Fence q) \<and> rv_ActionLeaseEpoch v = af_Epoch (pq_Fence q) \<and>
     rv_Issuer v = ip_IssuerID profile \<and> rv_IssuerRevision v = ip_Revision profile \<and>
     rv_ActionType v = ir_ActionType (pq_Selection q) \<and> rv_ConnectorID v = ir_ConnectorID (pq_Selection q) \<and>
     rv_Permission v = ir_Permission (pq_Selection q) \<and> rv_Resource v = ir_Resource (pq_Selection q) \<and>
     rv_CredentialTTLSeconds v = signed_take_bit 31 (go_quot (pq_RequestedTTL q) Second) \<and>
     rv_CredentialExpiresAt v = expiresAt \<and> rv_Status v = status \<and> rv_AccessorPresent v = accessorPresent \<and>
     ValidIdentifier (rv_TenantID v) 256 \<and> ValidOpaqueText (rv_TargetKey v) 1024 \<and> 1 \<le> rv_Version v \<and>
     \<not> IsZero (rv_CreatedAt v) \<and> \<not> Before (rv_UpdatedAt v) (rv_CreatedAt v) \<and> \<not> IsZero (rv_AvailableAt v) \<and>
     rv_CredentialExpiresAt v = CanonicalCredentialExpiry (rv_CredentialExpiresAt v) \<and>
     (if status = StatusPrepared \<or> status = StatusNoCredential then IsZero (rv_AnchoredAt v) \<and> IsZero (rv_ActivatedAt v)
      else if status = StatusAnchored then \<not> IsZero (rv_AnchoredAt v) \<and> IsZero (rv_ActivatedAt v) \<and>
        \<not> Before (rv_UpdatedAt v) (rv_AnchoredAt v)
      else if status = StatusActive then \<not> IsZero (rv_AnchoredAt v) \<and> \<not> IsZero (rv_ActivatedAt v) \<and>
        \<not> Before (rv_ActivatedAt v) (rv_AnchoredAt v) \<and> \<not> Before (rv_UpdatedAt v) (rv_ActivatedAt v)
      else False)"

definition sameDurableFrozenRevocation :: "Revocation \<Rightarrow> Revocation \<Rightarrow> bool" where
  "sameDurableFrozenRevocation l r \<longleftrightarrow> rv_ID l = rv_ID r \<and> rv_TenantID l = rv_TenantID r \<and>
     rv_WorkspaceID l = rv_WorkspaceID r \<and> rv_EnvironmentID l = rv_EnvironmentID r \<and>
     rv_ActionID l = rv_ActionID r \<and> rv_TargetKey l = rv_TargetKey r \<and> rv_Production l = rv_Production r \<and>
     rv_RunnerID l = rv_RunnerID r \<and> rv_ActionLeaseEpoch l = rv_ActionLeaseEpoch r \<and> rv_Issuer l = rv_Issuer r \<and>
     rv_IssuerRevision l = rv_IssuerRevision r \<and> rv_ActionType l = rv_ActionType r \<and>
     rv_ConnectorID l = rv_ConnectorID r \<and> rv_Permission l = rv_Permission r \<and> rv_Resource l = rv_Resource r \<and>
     rv_CredentialTTLSeconds l = rv_CredentialTTLSeconds r \<and> rv_CredentialExpiresAt l = rv_CredentialExpiresAt r \<and>
     rv_CreatedAt l = rv_CreatedAt r"

definition validPreparedResult ::
  "PrepareResult \<Rightarrow> string \<Rightarrow> PrepareDurableCredentialRequest \<Rightarrow> DurableIssuerProfile \<Rightarrow> time \<Rightarrow> bool" where
  "validPreparedResult result revocationID q profile expiresAt \<longleftrightarrow>
     rv_Version (prs_Revocation result) = 1 \<and>
     (case prs_Permit result of None \<Rightarrow> False
      | Some permit \<Rightarrow> pm_RevocationID permit = revocationID \<and> ValidOpaqueText (pm_Token permit) 4096) \<and>
     validFrozenRevocation (prs_Revocation result) revocationID q profile expiresAt StatusPrepared False"

definition validChildCreateAuthorization ::
  "ChildCreateAuthorization \<Rightarrow> Revocation \<Rightarrow> string \<Rightarrow> PrepareDurableCredentialRequest \<Rightarrow> DurableIssuerProfile \<Rightarrow>
   time \<Rightarrow> bool" where
  "validChildCreateAuthorization a prepared revocationID q profile expiresAt \<longleftrightarrow>
     validFrozenRevocation (ca_Revocation a) revocationID q profile expiresAt StatusPrepared False \<and>
     sameDurableFrozenRevocation (ca_Revocation a) prepared \<and>
     rv_Version (ca_Revocation a) = wrap64 (rv_Version prepared + 1) \<and> \<not> IsZero (ca_DatabaseAuthorizedAt a) \<and>
     ca_CredentialExpiresAt a = expiresAt \<and> \<not> Before (rv_UpdatedAt (ca_Revocation a)) (ca_DatabaseAuthorizedAt a) \<and>
     MinChildCreateTTL \<le> ca_TTL a \<and> ca_TTL a \<le> Credential_MaxCredentialTTL \<and> ca_TTL a mod VaultTTLQuantum = 0 \<and>
     ca_VaultCallBudget a = ChildCreateVaultCallBudget \<and>
     \<not> After (ca_DatabaseAuthorizedAt a + (ca_TTL a + ChildCreateExpiryReserve)) expiresAt"

definition validDurableChild :: "DurableChild \<Rightarrow> ChildCreateAuthorization \<Rightarrow> bool" where
  "validDurableChild child a \<longleftrightarrow> ch_Token child \<noteq> '''' \<and> \<not> IsZero (ch_ExpiresAt child) \<and>
     ch_plain child \<and> ch_ExpiresAt child = CanonicalCredentialExpiry (ch_ExpiresAt child) \<and>
     After (ch_ExpiresAt child) (ca_DatabaseAuthorizedAt a) \<and> \<not> After (ch_ExpiresAt child) (ca_CredentialExpiresAt a)"

definition validAnchoredResult ::
  "Revocation \<Rightarrow> Revocation \<Rightarrow> string \<Rightarrow> PrepareDurableCredentialRequest \<Rightarrow> DurableIssuerProfile \<Rightarrow> time \<Rightarrow> bool" where
  "validAnchoredResult v authorized revocationID q profile expiresAt \<longleftrightarrow>
     validFrozenRevocation v revocationID q profile expiresAt StatusAnchored True \<and>
     sameDurableFrozenRevocation v authorized \<and> rv_Version v = wrap64 (rv_Version authorized + 1)"

definition validActiveResult ::
  "Revocation \<Rightarrow> Revocation \<Rightarrow> string \<Rightarrow> PrepareDurableCredentialRequest \<Rightarrow> DurableIssuerProfile \<Rightarrow> time \<Rightarrow> bool" where
  "validActiveResult v anchored revocationID q profile expiresAt \<longleftrightarrow>
     validFrozenRevocation v revocationID q profile expiresAt StatusActive True \<and>
     sameDurableFrozenRevocation v anchored \<and> rv_Version v = wrap64 (rv_Version anchored + 1)"

definition validRequestedRevocation :: "Revocation \<Rightarrow> durableCredentialState \<Rightarrow> bool" where
  "validRequestedRevocation v state \<longleftrightarrow>
     rv_ID v = cs_revocationID state \<and> sameDurableFrozenRevocation v (cs_activeSnapshot state) \<and>
     rv_Version (cs_activeSnapshot state) < rv_Version v \<and>
     (if rv_Status v = StatusRevocationPending \<or> rv_Status v = StatusRevoking
      then rv_AccessorPresent v \<and> \<not> IsZero (rv_RevocationRequestedAt v) \<and>
        \<not> Before (rv_UpdatedAt v) (rv_RevocationRequestedAt v)
      else if rv_Status v = StatusManualRequired
      then rv_AccessorPresent v \<and> \<not> IsZero (rv_RevocationRequestedAt v) \<and> \<not> IsZero (rv_ManualRequiredAt v) \<and>
        \<not> Before (rv_UpdatedAt v) (rv_ManualRequiredAt v)
      else if rv_Status v = StatusRevoked
      then \<not> rv_AccessorPresent v \<and> \<not> IsZero (rv_RevocationRequestedAt v) \<and> \<not> IsZero (rv_RevokedAt v) \<and>
        \<not> Before (rv_UpdatedAt v) (rv_RevokedAt v)
      else False)"

section \<open>The issuer registry\<close>

record IssuerRegistration =
  ig_Selection :: DurableIssuerResolveRequest
  ig_Profile :: DurableIssuerProfile
  ig_Issuer :: "DurableIssuer option"

record IssuerRegistry =
  rg_issuers :: "(DurableIssuerResolveRequest \<times> ResolvedDurableIssuer) list"

record scopedDurableIssuerIdentity =
  si_tenantID :: string
  si_workspaceID :: string
  si_environmentID :: string
  si_issuerID :: string
  si_issuerRevision :: string

definition stableDurableIssuerIdentity :: "DurableIssuer option \<Rightarrow> bool" where
  "stableDurableIssuerIdentity issuer = (case issuer of None \<Rightarrow> False | Some i \<Rightarrow> di_comparable i)"

fun registry_loop ::
  "IssuerRegistration list \<Rightarrow> (DurableIssuerResolveRequest \<times> ResolvedDurableIssuer) list \<Rightarrow>
   (scopedDurableIssuerIdentity \<times> ResolvedDurableIssuer) list \<Rightarrow>
   (DurableIssuerResolveRequest \<times> ResolvedDurableIssuer) list option" where
  "registry_loop [] issuers identities = Some issuers"
| "registry_loop (g # gs) issuers identities =
     (let resolved = \<lparr>rd_Profile = ig_Profile g, rd_Issuer = ig_Issuer g\<rparr> in
      if \<not> validDurableSelection (ig_Selection g) \<or> \<not> validDurableResolution resolved \<or>
         \<not> stableDurableIssuerIdentity (rd_Issuer resolved) then None
      else if map_of issuers (ig_Selection g) \<noteq> None then None
      else let identity = \<lparr>si_tenantID = ir_TenantID (ig_Selection g),
                 si_workspaceID = ir_WorkspaceID (ig_Selection g),
                 si_environmentID = ir_EnvironmentID (ig_Selection g),
                 si_issuerID = ip_IssuerID (ig_Profile g), si_issuerRevision = ip_Revision (ig_Profile g)\<rparr>;
               issuers' = AList.update (ig_Selection g) resolved issuers
      in case map_of identities identity of
           Some existing \<Rightarrow>
             if rd_Profile existing \<noteq> rd_Profile resolved \<or> rd_Issuer existing \<noteq> rd_Issuer resolved then None
             else registry_loop gs issuers' identities
         | None \<Rightarrow> registry_loop gs issuers' (AList.update identity resolved identities))"

definition NewIssuerRegistry :: "IssuerRegistration list \<Rightarrow> IssuerRegistry option" where
  "NewIssuerRegistry registrations =
     (if registrations = [] then None
      else map_option (\<lambda>issuers. \<lparr>rg_issuers = issuers\<rparr>) (registry_loop registrations [] []))"

text \<open>A nil registry and a nil context are \<open>None\<close>.\<close>

definition ResolveDurableIssuer ::
  "IssuerRegistry option \<Rightarrow> ctx_error option option \<Rightarrow> DurableIssuerResolveRequest \<Rightarrow> ResolvedDurableIssuer option" where
  "ResolveDurableIssuer registry ctx selection =
     (case registry of None \<Rightarrow> None | Some g \<Rightarrow>
      if ctx \<noteq> Some None \<or> \<not> validDurableSelection selection then None
      else case map_of (rg_issuers g) selection of None \<Rightarrow> None
        | Some resolved \<Rightarrow> if \<not> validDurableResolution resolved then None else Some resolved)"

section \<open>Bounded contexts\<close>

text \<open>
  What a context source returned: nothing useful when the context or its cancel function is nil,
  else the deadline, whether there is a done channel, the error, and whether the deadline has a
  monotonic reading. \<open>bt_err\<close> is what the context capped at the hard deadline says when it is
  looked at; the standard library gives it a done channel and the earlier of the two deadlines.
\<close>

record bounded_candidate =
  bc_Deadline :: "time option"
  bc_Done :: bool
  bc_Err :: "ctx_error option"
  bc_monotonic :: bool

record bounded_try =
  bt_started :: time
  bt_candidate :: "bounded_candidate option"
  bt_observed :: time
  bt_err :: "ctx_error option"
  bt_checked :: time

definition newBoundedContext :: "bounded_try \<Rightarrow> duration \<Rightarrow> time option" where
  "newBoundedContext b maximum =
     (if maximum \<le> 0 then None
      else case bt_candidate b of None \<Rightarrow> None | Some candidate \<Rightarrow>
      case bc_Deadline candidate of None \<Rightarrow> None | Some deadline \<Rightarrow>
      if \<not> bc_Done candidate \<or> bc_Err candidate \<noteq> None \<or> \<not> bc_monotonic candidate \<or>
         \<not> After deadline (bt_observed b) \<or> maximum < time_Sub deadline (bt_observed b) then None
      else let hardDeadline = bt_started b + maximum; boundedDeadline = min deadline hardDeadline in
      if bt_err b \<noteq> None \<or> \<not> After boundedDeadline (bt_checked b) \<or> After boundedDeadline hardDeadline then None
      else Some boundedDeadline)"

section \<open>Calls and their answers\<close>

datatype broker_event =
    CallerContext "ctx_error option"
  | BrokerClock time
  | NewRevocationID "string option"
  | Bounding duration bounded_try
  | Preparing PrepareRequest "cred_error + PrepareResult"
  | ManagerValidated bool
  | Authorizing AuthorizeChildCreateRequest "cred_error + ChildCreateAuthorization"
  | ChildCreated DurableChildCreateRequest "DurableChild \<times> bool"
  | Anchoring RecordAnchorRequest "cred_error + Revocation"
  | Inspected "string option" DurableChildInspectionRequest bool
  | DynamicIssued DurableDynamicIssueRequest "DurableDynamicSecret \<times> bool"
  | Activating ActionTransitionRequest "cred_error + Revocation"
  | RecordingNone ActionTransitionRequest "cred_error + Revocation"
  | Requesting ActionTransitionRequest "cred_error + Revocation"

type_synonym broker_history = "broker_event list"

record 'r repository_ops =
  rp_Prepare :: "broker_history \<Rightarrow> PrepareRequest \<Rightarrow> 'r \<Rightarrow> 'r \<times> (cred_error + PrepareResult)"
  rp_AuthorizeChildCreate ::
    "broker_history \<Rightarrow> AuthorizeChildCreateRequest \<Rightarrow> 'r \<Rightarrow> 'r \<times> (cred_error + ChildCreateAuthorization)"
  rp_RecordAnchor :: "broker_history \<Rightarrow> RecordAnchorRequest \<Rightarrow> 'r \<Rightarrow> 'r \<times> (cred_error + Revocation)"
  rp_Activate :: "broker_history \<Rightarrow> ActionTransitionRequest \<Rightarrow> 'r \<Rightarrow> 'r \<times> (cred_error + Revocation)"
  rp_RecordNoCredential :: "broker_history \<Rightarrow> ActionTransitionRequest \<Rightarrow> 'r \<Rightarrow> 'r \<times> (cred_error + Revocation)"
  rp_RequestRevocation :: "broker_history \<Rightarrow> ActionTransitionRequest \<Rightarrow> 'r \<Rightarrow> 'r \<times> (cred_error + Revocation)"

text \<open>
  The issuer's calls answer with an error flag; \<open>CreateChild\<close> may return an accessor together with
  an error. \<open>be_flights\<close> says what the other callers of \<open>RequestRevocation\<close> on the same state did
  while this one waited (below).
\<close>

record broker_env =
  be_ctx_nil :: bool
  be_ctx :: "broker_history \<Rightarrow> ctx_error option"
  be_clock :: "broker_history \<Rightarrow> time"
  be_uuid :: "broker_history \<Rightarrow> string option"
  be_registry :: "IssuerRegistry option"
  be_timeout :: "broker_history \<Rightarrow> bounded_try"
  be_finalize :: "broker_history \<Rightarrow> bounded_try"
  be_fallback :: "broker_history \<Rightarrow> bounded_try"
  be_manager :: "broker_history \<Rightarrow> bool"
  be_create :: "DurableChildCreateRequest \<Rightarrow> broker_history \<Rightarrow> DurableChild \<times> bool"
  be_inspect :: "string option \<Rightarrow> DurableChildInspectionRequest \<Rightarrow> broker_history \<Rightarrow> bool"
  be_dynamic :: "string \<Rightarrow> DurableDynamicIssueRequest \<Rightarrow> broker_history \<Rightarrow> DurableDynamicSecret \<times> bool"

record 'r broker_state =
  bs_log :: broker_history
  bs_repository :: 'r
  bs_prepared :: "preparedDurableCredentialState list"
  bs_issued :: "durableCredentialState list"

type_synonym ('r, 'a) broker = "('r broker_state, 'a) state"

definition observe :: "(broker_history \<Rightarrow> 'a) \<Rightarrow> ('a \<Rightarrow> broker_event) \<Rightarrow> ('r, 'a) broker" where
  "observe answer event = State (\<lambda>s. let a = answer (bs_log s) in (a, s\<lparr>bs_log := bs_log s @ [event a]\<rparr>))"

definition store_call ::
  "(broker_history \<Rightarrow> 'r \<Rightarrow> 'r \<times> 'a) \<Rightarrow> ('a \<Rightarrow> broker_event) \<Rightarrow> ('r, 'a) broker" where
  "store_call operation event = State (\<lambda>s. let (r, a) = operation (bs_log s) (bs_repository s) in
     (a, s\<lparr>bs_repository := r, bs_log := bs_log s @ [event a]\<rparr>))"

abbreviation give :: "'a \<Rightarrow> ('r, 'a) broker" where "give \<equiv> State_Monad.return"

abbreviation issuance :: "string \<Rightarrow> ('r, broker_error + 'a) broker" where
  "issuance operation \<equiv> give (Inl (ErrDurableCredentialIssuance operation))"

definition bounded :: "(broker_history \<Rightarrow> bounded_try) \<Rightarrow> duration \<Rightarrow> ('r, time option) broker" where
  "bounded source maximum = do {
     b \<leftarrow> observe source (Bounding maximum);
     give (newBoundedContext b maximum) }"

definition preflightFinalizeContext :: "broker_env \<Rightarrow> ('r, bool) broker" where
  "preflightFinalizeContext v = do {
     c \<leftarrow> bounded (be_finalize v) PostDispatchPersistenceTimeout;
     give (c \<noteq> None) }"

definition newFinalizeContext :: "broker_env \<Rightarrow> ('r, time option) broker" where
  "newFinalizeContext v = do {
     finalize \<leftarrow> bounded (be_finalize v) PostDispatchPersistenceTimeout;
     case finalize of Some c \<Rightarrow> give (Some c)
     | None \<Rightarrow> bounded (be_fallback v) PostDispatchPersistenceTimeout }"

definition persistRevocationIntent :: "broker_env \<Rightarrow> 'r repository_ops \<Rightarrow> string \<Rightarrow> ('r, bool) broker" where
  "persistRevocationIntent v ops revocationID = do {
     c \<leftarrow> newFinalizeContext v;
     case c of None \<Rightarrow> give False
     | Some _ \<Rightarrow> do {
         let q = \<lparr>atr_RevocationID = revocationID, atr_Fence = zero_ActionFence\<rparr>;
         answer \<leftarrow> store_call (\<lambda>h. rp_RequestRevocation ops h q) (Requesting q);
         give (\<not> isl answer) } }"

section \<open>Preparing a credential\<close>

text \<open>
  Brokers are compared by identity; a nil broker is \<open>None\<close>. A handle whose address is not
  allocated has the nil state.
\<close>

definition NewDurableBroker :: "bool \<Rightarrow> IssuerRegistry option \<Rightarrow> time \<Rightarrow> nat \<Rightarrow> broker_error + nat" where
  "NewDurableBroker repository registry clock broker =
     (if \<not> repository \<or> registry = None then Inl ErrInvalidDurableBrokerConfiguration
      else if IsZero clock then Inl ErrInvalidDurableBrokerConfiguration
      else Inr broker)"

definition Broker_Prepare ::
  "nat option \<Rightarrow> broker_env \<Rightarrow> 'r repository_ops \<Rightarrow> PrepareDurableCredentialRequest \<Rightarrow>
   ('r, broker_error + PreparedDurableCredential) broker" where
  "Broker_Prepare broker v ops request =
     (case broker of None \<Rightarrow> give (Inl ErrInvalidDurableCredentialRequest) | Some this \<Rightarrow>
      if be_ctx_nil v then give (Inl ErrInvalidDurableCredentialRequest) else do {
     cancelled \<leftarrow> observe (be_ctx v) CallerContext;
     if cancelled \<noteq> None \<or> \<not> Credential_validActionFence (pq_Fence request) \<or>
        \<not> validDurableSelection (pq_Selection request) \<or> \<not> validDurableCredentialWindow request
     then give (Inl ErrInvalidDurableCredentialRequest)
     else do {
     ctx \<leftarrow> observe (be_ctx v) CallerContext;
     case ResolveDurableIssuer (be_registry v) (Some ctx) (pq_Selection request) of
       None \<Rightarrow> issuance ''resolve issuer'' | Some resolved \<Rightarrow>
     if \<not> validDurableResolution resolved then issuance ''resolve issuer'' else do {
     preflight \<leftarrow> preflightFinalizeContext v;
     if \<not> preflight then issuance ''validate post-dispatch persistence context'' else do {
     allocated \<leftarrow> observe (be_uuid v) NewRevocationID;
     case allocated of None \<Rightarrow> issuance ''allocate revocation identifier'' | Some revocationID \<Rightarrow>
     if \<not> ValidRevocationID revocationID then issuance ''allocate revocation identifier'' else do {
     now \<leftarrow> observe (be_clock v) BrokerClock;
     if IsZero now then issuance ''observe credential deadline''
     else case durableCredentialExpiry now request (rd_Profile resolved) of
       None \<Rightarrow> give (Inl ErrInvalidDurableCredentialRequest) | Some credentialExpiresAt \<Rightarrow> do {
     let q = \<lparr>pr_RevocationID = revocationID, pr_Fence = pq_Fence request,
       pr_Issuer = ip_IssuerID (rd_Profile resolved), pr_IssuerRevision = ip_Revision (rd_Profile resolved),
       pr_CredentialExpiresAt = credentialExpiresAt\<rparr>;
     answer \<leftarrow> store_call (\<lambda>h. rp_Prepare ops h q) (Preparing q);
     case answer of Inl _ \<Rightarrow> issuance ''prepare revocation'' | Inr prepared \<Rightarrow>
     case prs_Permit prepared of None \<Rightarrow> issuance ''prepare creator election'' | Some permit \<Rightarrow>
     if \<not> prs_Created prepared then issuance ''prepare creator election''
     else if \<not> validPreparedResult prepared revocationID request (rd_Profile resolved) credentialExpiresAt
     then issuance ''validate prepared revocation''
     else do {
       s \<leftarrow> State_Monad.get;
       State_Monad.update (\<lambda>s. s\<lparr>bs_prepared := bs_prepared s @ [\<lparr>ps_broker = this,
         ps_phase = preparedDurableCredentialReady, ps_request = request, ps_resolved = resolved,
         ps_prepared = prs_Revocation prepared, ps_permit = permit, ps_revocationID = revocationID,
         ps_expiresAt = credentialExpiresAt\<rparr>]\<rparr>);
       give (Inr \<lparr>pc_revocationID = revocationID, pc_state = length (bs_prepared s)\<rparr>) } } } } } } })"

text \<open>
  Consuming a handle gives its contents to the caller and erases them in the shared state: the
  request, the resolution and the snapshot become zero values, and the permit's token is emptied.
\<close>

definition zero_request :: PrepareDurableCredentialRequest where
  "zero_request = \<lparr>pq_Fence = zero_ActionFence, pq_Selection = \<lparr>ir_TenantID = '''', ir_WorkspaceID = '''',
     ir_EnvironmentID = '''', ir_Production = False, ir_ActionType = '''', ir_ConnectorID = '''',
     ir_Permission = '''', ir_Resource = ''''\<rparr>, pq_RequestedTTL = 0, pq_PolicyExpiresAt = 0\<rparr>"

definition zero_resolved :: ResolvedDurableIssuer where
  "zero_resolved = \<lparr>rd_Profile = \<lparr>ip_IssuerID = '''', ip_Revision = '''', ip_CredentialTTL = 0\<rparr>, rd_Issuer = None\<rparr>"

definition zero_Revocation :: Revocation where
  "zero_Revocation = \<lparr>rv_ID = '''', rv_TenantID = '''', rv_WorkspaceID = '''', rv_EnvironmentID = '''',
     rv_ActionID = '''', rv_TargetKey = '''', rv_Production = False, rv_RunnerID = '''', rv_ActionLeaseEpoch = 0,
     rv_Issuer = '''', rv_IssuerRevision = '''', rv_ActionType = '''', rv_ConnectorID = '''', rv_Permission = '''',
     rv_Resource = '''', rv_CredentialTTLSeconds = 0, rv_CredentialExpiresAt = 0,
     rv_Status = RevocationStatusRaw '''', rv_AccessorPresent = False, rv_AccessorHMAC = '''',
     rv_EncryptionKeyID = '''', rv_ClaimEpoch = 0, rv_ClaimedBy = '''', rv_ClaimedAt = 0, rv_ClaimExpiresAt = 0,
     rv_LastHeartbeatAt = 0, rv_Attempt = 0, rv_FailureCount = 0, rv_FailureCode = FailureRaw '''',
     rv_FailureDetailSHA256 = '''', rv_AvailableAt = 0, rv_EvidenceHash = '''', rv_CreatedAt = 0, rv_UpdatedAt = 0,
     rv_AnchoredAt = 0, rv_ActivatedAt = 0, rv_RevocationRequestedAt = 0, rv_ManualRequiredAt = 0,
     rv_RevokedAt = 0, rv_Version = 0\<rparr>"

definition consumed_state ::
  "preparedDurableCredentialPhase \<Rightarrow> preparedDurableCredentialState \<Rightarrow> preparedDurableCredentialState" where
  "consumed_state phase p = p\<lparr>ps_phase := phase, ps_request := zero_request, ps_resolved := zero_resolved,
     ps_prepared := zero_Revocation, ps_permit := (ps_permit p)\<lparr>pm_Token := ''''\<rparr>, ps_expiresAt := 0\<rparr>"

definition consumable :: "nat option \<Rightarrow> PreparedDurableCredential \<Rightarrow> preparedDurableCredentialState \<Rightarrow> bool" where
  "consumable broker prepared p \<longleftrightarrow> broker = Some (ps_broker p) \<and> ps_phase p = preparedDurableCredentialReady \<and>
     pc_revocationID prepared = ps_revocationID p \<and> rv_ID (ps_prepared p) = ps_revocationID p \<and>
     pm_RevocationID (ps_permit p) = ps_revocationID p \<and> ValidOpaqueText (pm_Token (ps_permit p)) 4096 \<and>
     \<not> IsZero (ps_expiresAt p) \<and> validDurableResolution (ps_resolved p)"

definition consumePrepared ::
  "nat option \<Rightarrow> PreparedDurableCredential \<Rightarrow> preparedDurableCredentialPhase \<Rightarrow>
   ('r, preparedDurableCredentialState option) broker" where
  "consumePrepared broker prepared phase = State (\<lambda>s.
     if broker = None \<or> length (bs_prepared s) \<le> pc_state prepared then (None, s)
     else let p = bs_prepared s ! pc_state prepared in
     if \<not> consumable broker prepared p then (None, s)
     else (Some p, s\<lparr>bs_prepared := (bs_prepared s)[pc_state prepared := consumed_state phase p]\<rparr>))"

section \<open>Issuing a credential\<close>

definition newDurableCredential ::
  "nat \<Rightarrow> Revocation \<Rightarrow> DurableDynamicSecret \<Rightarrow> ('r, durable_handle) broker" where
  "newDurableCredential broker revocation dynamic = do {
     s \<leftarrow> State_Monad.get;
     State_Monad.update (\<lambda>s. s\<lparr>bs_issued := bs_issued s @ [\<lparr>cs_broker = broker, cs_revocationID = rv_ID revocation,
       cs_expiresAt = ds_ExpiresAt dynamic, cs_secret = ds_Secret dynamic, cs_activeSnapshot = revocation,
       cs_revocationResult = None\<rparr>]\<rparr>);
     give \<lparr>dh_revocationID = rv_ID revocation, dh_expiresAt = ds_ExpiresAt dynamic, dh_state = length (bs_issued s)\<rparr> }"

text \<open>What is the same in every failure after the child was dispatched: the intent to revoke is persisted.\<close>

definition give_up ::
  "broker_env \<Rightarrow> 'r repository_ops \<Rightarrow> string \<Rightarrow> string \<Rightarrow> ('r, broker_error + durable_handle) broker" where
  "give_up v ops revocationID operation = do {
     _ \<leftarrow> persistRevocationIntent v ops revocationID;
     issuance operation }"

definition validDynamicSecret :: "DurableDynamicSecret \<Rightarrow> ChildCreateAuthorization \<Rightarrow> time \<Rightarrow> time \<Rightarrow> bool" where
  "validDynamicSecret d a childExpiresAt now \<longleftrightarrow> ds_Secret d \<noteq> '''' \<and> \<not> IsZero now \<and> \<not> IsZero (ds_ExpiresAt d) \<and>
     ds_plain d \<and> ds_ExpiresAt d = CanonicalCredentialExpiry (ds_ExpiresAt d) \<and> After (ds_ExpiresAt d) now \<and>
     \<not> After (ds_ExpiresAt d) childExpiresAt \<and> \<not> After (ds_ExpiresAt d) (ca_CredentialExpiresAt a)"

text \<open>The dynamic secret is there: activate the record and hand the secret over.\<close>

definition issue_active ::
  "nat \<Rightarrow> broker_env \<Rightarrow> 'r repository_ops \<Rightarrow> preparedDurableCredentialState \<Rightarrow> Revocation \<Rightarrow> DurableDynamicSecret \<Rightarrow>
   ('r, broker_error + durable_handle) broker" where
  "issue_active this v ops p anchored dynamic =
     (let revocationID = ps_revocationID p; profile = rd_Profile (ps_resolved p) in do {
     cancelled \<leftarrow> observe (be_ctx v) CallerContext;
     if cancelled \<noteq> None then give_up v ops revocationID ''caller canceled after dynamic credential'' else do {
     c \<leftarrow> newFinalizeContext v;
     if c = None then give_up v ops revocationID ''create bounded activation context'' else do {
     let q = \<lparr>atr_RevocationID = revocationID, atr_Fence = pq_Fence (ps_request p)\<rparr>;
     answer \<leftarrow> store_call (\<lambda>h. rp_Activate ops h q) (Activating q);
     case answer of Inl _ \<Rightarrow> give_up v ops revocationID ''activate credential'' | Inr activated \<Rightarrow>
     if \<not> validActiveResult activated anchored revocationID (ps_request p) profile (ps_expiresAt p)
     then give_up v ops revocationID ''activate credential'' else do {
     cancelled \<leftarrow> observe (be_ctx v) CallerContext;
     if cancelled \<noteq> None then give_up v ops revocationID ''caller canceled before credential handoff'' else do {
       credential \<leftarrow> newDurableCredential this activated dynamic;
       give (Inr credential) } } } } })"

text \<open>The accessor is anchored: check the child, inspect it, and get the dynamic secret with its token.\<close>

definition issue_dynamic ::
  "nat \<Rightarrow> broker_env \<Rightarrow> 'r repository_ops \<Rightarrow> preparedDurableCredentialState \<Rightarrow> ChildCreateAuthorization \<Rightarrow>
   DurableChild \<Rightarrow> bool \<Rightarrow> Revocation \<Rightarrow> ('r, broker_error + durable_handle) broker" where
  "issue_dynamic this v ops p authorized child createErr anchored =
     (let revocationID = ps_revocationID p; profile = rd_Profile (ps_resolved p) in do {
     cancelled \<leftarrow> observe (be_ctx v) CallerContext;
     if cancelled \<noteq> None then give_up v ops revocationID ''caller canceled after child dispatch''
     else if createErr \<or> \<not> validDurableChild child authorized then give_up v ops revocationID ''validate child credential''
     else do {
     let iq = \<lparr>ci_RevocationID = revocationID, ci_ProfileRevision = ip_Revision profile,
       ci_ExpectedTTL = ca_TTL authorized, ci_CredentialExpiresAt = ps_expiresAt p\<rparr>;
     inspected \<leftarrow> observe (be_inspect v (ch_Accessor child) iq) (Inspected (ch_Accessor child) iq);
     if \<not> inspected then give_up v ops revocationID ''inspect child accessor'' else do {
     cancelled \<leftarrow> observe (be_ctx v) CallerContext;
     if cancelled \<noteq> None then give_up v ops revocationID ''caller canceled after child inspection'' else do {
     let dq = \<lparr>dy_RevocationID = revocationID, dy_ProfileRevision = ip_Revision profile,
       dy_CredentialExpiresAt = ps_expiresAt p\<rparr>;
     (dynamic, issueErr) \<leftarrow> observe (be_dynamic v (ch_Token child) dq) (DynamicIssued dq);
     now \<leftarrow> (if issueErr then give 0 else observe (be_clock v) BrokerClock);
     if issueErr \<or> \<not> validDynamicSecret dynamic authorized (ch_ExpiresAt child) now
     then give_up v ops revocationID ''issue dynamic credential''
     else issue_active this v ops p anchored dynamic } } } })"

text \<open>The child was dispatched: nothing else is done with it before its accessor is anchored.\<close>

definition issue_anchor ::
  "nat \<Rightarrow> broker_env \<Rightarrow> 'r repository_ops \<Rightarrow> preparedDurableCredentialState \<Rightarrow> ChildCreateAuthorization \<Rightarrow>
   DurableChild \<Rightarrow> bool \<Rightarrow> ('r, broker_error + durable_handle) broker" where
  "issue_anchor this v ops p authorized child createErr =
     (let revocationID = ps_revocationID p; profile = rd_Profile (ps_resolved p) in
      case ch_Accessor child of None \<Rightarrow> issuance ''create child without durable accessor'' | Some _ \<Rightarrow> do {
     c \<leftarrow> newFinalizeContext v;
     if c = None then issuance ''create bounded anchor context'' else do {
     let q = \<lparr>an_RevocationID = revocationID, an_Fence = pq_Fence (ps_request p), an_Accessor = ch_Accessor child\<rparr>;
     answer \<leftarrow> store_call (\<lambda>h. rp_RecordAnchor ops h q) (Anchoring q);
     case answer of Inl _ \<Rightarrow> give_up v ops revocationID ''anchor child accessor'' | Inr anchored \<Rightarrow>
     if \<not> validAnchoredResult anchored (ca_Revocation authorized) revocationID (ps_request p) profile (ps_expiresAt p)
     then give_up v ops revocationID ''validate anchored revocation''
     else issue_dynamic this v ops p authorized child createErr anchored } })"

definition issue_child ::
  "nat \<Rightarrow> broker_env \<Rightarrow> 'r repository_ops \<Rightarrow> preparedDurableCredentialState \<Rightarrow>
   ('r, broker_error + durable_handle) broker" where
  "issue_child this v ops p =
     (let revocationID = ps_revocationID p; profile = rd_Profile (ps_resolved p) in do {
     manager \<leftarrow> observe (be_manager v) ManagerValidated;
     if \<not> manager then issuance ''validate manager'' else do {
     c \<leftarrow> bounded (be_timeout v) ChildCreateVaultCallBudget;
     if c = None then issuance ''create bounded issuer context'' else do {
     let q = \<lparr>ar_Permit = ps_permit p, ar_Fence = pq_Fence (ps_request p)\<rparr>;
     answer \<leftarrow> store_call (\<lambda>h. rp_AuthorizeChildCreate ops h q) (Authorizing q);
     case answer of Inl _ \<Rightarrow> issuance ''authorize child creation'' | Inr authorized \<Rightarrow>
     if \<not> validChildCreateAuthorization authorized (ps_prepared p) revocationID (ps_request p) profile (ps_expiresAt p)
     then issuance ''validate child creation authorization''
     else do {
     let cq = \<lparr>cc_RevocationID = revocationID, cc_ProfileRevision = ip_Revision profile,
       cc_DatabaseAuthorizedAt = ca_DatabaseAuthorizedAt authorized, cc_TTL = ca_TTL authorized,
       cc_CredentialExpiresAt = ps_expiresAt p\<rparr>;
     (child, createErr) \<leftarrow> observe (be_create v cq) (ChildCreated cq);
     issue_anchor this v ops p authorized child createErr } } } })"

definition Issue ::
  "nat option \<Rightarrow> broker_env \<Rightarrow> 'r repository_ops \<Rightarrow> PreparedDurableCredential \<Rightarrow>
   ('r, broker_error + durable_handle) broker" where
  "Issue broker v ops handle =
     (if be_ctx_nil v then give (Inl ErrInvalidDurableCredentialRequest) else do {
     cancelled \<leftarrow> observe (be_ctx v) CallerContext;
     case cancelled of Some c \<Rightarrow> give (Inl (BrokerCtx c)) | None \<Rightarrow> do {
     consumed \<leftarrow> consumePrepared broker handle preparedDurableCredentialIssuing;
     case consumed of None \<Rightarrow> give (Inl ErrDurableCredentialState)
     | Some p \<Rightarrow> issue_child (ps_broker p) v ops p } })"

section \<open>No credential, and the life of an issued one\<close>

definition validNoCredentialResult :: "Revocation \<Rightarrow> preparedDurableCredentialState \<Rightarrow> bool" where
  "validNoCredentialResult v p \<longleftrightarrow>
     validFrozenRevocation v (ps_revocationID p) (ps_request p) (rd_Profile (ps_resolved p)) (ps_expiresAt p)
       StatusNoCredential False \<and>
     sameDurableFrozenRevocation v (ps_prepared p) \<and> rv_Version v = wrap64 (rv_Version (ps_prepared p) + 1)"

definition Broker_RecordNoCredential ::
  "nat option \<Rightarrow> broker_env \<Rightarrow> 'r repository_ops \<Rightarrow> PreparedDurableCredential \<Rightarrow>
   ('r, broker_error + Revocation) broker" where
  "Broker_RecordNoCredential broker v ops handle =
     (if be_ctx_nil v then give (Inl ErrInvalidDurableCredentialRequest) else do {
     cancelled \<leftarrow> observe (be_ctx v) CallerContext;
     case cancelled of Some c \<Rightarrow> give (Inl (BrokerCtx c)) | None \<Rightarrow> do {
     consumed \<leftarrow> consumePrepared broker handle preparedDurableCredentialNoCredential;
     case consumed of None \<Rightarrow> give (Inl ErrDurableCredentialState) | Some p \<Rightarrow> do {
     let q = \<lparr>atr_RevocationID = ps_revocationID p, atr_Fence = pq_Fence (ps_request p)\<rparr>;
     answer \<leftarrow> store_call (\<lambda>h. rp_RecordNoCredential ops h q) (RecordingNone q);
     case answer of Inl _ \<Rightarrow> issuance ''record no credential'' | Inr revocation \<Rightarrow>
     if \<not> validNoCredentialResult revocation p then issuance ''record no credential''
     else give (Inr revocation) } } })"

definition handle_state :: "durable_handle \<Rightarrow> 'r broker_state \<Rightarrow> durableCredentialState option" where
  "handle_state c s = (if dh_state c < length (bs_issued s) then Some (bs_issued s ! dh_state c) else None)"

definition validMetadata :: "durable_handle \<Rightarrow> 'r broker_state \<Rightarrow> bool" where
  "validMetadata c s \<longleftrightarrow> (case handle_state c s of None \<Rightarrow> False | Some state \<Rightarrow>
     dh_revocationID c = cs_revocationID state \<and> dh_expiresAt c = cs_expiresAt state \<and>
     ValidRevocationID (dh_revocationID c) \<and> \<not> IsZero (dh_expiresAt c))"

definition on_handle ::
  "durable_handle \<Rightarrow> (durableCredentialState \<Rightarrow> durableCredentialState) \<Rightarrow> ('r, unit) broker" where
  "on_handle c f = State_Monad.update (\<lambda>s. if dh_state c < length (bs_issued s)
     then s\<lparr>bs_issued := (bs_issued s)[dh_state c := f (bs_issued s ! dh_state c)]\<rparr> else s)"

definition Destroy :: "durable_handle \<Rightarrow> ('r, unit) broker" where
  "Destroy c = on_handle c (\<lambda>state. state\<lparr>cs_secret := ''''\<rparr>)"

definition Secret :: "broker_env \<Rightarrow> durable_handle \<Rightarrow> ('r, string) broker" where
  "Secret v c = do {
     s \<leftarrow> State_Monad.get;
     if \<not> validMetadata c s then give '''' else do {
     now \<leftarrow> observe (be_clock v) BrokerClock;
     if IsZero now \<or> \<not> After (dh_expiresAt c) now then do { Destroy c; give '''' }
     else give (case handle_state c s of None \<Rightarrow> '''' | Some state \<Rightarrow> cs_secret state) } }"

text \<open>
  One flight of \<^verbatim>\<open>RequestRevocation\<close>: the repository call, and the result cached when it is
  valid. A caller that finds a flight of another caller waits for it and looks again; \<open>flights\<close>
  lists how its waits end, with the flight of the other caller or with its own context.
\<close>

datatype flight = OtherFlight | CanceledWaiting ctx_error

definition revocation_flight ::
  "'r repository_ops \<Rightarrow> durable_handle \<Rightarrow> ('r, broker_error + Revocation) broker" where
  "revocation_flight ops c = do {
     s \<leftarrow> State_Monad.get;
     case handle_state c s of None \<Rightarrow> give (Inl ErrDurableCredentialState) | Some state \<Rightarrow> do {
     let q = \<lparr>atr_RevocationID = cs_revocationID state, atr_Fence = zero_ActionFence\<rparr>;
     answer \<leftarrow> store_call (\<lambda>h. rp_RequestRevocation ops h q) (Requesting q);
     case answer of Inl _ \<Rightarrow> issuance ''persist revocation request'' | Inr revocation \<Rightarrow>
     if \<not> validRequestedRevocation revocation state then issuance ''persist revocation request''
     else do {
       on_handle c (\<lambda>state. state\<lparr>cs_revocationResult := Some revocation\<rparr>);
       give (Inr revocation) } } }"

fun revocation_loop ::
  "broker_env \<Rightarrow> 'r repository_ops \<Rightarrow> durable_handle \<Rightarrow> flight list \<Rightarrow> ('r, broker_error + Revocation) broker" where
  "revocation_loop v ops c [] = do {
     s \<leftarrow> State_Monad.get;
     case Option.bind (handle_state c s) cs_revocationResult of Some revocation \<Rightarrow> give (Inr revocation)
     | None \<Rightarrow> do {
         cancelled \<leftarrow> observe (be_ctx v) CallerContext;
         case cancelled of Some err \<Rightarrow> give (Inl (BrokerCtx err)) | None \<Rightarrow> revocation_flight ops c } }"
| "revocation_loop v ops c (f # fs) = do {
     s \<leftarrow> State_Monad.get;
     case Option.bind (handle_state c s) cs_revocationResult of Some revocation \<Rightarrow> give (Inr revocation)
     | None \<Rightarrow>
       (case f of CanceledWaiting err \<Rightarrow> give (Inl (BrokerCtx err))
        | OtherFlight \<Rightarrow> do { _ \<leftarrow> revocation_flight ops c; revocation_loop v ops c fs }) }"

definition Broker_RequestRevocation ::
  "nat option \<Rightarrow> broker_env \<Rightarrow> 'r repository_ops \<Rightarrow> durable_handle \<Rightarrow> flight list \<Rightarrow>
   ('r, broker_error + Revocation) broker" where
  "Broker_RequestRevocation broker v ops c flights = do {
     Destroy c;
     s \<leftarrow> State_Monad.get;
     case handle_state c s of None \<Rightarrow> give (Inl ErrDurableCredentialState) | Some state \<Rightarrow>
     if broker = None \<or> be_ctx_nil v \<or> \<not> validMetadata c s \<or> broker \<noteq> Some (cs_broker state)
     then give (Inl ErrDurableCredentialState)
     else revocation_loop v ops c flights }"

end
