(* ===== verification/Credential_Safety.thy ===== *)
theory Credential_Safety
  imports Credential_Repository
begin

text \<open>
  What the credential repository guarantees to its clients: the runner that prepares and uses a
  child credential, the workers that revoke it, the people who confirm a revocation, and the
  execution queue that keeps a target locked until the credential is settled. The theorems speak
  about every state the calls of \<open>Credential_Repository\<close> can reach, in any order; the run at the end
  takes one credential from its preparation to its revocation.
\<close>

section \<open>The life of a record\<close>


text \<open>
  C31. A record is only declared NO_CREDENTIAL in a call that finds that no child creation was ever
  authorized for it, or whose clock has passed the credential's expiry by the recovery grace.
\<close>

theorem no_credential_sound:
  assumes reach: "(cred_step sha)\<^sup>*\<^sup>* empty_credentials s" and call: "cred_call sha e s u"
    and r: "gget (cdr_records s) i = Some r" and r': "gget (cdr_records u) i = Some r'"
    and new: "rv_Status (mv_revocation r) \<noteq> StatusNoCredential" "rv_Status (mv_revocation r') = StatusNoCredential"
  shows "mv_childCreateAuthorizedAt r' = 0 \<or>
    (\<exists>n. rv_CredentialExpiresAt (mv_revocation r) + PreparedRecoveryGrace \<le> ce_clock e n)"
  using cred_call_record [OF call cred_calls.reachable_inv [OF reach] r] r' new
  by (auto simp: cred_called_def)



lemma withLocked_Inr:
  "withLockedActionInspection source operation s = (u, Inr v) \<Longrightarrow>
   \<exists>inspection. ls_inspections source = [inspection] \<and> operation inspection s = (u, Inr v)"
  by (auto simp: withLockedActionInspection_def Let_def prod_eq_iff split: if_splits list.splits sum.splits)

definition authorize_grants ::
  "(string \<Rightarrow> string) \<Rightarrow> time \<Rightarrow> AuthorizeChildCreateRequest \<Rightarrow> ActionInspection \<Rightarrow> memoryRevocationRecord \<Rightarrow> bool" where
  "authorize_grants sha t q inspection r \<longleftrightarrow>
     frozenActionFenceMatches sha r (ar_Fence q) \<and> inspectionScopeMatches (mv_revocation r) (ai_Metadata inspection) \<and>
     inspectionFenceCurrent r inspection t 0 \<and>
     t + (ChildCreateExpiryReserve + MinPostChildFenceWindow) \<le> am_LeaseExpiresAt (ai_Metadata inspection) \<and>
     t + (ChildCreateExpiryReserve + MinPostChildFenceWindow) \<le> am_AuthorizationExpiresAt (ai_Metadata inspection) \<and>
     rv_CredentialExpiresAt (mv_revocation r) \<le> am_AuthorizationExpiresAt (ai_Metadata inspection) \<and>
     mv_childCreatePermitSHA256 r = sha (pm_Token (ar_Permit q)) \<and> cred_status r = StatusPrepared \<and>
     mv_childCreateAuthorizedAt r = 0"

definition child_ttl :: "time \<Rightarrow> memoryRevocationRecord \<Rightarrow> duration" where
  "child_ttl t r = go_quot (wrap64 (time_Sub (rv_CredentialExpiresAt (mv_revocation r)) t - ChildCreateExpiryReserve))
     VaultTTLQuantum * VaultTTLQuantum"

lemma authorize_locked_Inr:
  assumes "authorize_locked sha t q inspection s = (u, Inr a)"
  shows "\<exists>r. gget (cdr_records s) (pm_RevocationID (ar_Permit q)) = Some r \<and> authorize_grants sha t q inspection r \<and>
    MinChildCreateTTL \<le> child_ttl t r \<and> ca_TTL a = child_ttl t r \<and> ca_DatabaseAuthorizedAt a = t \<and>
    ca_CredentialExpiresAt a = rv_CredentialExpiresAt (mv_revocation r) \<and>
    u = put_credential (pm_RevocationID (ar_Permit q))
      (bump t (r\<lparr>mv_childCreateAuthorizedAt := t, mv_childCreateTTL := child_ttl t r\<rparr>)) s"
proof -
  obtain r where r: "gget (cdr_records s) (pm_RevocationID (ar_Permit q)) = Some r"
    using assms by (cases "gget (cdr_records s) (pm_RevocationID (ar_Permit q))") (simp_all add: authorize_locked_def)
  then show ?thesis
    using assms
    by (simp add: authorize_locked_def authorize_grants_def child_ttl_def Let_def split: if_splits)
      (auto simp: cred_update_defs)
qed

lemma Authorize_Inr:
  assumes "AuthorizeChildCreate sha e q s = (u, Inr a)"
  shows "\<exists>inspection. ls_inspections (ce_source e 0 (af_ActionID (ar_Fence q))) = [inspection] \<and>
    authorize_locked sha (ce_clock e 0) q inspection s = (u, Inr a)"
  using assms by (auto simp: AuthorizeChildCreate_def split: option.splits if_splits dest: withLocked_Inr)

lemma cred_step_Authorize: "AuthorizeChildCreate sha e q s = (u, res) \<Longrightarrow> cred_step sha s u"
  unfolding cred_step_def using ccall_Authorize [of sha e s q] by (intro exI [of _ e]) simp

lemma withLocked_refused:
  assumes "\<And>inspection. \<exists>err. operation inspection s = (s, Inl err)"
  shows "\<exists>err. withLockedActionInspection source operation s = (s, Inl err)"
proof (cases "ls_inspections source")
  case (Cons inspection again)
  obtain err where "operation inspection s = (s, Inl err)" using assms by blast
  then show ?thesis using Cons by (simp add: withLockedActionInspection_def Let_def)
qed (simp add: withLockedActionInspection_def)

lemma Authorize_refused:
  assumes "\<And>r. gget (cdr_records s) (pm_RevocationID (ar_Permit q)) = Some r \<Longrightarrow>
    frozenActionFenceMatches sha r (ar_Fence q) \<Longrightarrow> mv_childCreateAuthorizedAt r \<noteq> 0"
  shows "\<exists>err. AuthorizeChildCreate sha e q s = (s, Inl err)"
proof -
  have "\<exists>err. authorize_locked sha t q inspection s = (s, Inl err)" for t inspection
    using assms by (auto simp: authorize_locked_def Let_def split: option.split)
  then show ?thesis
    using withLocked_refused [of "authorize_locked sha (ce_clock e 0) q" s]
    by (auto simp: AuthorizeChildCreate_def split: option.split)
qed

lemma one_record_per_epoch:
  assumes inv: "cred_inv s" and "gget (cdr_records s) i = Some r" and "gget (cdr_records s) j = Some q"
    and "rv_ActionID (mv_revocation r) = rv_ActionID (mv_revocation q)"
    and "rv_ActionLeaseEpoch (mv_revocation r) = rv_ActionLeaseEpoch (mv_revocation q)"
  shows "i = j"
  using cred_invD(4) [OF inv assms(2)] cred_invD(4) [OF inv assms(3)] assms(4,5) by (simp add: epoch_key_def)

text \<open>
  C6. For one action lease epoch at most one child credential is ever authorized: after an
  authorization at a clock reading other than the zero time, every later request for the same action
  and epoch, whatever its permit, is refused and changes nothing.
\<close>

theorem child_create_authorized_once:
  assumes reach: "(cred_step sha)\<^sup>*\<^sup>* empty_credentials s"
    and first: "AuthorizeChildCreate sha e q s = (u, Inr a)" and clock: "ce_clock e 0 \<noteq> 0"
    and later: "(cred_step sha)\<^sup>*\<^sup>* u v"
    and same: "af_ActionID (ar_Fence q') = af_ActionID (ar_Fence q)" "af_Epoch (ar_Fence q') = af_Epoch (ar_Fence q)"
  shows "\<exists>err. AuthorizeChildCreate sha e' q' v = (v, Inl err)"
proof (rule Authorize_refused)
  obtain inspection r where r: "authorize_grants sha (ce_clock e 0) q inspection r"
    and u: "u = put_credential (pm_RevocationID (ar_Permit q))
      (bump (ce_clock e 0) (r\<lparr>mv_childCreateAuthorizedAt := ce_clock e 0, mv_childCreateTTL := child_ttl (ce_clock e 0) r\<rparr>)) s"
    using Authorize_Inr [OF first] authorize_locked_Inr by blast
  define r1 where "r1 = bump (ce_clock e 0)
    (r\<lparr>mv_childCreateAuthorizedAt := ce_clock e 0, mv_childCreateTTL := child_ttl (ce_clock e 0) r\<rparr>)"
  have inv: "cred_inv u"
    using cred_calls.reachable_inv [OF rtranclp.rtrancl_into_rtrancl [OF reach cred_step_Authorize [OF first]]] .
  have "gget (cdr_records u) (pm_RevocationID (ar_Permit q)) = Some r1"
    by (simp add: u r1_def gget_put_credential)
  from cred_steps_record [OF later inv this] obtain r2
    where r2: "gget (cdr_records v) (pm_RevocationID (ar_Permit q)) = Some r2" "cred_later r1 r2" by blast
  fix x
  assume x: "gget (cdr_records v) (pm_RevocationID (ar_Permit q')) = Some x"
    and "frozenActionFenceMatches sha x (ar_Fence q')"
  moreover have "rv_ActionID (mv_revocation r2) = af_ActionID (ar_Fence q)"
    "rv_ActionLeaseEpoch (mv_revocation r2) = af_Epoch (ar_Fence q)"
    using r r2(2) by (simp_all add: cred_later_def frozen_def r1_def cred_update_defs authorize_grants_def
        frozenActionFenceMatches_def)
  ultimately have "x = r2"
    using one_record_per_epoch [OF cred_calls.steps_inv [OF later inv] x r2(1)] same x r2(1)
    by (simp add: frozenActionFenceMatches_def)
  then show "mv_childCreateAuthorizedAt x \<noteq> 0"
    using r2(2) clock by (simp add: cred_later_def r1_def cred_update_defs)
qed

lemma child_ttl_bounds:
  assumes "t < rv_CredentialExpiresAt (mv_revocation r)" and "MinChildCreateTTL \<le> child_ttl t r"
  shows "t + ChildCreateExpiryReserve + child_ttl t r \<le> rv_CredentialExpiresAt (mv_revocation r)"
    and "VaultTTLQuantum dvd child_ttl t r"
proof -
  define rest where "rest = time_Sub (rv_CredentialExpiresAt (mv_revocation r)) t - ChildCreateExpiryReserve"
  have sub: "0 \<le> time_Sub (rv_CredentialExpiresAt (mv_revocation r)) t"
      "time_Sub (rv_CredentialExpiresAt (mv_revocation r)) t \<le> rv_CredentialExpiresAt (mv_revocation r) - t"
      "time_Sub (rv_CredentialExpiresAt (mv_revocation r)) t \<le> MaxInt64"
    using assms(1) by (auto simp: time_Sub_def MaxInt64_def MinInt64_def)
  have w: "wrap64 rest = rest"
    using sub by (intro wrap64_id) (auto simp: rest_def credential_durations MinInt64_def MaxInt64_def go_defs)
  have q: "0 < VaultTTLQuantum" by (simp add: credential_durations)
  have "0 \<le> rest"
  proof (rule ccontr)
    assume "\<not> 0 \<le> rest"
    then have "go_quot rest VaultTTLQuantum \<le> 0" using q by (intro go_quot_neg) auto
    then have "child_ttl t r \<le> 0" using q by (simp add: child_ttl_def rest_def [symmetric] w mult_nonpos_nonneg)
    with assms(2) show False by (simp add: credential_durations)
  qed
  then have "child_ttl t r = rest div VaultTTLQuantum * VaultTTLQuantum"
    using q by (simp add: child_ttl_def rest_def [symmetric] w go_quot_pos)
  moreover have "rest div VaultTTLQuantum * VaultTTLQuantum \<le> rest"
    using pos_mod_sign [OF q, of rest] div_mult_mod_eq [of rest VaultTTLQuantum] by linarith
  ultimately show "t + ChildCreateExpiryReserve + child_ttl t r \<le> rv_CredentialExpiresAt (mv_revocation r)"
    and "VaultTTLQuantum dvd child_ttl t r"
    using sub(2) by (simp_all add: rest_def)
qed

lemma cred_expiry_bounds:
  assumes "cred_inv s" and "gget (cdr_records s) i = Some r"
  shows "rv_CredentialExpiresAt (mv_revocation r) \<le>
      rv_CreatedAt (mv_revocation r) + rv_CredentialTTLSeconds (mv_revocation r) * Second"
    and "rv_CredentialTTLSeconds (mv_revocation r) * Second \<le> Credential_MaxCredentialTTL"
    and "\<not> rv_Production (mv_revocation r)"
  using cred_invD(2) [OF assms] by (auto simp: cred_identity_def validCredentialTTLSeconds_def Let_def)

text \<open>
  C30. Every authorization of a child credential is bounded: its time to live is a positive multiple
  of Vault's whole seconds and at least \<open>MinChildCreateTTL\<close>; even when the creation takes the whole reserve
  the credential ends before the recorded expiry, which lies at most the signed time to live, and
  so at most fifteen minutes, after the record was created. It is never for production, and the
  action lease and the authorization last beyond the reserve.
\<close>

theorem child_create_ttl_bounded:
  assumes reach: "(cred_step sha)\<^sup>*\<^sup>* empty_credentials s"
    and auth: "AuthorizeChildCreate sha e q s = (u, Inr a)"
  shows "\<exists>r inspection. gget (cdr_records s) (pm_RevocationID (ar_Permit q)) = Some r \<and>
    ls_inspections (ce_source e 0 (af_ActionID (ar_Fence q))) = [inspection] \<and>
    MinChildCreateTTL \<le> ca_TTL a \<and> VaultTTLQuantum dvd ca_TTL a \<and>
    ce_clock e 0 + ChildCreateExpiryReserve + ca_TTL a \<le> ca_CredentialExpiresAt a \<and>
    ca_CredentialExpiresAt a \<le> rv_CreatedAt (mv_revocation r) + rv_CredentialTTLSeconds (mv_revocation r) * Second \<and>
    rv_CredentialTTLSeconds (mv_revocation r) * Second \<le> 15 * Minute \<and> \<not> rv_Production (mv_revocation r) \<and>
    ce_clock e 0 + (ChildCreateExpiryReserve + MinPostChildFenceWindow) \<le> am_LeaseExpiresAt (ai_Metadata inspection) \<and>
    ca_CredentialExpiresAt a \<le> am_AuthorizationExpiresAt (ai_Metadata inspection)"
proof -
  obtain inspection r where insp: "ls_inspections (ce_source e 0 (af_ActionID (ar_Fence q))) = [inspection]"
    and r: "gget (cdr_records s) (pm_RevocationID (ar_Permit q)) = Some r"
    and grant: "authorize_grants sha (ce_clock e 0) q inspection r"
    and ttl: "MinChildCreateTTL \<le> child_ttl (ce_clock e 0) r" "ca_TTL a = child_ttl (ce_clock e 0) r"
    and until: "ca_CredentialExpiresAt a = rv_CredentialExpiresAt (mv_revocation r)"
    using Authorize_Inr [OF auth] authorize_locked_Inr by blast
  have "ce_clock e 0 < rv_CredentialExpiresAt (mv_revocation r)"
    using grant by (simp add: authorize_grants_def inspectionFenceCurrent_def Let_def)
  note T = child_ttl_bounds [OF this ttl(1)]
  note B = cred_expiry_bounds [OF cred_calls.reachable_inv [OF reach] r]
  show ?thesis
    by (rule exI [of _ r], rule exI [of _ inspection])
      (use insp r ttl T B until grant in \<open>simp add: authorize_grants_def Credential_MaxCredentialTTL_def\<close>)
qed

section \<open>What the execution queue asks\<close>

lemma InspectCleanup_Inr:
  assumes inv: "cred_inv s" and "InspectCleanup e a n s = Inr (present, terminal)"
  shows "(present \<longleftrightarrow> (\<exists>i r. gget (cdr_records s) i = Some r \<and>
      rv_ActionID (mv_revocation r) = a \<and> rv_ActionLeaseEpoch (mv_revocation r) = n)) \<and>
    (terminal \<longleftrightarrow> (\<exists>i r. gget (cdr_records s) i = Some r \<and> rv_ActionID (mv_revocation r) = a \<and>
      rv_ActionLeaseEpoch (mv_revocation r) = n \<and> Revocation_Terminal (mv_revocation r)))"
proof -
  have a: "ValidIdentifier a 256" using assms(2) by (auto simp: InspectCleanup_def split: option.splits if_splits)
  have key: "rv_ActionID (mv_revocation r) = a \<and> rv_ActionLeaseEpoch (mv_revocation r) = n"
    if "gget (cdr_records s) i = Some r" "epoch_key r = actionEpochKey a n" for i r
  proof -
    have "ValidIdentifier (rv_ActionID (mv_revocation r)) 256"
      using cred_invD(2) [OF inv that(1)] by (simp add: cred_identity_def Let_def)
    then show ?thesis
      by (rule actionEpochKey_inj [OF ValidIdentifier_no_nul ValidIdentifier_no_nul [OF a] that(2) [unfolded epoch_key_def]])
  qed
  show ?thesis
  proof (cases "gget (cdr_actionEpochs s) (actionEpochKey a n)")
    case None
    then have "\<not> (gget (cdr_records s) i = Some r \<and> rv_ActionID (mv_revocation r) = a \<and>
      rv_ActionLeaseEpoch (mv_revocation r) = n)" for i r
      using cred_invD(4) [OF inv, of i r] by (auto simp: epoch_key_def)
    with None assms(2) show ?thesis by (auto simp: InspectCleanup_def split: option.splits if_splits)
  next
    case (Some i)
    then obtain r where r: "gget (cdr_records s) i = Some r" "epoch_key r = actionEpochKey a n"
      using cred_invD(5) [OF inv] by blast
    have ans: "present" "terminal = Revocation_Terminal (mv_revocation r)"
      using Some r(1) assms(2) by (auto simp: InspectCleanup_def split: option.splits if_splits)
    have one: "q = r" if "gget (cdr_records s) j = Some q" "rv_ActionID (mv_revocation q) = a"
      "rv_ActionLeaseEpoch (mv_revocation q) = n" for j q
      using one_record_per_epoch [OF inv that(1) r(1)] that key [OF r] r(1) by simp
    have "\<exists>i r. gget (cdr_records s) i = Some r \<and> rv_ActionID (mv_revocation r) = a \<and>
      rv_ActionLeaseEpoch (mv_revocation r) = n" using r(1) key [OF r] by blast
    moreover have "terminal \<longleftrightarrow> (\<exists>i r. gget (cdr_records s) i = Some r \<and> rv_ActionID (mv_revocation r) = a \<and>
      rv_ActionLeaseEpoch (mv_revocation r) = n \<and> Revocation_Terminal (mv_revocation r))"
    proof
      assume "terminal"
      then show "\<exists>i r. gget (cdr_records s) i = Some r \<and> rv_ActionID (mv_revocation r) = a \<and>
          rv_ActionLeaseEpoch (mv_revocation r) = n \<and> Revocation_Terminal (mv_revocation r)"
        using r(1) key [OF r] ans(2) by blast
    qed (use one ans(2) in blast)
    ultimately show ?thesis using ans(1) by blast
  qed
qed

text \<open>
  The gate the execution queue is built with, as an interface: an answer that says the credential of
  an action epoch is settled stays true whatever the repository does afterwards.
\<close>

locale cleanup_gate =
  fixes step :: "'s \<Rightarrow> 's \<Rightarrow> bool" and inv :: "'s \<Rightarrow> bool"
    and inspect :: "'s \<Rightarrow> string \<Rightarrow> int \<Rightarrow> 'e + (bool \<times> bool)"
  assumes inv_step: "step s t \<Longrightarrow> inv s \<Longrightarrow> inv t"
    and settled_step: "inv s \<Longrightarrow> step s t \<Longrightarrow> inspect s a n = Inr (True, True) \<Longrightarrow> inspect t a n = Inr (True, True)"
begin

lemma settled_forever:
  assumes "step\<^sup>*\<^sup>* s t" and "inv s" and "inspect s a n = Inr (True, True)"
  shows "inv t \<and> inspect t a n = Inr (True, True)"
  using assms(1)
proof (induction rule: rtranclp_induct)
  case (step y z)
  then show ?case using inv_step settled_step by blast
qed (use assms in simp)

end

lemma settled_record:
  assumes inv: "cred_inv s" and "InspectCleanup e a n s = Inr (True, True)"
  shows "\<exists>i r. gget (cdr_actionEpochs s) (actionEpochKey a n) = Some i \<and> gget (cdr_records s) i = Some r \<and>
    Revocation_Terminal (mv_revocation r)"
  using assms(2) by (auto simp: InspectCleanup_def split: option.splits if_splits)

lemma cred_effect_epochs:
  "cred_effect e s u \<Longrightarrow> gget (cdr_actionEpochs s) k = Some i \<Longrightarrow> gget (cdr_actionEpochs u) k = Some i"
  by (erule cred_effect.cases) (auto simp: put_credential_def gomap_simps)

lemma cred_call_epochs:
  assumes "cred_call sha e s u" and "cred_inv s" and "gget (cdr_actionEpochs s) k = Some i"
  shows "gget (cdr_actionEpochs u) k = Some i"
  using cred_call_effects [OF assms(1,2)] assms(3)
  by (induction rule: rtranclp_induct) (auto intro: cred_effect_epochs)

interpretation repository_gate: cleanup_gate "cred_step sha" cred_inv "\<lambda>s a n. InspectCleanup e a n s"
proof
  show "cred_inv t" if "cred_step sha s t" "cred_inv s" for s t
    using that by (auto simp: cred_step_def intro: cred_call_inv)
  fix s t a n
  assume inv: "cred_inv s" and step: "cred_step sha s t" and settled: "InspectCleanup e a n s = Inr (True, True)"
  from step obtain x where call: "cred_call sha x s t" by (auto simp: cred_step_def)
  from settled_record [OF inv settled] obtain i r where i: "gget (cdr_actionEpochs s) (actionEpochKey a n) = Some i"
    and r: "gget (cdr_records s) i = Some r" and final: "Revocation_Terminal (mv_revocation r)" by blast
  have "gget (cdr_records t) i = Some r"
    using cred_call_record [OF call inv r] final
    by (auto simp: cred_called_def cred_later_def cred_terminal_def Revocation_Terminal_def)
  then show "InspectCleanup e a n t = Inr (True, True)"
    using settled final cred_call_epochs [OF call inv i]
    by (auto simp: InspectCleanup_def split: option.splits if_splits)
qed

text \<open>
  C32. What the repository tells the execution queue is exact and final: the answer to a cleanup
  inspection says whether there is a record for that action and epoch and whether it is
  REVOKED or NO_CREDENTIAL, and once the answer is that it is, it stays so after any further calls.
\<close>

theorem cleanup_inspection_exact:
  assumes reach: "(cred_step sha)\<^sup>*\<^sup>* empty_credentials s" and ans: "InspectCleanup e a n s = Inr (present, terminal)"
    and later: "(cred_step sha)\<^sup>*\<^sup>* s u"
  shows "(present \<longleftrightarrow> (\<exists>i r. gget (cdr_records s) i = Some r \<and> rv_ActionID (mv_revocation r) = a \<and>
      rv_ActionLeaseEpoch (mv_revocation r) = n)) \<and>
    (terminal \<longleftrightarrow> (\<exists>i r. gget (cdr_records s) i = Some r \<and> rv_ActionID (mv_revocation r) = a \<and>
      rv_ActionLeaseEpoch (mv_revocation r) = n \<and>
      rv_Status (mv_revocation r) \<in> {StatusRevoked, StatusNoCredential})) \<and>
    (terminal \<longrightarrow> InspectCleanup e a n u = Inr (True, True))"
proof -
  have inv: "cred_inv s" by (rule cred_calls.reachable_inv [OF reach])
  note E = InspectCleanup_Inr [OF inv ans]
  moreover have "InspectCleanup e a n u = Inr (True, True)" if "terminal"
  proof -
    from that E have "present" by blast
    with ans that have "InspectCleanup e a n s = Inr (True, True)" by simp
    then show ?thesis using repository_gate.settled_forever [OF later inv] by blast
  qed
  ultimately show ?thesis by (auto simp: Revocation_Terminal_def)
qed

section \<open>Claims of revocation workers\<close>

definition claim_of ::
  "(string \<Rightarrow> string) \<Rightarrow> ClaimRevocationsRequest \<Rightarrow> time \<Rightarrow> memoryPreparedClaim \<Rightarrow> ClaimedRevocation" where
  "claim_of sha q t c = (let r = start_claim sha q t (pcl_token c) (pcl_record c) in
     \<lparr>cl_Revocation = publicMemoryRevocation r,
      cl_Fence = \<lparr>cf_RevocationID = rv_ID (mv_revocation r), cf_WorkerID = cr_WorkerID q,
        cf_Token = pcl_token c, cf_Epoch = rv_ClaimEpoch (mv_revocation r)\<rparr>,
      cl_Accessor = pcl_accessor c\<rparr>)"

lemma apply_claims_result:
  "snd (apply_claims sha q t cs s) = map (claim_of sha q t) (filter (\<lambda>c. \<not> pcl_poison c) cs)"
  by (induction cs arbitrary: s) (simp_all add: claim_of_def Let_def)

lemma apply_claims_frame:
  "j \<notin> pcl_id ` set cs \<Longrightarrow> gget (cdr_records (fst (apply_claims sha q t cs s))) j = gget (cdr_records s) j"
  by (induction cs arbitrary: s) (simp_all add: Let_def gget_put_credential)

lemma apply_claims_stored:
  assumes "distinct (map pcl_id cs)" and "c \<in> set cs" and "\<not> pcl_poison c"
  shows "gget (cdr_records (fst (apply_claims sha q t cs s))) (pcl_id c) =
    Some (start_claim sha q t (pcl_token c) (pcl_record c))"
  using assms
proof (induction cs arbitrary: s)
  case (Cons d cs)
  show ?case
  proof (cases "c = d")
    case True
    then show ?thesis using Cons.prems by (simp add: Let_def apply_claims_frame gget_put_credential)
  next
    case False
    then show ?thesis using Cons.prems Cons.IH by (simp add: Let_def)
  qed
qed simp

lemma candidates_length: "length (candidates eligible key limit s) \<le> nat limit"
  by (simp add: candidates_def)

lemma prepared_claims:
  assumes inv: "cred_inv s" and "prepare_claims e 0 (candidates (claimable_revocation t) key limit s) = Inr cs"
  shows "distinct (map pcl_id cs)" and "length cs \<le> nat limit"
    and "c \<in> set cs \<Longrightarrow> gget (cdr_records s) (pcl_id c) = Some (pcl_record c) \<and>
      claimable_revocation t (pcl_record c) \<and> rv_ClaimEpoch (mv_revocation (pcl_record c)) \<noteq> MaxInt64"
proof -
  let ?found = "candidates (claimable_revocation t) key limit s"
  note found = candidates_entries [OF cred_invD(1) [OF inv]]
  have entries: "map claim_entry cs = ?found" using prepare_claims_entries [OF assms(2)] by blast
  from arg_cong [OF entries, of "map fst"] have "map pcl_id cs = gkeys ?found" by (simp add: comp_def)
  then show "distinct (map pcl_id cs)" using found(1) by simp
  show "length cs \<le> nat limit" using arg_cong [OF entries, of length] candidates_length [of _ key limit s] by simp
  show "gget (cdr_records s) (pcl_id c) = Some (pcl_record c) \<and> claimable_revocation t (pcl_record c) \<and>
      rv_ClaimEpoch (mv_revocation (pcl_record c)) \<noteq> MaxInt64" if "c \<in> set cs"
  proof -
    have "claim_entry c \<in> set ?found" using that unfolding entries [symmetric] by simp
    then show ?thesis using found(2) conjunct2 [OF prepare_claims_entries [OF assms(2)]] that by blast
  qed
qed

lemma claim_handed_out:
  assumes inv: "cred_inv s" and claim: "ClaimRevocations sha e q s = (u, Inr claims)"
  shows "int (length claims) \<le> cr_Limit q"
    and "c \<in> set claims \<Longrightarrow> \<exists>r r'. gget (cdr_records s) (cf_RevocationID (cl_Fence c)) = Some r \<and>
      claimable_revocation (ce_clock e 0) r \<and> claimRecord sha (cl_Fence c) (ce_clock e 0) u = Inr r' \<and>
      cf_Epoch (cl_Fence c) = rv_ClaimEpoch (mv_revocation r) + 1 \<and>
      rv_Attempt (mv_revocation r') - mv_retryCycleAttemptBase r' \<le> MaxRevocationAttempts"
proof -
  let ?t = "ce_clock e 0"
  obtain cs where cs: "prepare_claims e 0 (candidates (claimable_revocation ?t)
        (\<lambda>v. (rv_AvailableAt v, rv_CreatedAt v, rv_ID v)) (cr_Limit q) s) = Inr cs"
    and u: "u = fst (apply_claims sha q ?t cs s)" and claims: "claims = snd (apply_claims sha q ?t cs s)"
    and lease: "validClaimDuration (cr_LeaseDuration q)" and limit: "1 \<le> cr_Limit q"
    using claim by (auto simp: ClaimRevocations_def bad_limit_def Let_def split: option.splits if_splits sum.splits)
  note P = prepared_claims [OF inv cs]
  have "length claims \<le> length cs" unfolding claims apply_claims_result by simp
  then show "int (length claims) \<le> cr_Limit q" using P(2) limit by linarith
  show "\<exists>r r'. gget (cdr_records s) (cf_RevocationID (cl_Fence c)) = Some r \<and>
      claimable_revocation ?t r \<and> claimRecord sha (cl_Fence c) ?t u = Inr r' \<and>
      cf_Epoch (cl_Fence c) = rv_ClaimEpoch (mv_revocation r) + 1 \<and>
      rv_Attempt (mv_revocation r') - mv_retryCycleAttemptBase r' \<le> MaxRevocationAttempts" if c: "c \<in> set claims"
  proof -
    obtain p where p: "p \<in> set cs" "\<not> pcl_poison p" "c = claim_of sha q ?t p"
      using c unfolding claims apply_claims_result by auto
    let ?r = "pcl_record p" and ?r' = "start_claim sha q ?t (pcl_token p) (pcl_record p)"
    note R = P(3) [OF p(1)]
    have phase: "cred_phase ?r" and "cred_identity (pcl_id p) ?r" by (rule cred_invD(3) [OF inv conjunct1 [OF R]], rule cred_invD(2) [OF inv conjunct1 [OF R]])
    then have id: "rv_ID (mv_revocation ?r) = pcl_id p" by (simp add: cred_identity_def Let_def)
    have "claims_ok ?r" "\<not> memoryRevocationExhausted ?r ?t" "cred_status ?r \<noteq> StatusRevoked"
      using phase R by (auto simp: cred_phase_def claimable_revocation_def)
    note counts = start_claim_counts [OF this(1) conjunct2 [OF conjunct2 [OF R]] this(2,3), of sha q "pcl_token p"]
    have fence: "cl_Fence c = \<lparr>cf_RevocationID = pcl_id p, cf_WorkerID = cr_WorkerID q, cf_Token = pcl_token p,
        cf_Epoch = rv_ClaimEpoch (mv_revocation ?r')\<rparr>"
      by (simp add: p(3) claim_of_def Let_def id [symmetric]) (simp add: start_claim_def cred_update_defs)
    have "gget (cdr_records u) (pcl_id p) = Some ?r'" unfolding u by (rule apply_claims_stored [OF P(1) p(1,2)])
    moreover have "matchesMemoryClaim ?r' (cl_Fence c) (sha (pcl_token p)) ?t"
      using lease unfolding fence by (simp add: matchesMemoryClaim_def start_claim_def cred_update_defs
          validClaimDuration_def credential_durations)
    ultimately have "claimRecord sha (cl_Fence c) ?t u = Inr ?r'" by (simp add: claimRecord_def fence)
    moreover have "rv_Attempt (mv_revocation ?r') - mv_retryCycleAttemptBase ?r' \<le> MaxRevocationAttempts"
      using counts(1) by (simp add: claims_ok_def)
    ultimately show ?thesis using R counts(2) fence by (intro exI [of _ ?r] exI [of _ ?r']) simp
  qed
qed

text \<open>
  C33. What \<open>ClaimRevocations\<close> hands out: at most the limit asked for, and for every claim the record
  was waiting and due or held under an expired claim, and not exhausted; now it is REVOKING with
  a claim epoch one higher, within the attempts allowed in a retry cycle, and the fence handed out is
  the one the repository accepts.
\<close>

theorem revocation_claims_sound:
  assumes reach: "(cred_step sha)\<^sup>*\<^sup>* empty_credentials s"
    and claim: "ClaimRevocations sha e q s = (u, Inr claims)"
  shows "int (length claims) \<le> cr_Limit q \<and> (\<forall>c\<in>set claims. \<exists>r r'.
    gget (cdr_records s) (cf_RevocationID (cl_Fence c)) = Some r \<and> claimable_revocation (ce_clock e 0) r \<and>
    claimRecord sha (cl_Fence c) (ce_clock e 0) u = Inr r' \<and>
    cf_Epoch (cl_Fence c) = rv_ClaimEpoch (mv_revocation r) + 1 \<and>
    rv_Attempt (mv_revocation r') - mv_retryCycleAttemptBase r' \<le> MaxRevocationAttempts)"
  using claim_handed_out [OF cred_calls.reachable_inv [OF reach] claim] by blast



lemma stale_claim_refused:
  assumes r: "gget (cdr_records s) (cf_RevocationID f) = Some r" and "claims_ok r"
    and late: "cf_Epoch f < rv_ClaimEpoch (mv_revocation r)"
  shows "\<exists>err. CompleteRevocation sha e f s = (s, Inl err)"
    and "\<exists>err. failClaim sha e f code detail transition s = (s, Inl err)"
    and "hb_Fence q = f \<Longrightarrow> \<exists>err. Cred_Heartbeat sha e q s = (s, Inl err)"
proof -
  have no: "\<not> matchesMemoryClaim r f d t" for d t using late by (simp add: matchesMemoryClaim_def)
  then have rec: "claimRecord sha f t s = Inl ErrStaleClaim" for t using r by (simp add: claimRecord_def)
  have "mv_completedClaimEpoch r \<noteq> cf_Epoch f" if "0 < cf_Epoch f"
    using assms(2) that late by (auto simp: claims_ok_def)
  then show "\<exists>err. CompleteRevocation sha e f s = (s, Inl err)"
    using r no by (auto simp: CompleteRevocation_def validClaimFence_def Let_def split: option.split)
  show "\<exists>err. failClaim sha e f code detail transition s = (s, Inl err)"
    by (auto simp: failClaim_def rec split: option.split)
  show "\<exists>err. Cred_Heartbeat sha e q s = (s, Inl err)" if "hb_Fence q = f"
    using that by (auto simp: Cred_Heartbeat_def rec split: option.split)
qed

text \<open>
  C34. Fencing of revocation workers: once the record of a claim has been claimed again, the
  earlier fence can neither complete the revocation nor heartbeat, retry or hand it to people, in any
  later state; every such call is refused and changes nothing.
\<close>

theorem overtaken_claim_refused:
  assumes reach: "(cred_step sha)\<^sup>*\<^sup>* empty_credentials s" and r: "gget (cdr_records s) (cf_RevocationID f) = Some r"
    and late: "cf_Epoch f < rv_ClaimEpoch (mv_revocation r)" and later: "(cred_step sha)\<^sup>*\<^sup>* s u"
  shows "(\<exists>err. CompleteRevocation sha e f u = (u, Inl err)) \<and>
    (\<forall>x. \<exists>err. Cred_Heartbeat sha e \<lparr>hb_Fence = f, hb_Extension = x\<rparr> u = (u, Inl err)) \<and>
    (\<forall>q. rt_Fence q = f \<longrightarrow> (\<exists>err. RetryRevocation sha e q u = (u, Inl err))) \<and>
    (\<forall>q. rm_Fence q = f \<longrightarrow> (\<exists>err. RequireManual sha e q u = (u, Inl err)))"
proof -
  have inv: "cred_inv s" by (rule cred_calls.reachable_inv [OF reach])
  obtain r' where r': "gget (cdr_records u) (cf_RevocationID f) = Some r'" and "cred_later r r'"
    using cred_steps_record [OF later inv r] by blast
  moreover have "claims_ok r'"
    using cred_invD(3) [OF cred_calls.steps_inv [OF later inv] r'] by (simp add: cred_phase_def)
  ultimately have stale: "claims_ok r'" "cf_Epoch f < rv_ClaimEpoch (mv_revocation r')"
    using late by (simp_all add: cred_later_def)
  note S = stale_claim_refused [OF r' stale]
  show ?thesis
    using S by (simp add: RetryRevocation_def RequireManual_def)
qed

lemma Prepare_Inr:
  assumes "Prepare sha e q s = (u, Inr res)"
  shows "\<exists>p d. prepare_locked sha e p d (ce_clock e 0) s = (u, Inr res) \<and> pr_Fence p = pr_Fence q \<and>
    am_ActionID d = af_ActionID (pr_Fence q) \<and> am_LeaseEpoch d = af_Epoch (pr_Fence q) \<and>
    Credential_validActionFence (pr_Fence q)"
proof -
  let ?p = "q\<lparr>pr_CredentialExpiresAt := CanonicalCredentialExpiry (pr_CredentialExpiresAt q)\<rparr>"
  have "\<exists>d. prepare_locked sha e ?p d (ce_clock e 0) s = (u, Inr res) \<and>
      resolvePrepareAction e 1 (pr_Fence q) (ce_clock e 1) = Inr d \<and> Credential_validActionFence (pr_Fence q)"
    using assms by (simp add: Prepare_def Let_def split: option.splits sum.splits if_splits)
  then show ?thesis by (force dest: resolvePrepareAction_Inr)
qed

lemma prepare_locked_created:
  assumes "prepare_locked sha e q d t s = (u, Inr res)"
    and "am_ActionID d = af_ActionID (pr_Fence q)" and "am_LeaseEpoch d = af_Epoch (pr_Fence q)"
  shows "prs_Created res \<Longrightarrow> \<exists>i r. gget (cdr_actionEpochs u) (actionEpochKey (af_ActionID (pr_Fence q)) (af_Epoch (pr_Fence q))) = Some i \<and>
      gget (cdr_records u) i = Some r \<and> rv_ID (prs_Revocation res) = rv_ID (mv_revocation r)"
    and "\<not> prs_Created res \<Longrightarrow> u = s \<and> prs_Permit res = None"
    and "gget (cdr_actionEpochs s) (actionEpochKey (af_ActionID (pr_Fence q)) (af_Epoch (pr_Fence q))) = Some i \<Longrightarrow>
      \<not> prs_Created res \<and> (\<exists>r. gget (cdr_records s) i = Some r \<and> rv_ID (prs_Revocation res) = rv_ID (mv_revocation r))"
  using assms
  by (auto simp: prepare_locked_def Let_def publicMemoryRevocation_def redactedRevocation_def new_record_def
      gomap_simps split: option.splits if_splits)

text \<open>
  One action lease epoch gets one credential record and one creation permit. Once a
  preparation has created the record, any later preparation for the same action and epoch that
  succeeds returns the same record id, creates nothing, changes nothing and carries no permit.
\<close>

theorem prepare_creates_once:
  assumes reach: "(cred_step sha)\<^sup>*\<^sup>* empty_credentials s"
    and first: "Prepare sha e q s = (u, Inr res)" and created: "prs_Created res"
    and later: "(cred_step sha)\<^sup>*\<^sup>* u v"
    and second: "Prepare sha e' q' v = (w, Inr res')"
    and same: "af_ActionID (pr_Fence q') = af_ActionID (pr_Fence q)" "af_Epoch (pr_Fence q') = af_Epoch (pr_Fence q)"
  shows "w = v \<and> \<not> prs_Created res' \<and> prs_Permit res' = None \<and>
    rv_ID (prs_Revocation res') = rv_ID (prs_Revocation res)"
proof -
  have inv: "cred_inv u"
    using cred_call_inv [OF ccall_Prepare [of sha e s q] cred_calls.reachable_inv [OF reach]] first by simp
  let ?key = "actionEpochKey (af_ActionID (pr_Fence q)) (af_Epoch (pr_Fence q))"
  obtain p d where "prepare_locked sha e p d (ce_clock e 0) s = (u, Inr res)" "pr_Fence p = pr_Fence q"
    "am_ActionID d = af_ActionID (pr_Fence p)" "am_LeaseEpoch d = af_Epoch (pr_Fence p)"
    using Prepare_Inr [OF first] by force
  then obtain i r where i: "gget (cdr_actionEpochs u) ?key = Some i" and r: "gget (cdr_records u) i = Some r"
    and id: "rv_ID (prs_Revocation res) = rv_ID (mv_revocation r)"
    using prepare_locked_created(1) created by metis
  obtain r' where r': "gget (cdr_records v) i = Some r'" "cred_later r r'"
    using cred_steps_record [OF later inv r] by blast
  have i': "gget (cdr_actionEpochs v) ?key = Some i"
    using later
  proof (induction rule: rtranclp_induct)
    case (step y z)
    then show ?case using cred_call_epochs cred_calls.steps_inv [OF step.hyps(1) inv] by (auto simp: cred_step_def)
  qed (rule i)
  obtain p' d' where P: "prepare_locked sha e' p' d' (ce_clock e' 0) v = (w, Inr res')"
    "am_ActionID d' = af_ActionID (pr_Fence p')" "am_LeaseEpoch d' = af_Epoch (pr_Fence p')"
    "pr_Fence p' = pr_Fence q'"
    using Prepare_Inr [OF second] by force
  note again = prepare_locked_created(2,3) [OF P(1-3)]
  from again(2) [of i] i' same P(4) r'(1)
  have "\<not> prs_Created res'" "rv_ID (prs_Revocation res') = rv_ID (mv_revocation r')" by auto
  with again(1) r'(2) id show ?thesis by (simp add: cred_later_def frozen_def)
qed

section \<open>A concrete run\<close>

definition dc_sha :: "string \<Rightarrow> string" where "dc_sha s = s"

definition dc_id :: string where "dc_id = ''11111111-1111-1111-8111-111111111111''"

definition dc_fence :: ActionFence where
  "dc_fence = \<lparr>af_ActionID = ''a1'', af_RunnerID = ''runner-1'', af_Token = ''tok-1'', af_Epoch = 1\<rparr>"

definition dc_metadata :: ActionMetadata where
  "dc_metadata = \<lparr>am_ActionID = ''a1'', am_TenantID = ''t1'', am_WorkspaceID = ''w1'', am_EnvironmentID = ''e1'',
     am_TargetKey = ''k1'', am_Production = False, am_RunnerID = ''runner-1'', am_LeaseEpoch = 1,
     am_Status = ActionStatusRunning, am_LeaseExpiresAt = 600 * Second, am_AuthorizationExpiresAt = 600 * Second,
     am_CancelRequestedAt = 0, am_RunnerEnabled = True, am_RunnerPool = ''WRITE'', am_ScopeRevision = 1,
     am_RunnerScopeRevision = 1, am_ExactScopeAuthorized = True, am_ActionType = ''restart'',
     am_ConnectorID = ''c1'', am_Permission = ''p1'', am_Resource = ''r1'', am_CredentialTTLSeconds = 300\<rparr>"

definition dc_env :: "time \<Rightarrow> cred_env" where
  "dc_env t = \<lparr>ce_ctx = Some None, ce_ctx_locked = Some None, ce_clock = (\<lambda>_. t), ce_permit = Some ''permit-1'',
     ce_token = (\<lambda>_. Some ''claim-1''), ce_resolve = (\<lambda>_ _. Inr dc_metadata),
     ce_source = (\<lambda>_ _. \<lparr>ls_atomic = True,
        ls_inspections = [\<lparr>ai_Metadata = dc_metadata, ai_LeaseTokenSHA256 = ''tok-1''\<rparr>],
        ls_failed = False, ls_ctx = None\<rparr>),
     ce_protect = (\<lambda>_ _. Some \<lparr>prf_Ciphertext = ''sealed'', prf_AccessorHMAC = ''h'', prf_KeyID = ''k''\<rparr>),
     ce_matches = (\<lambda>_ _ _. Some True), ce_unprotect = (\<lambda>_ _. Some (Some ''accessor''))\<rparr>"

definition dc_prepare :: PrepareRequest where
  "dc_prepare = \<lparr>pr_RevocationID = dc_id, pr_Fence = dc_fence, pr_Issuer = ''vault'', pr_IssuerRevision = ''v1'',
     pr_CredentialExpiresAt = 200 * Second\<rparr>"

definition dc_authorize :: AuthorizeChildCreateRequest where
  "dc_authorize = \<lparr>ar_Permit = \<lparr>pm_RevocationID = dc_id, pm_Token = ''permit-1''\<rparr>, ar_Fence = dc_fence\<rparr>"

definition dc_anchor :: RecordAnchorRequest where
  "dc_anchor = \<lparr>an_RevocationID = dc_id, an_Fence = dc_fence, an_Accessor = Some ''accessor''\<rparr>"

definition dc_transition :: ActionTransitionRequest where
  "dc_transition = \<lparr>atr_RevocationID = dc_id, atr_Fence = dc_fence\<rparr>"

definition dc_claim :: ClaimRevocationsRequest where
  "dc_claim = \<lparr>cr_WorkerID = ''worker-1'', cr_Limit = 10, cr_LeaseDuration = 10 * Second\<rparr>"

definition dc_claim_fence :: "int \<Rightarrow> ClaimFence" where
  "dc_claim_fence n = \<lparr>cf_RevocationID = dc_id, cf_WorkerID = ''worker-1'', cf_Token = ''claim-1'', cf_Epoch = n\<rparr>"

definition dc_prepared :: CredentialRepository where
  "dc_prepared = fst (Prepare dc_sha (dc_env (1 * Second)) dc_prepare empty_credentials)"

definition dc_authorized :: CredentialRepository where
  "dc_authorized = fst (AuthorizeChildCreate dc_sha (dc_env (2 * Second)) dc_authorize dc_prepared)"

definition dc_anchored :: CredentialRepository where
  "dc_anchored = fst (RecordAnchor dc_sha (dc_env (3 * Second)) dc_anchor dc_authorized)"

definition dc_pending :: CredentialRepository where
  "dc_pending = fst (RequestRevocation dc_sha (dc_env (4 * Second)) dc_transition dc_anchored)"

definition dc_claimed :: CredentialRepository where
  "dc_claimed = fst (ClaimRevocations dc_sha (dc_env (5 * Second)) dc_claim dc_pending)"

definition dc_reclaimed :: CredentialRepository where
  "dc_reclaimed = fst (ClaimRevocations dc_sha (dc_env (20 * Second)) dc_claim dc_claimed)"

definition dc_revoked :: CredentialRepository where
  "dc_revoked = fst (CompleteRevocation dc_sha (dc_env (21 * Second)) (dc_claim_fence 2) dc_reclaimed)"

lemma dc_prepared_result:
  "map_sum id (\<lambda>p. (prs_Created p, map_option pm_Token (prs_Permit p)))
     (snd (Prepare dc_sha (dc_env (1 * Second)) dc_prepare empty_credentials)) = Inr (True, Some ''permit-1'')"
  by code_simp


lemma cred_steps_call: "(cred_step sha)\<^sup>*\<^sup>* a s \<Longrightarrow> cred_call sha e s u \<Longrightarrow> (cred_step sha)\<^sup>*\<^sup>* a u"
  unfolding cred_step_def by (rule rtranclp.rtrancl_into_rtrancl) blast+

lemma dc_prepared_steps: "(cred_step dc_sha)\<^sup>*\<^sup>* empty_credentials dc_prepared"
  unfolding dc_prepared_def by (rule cred_steps_call [OF rtranclp.rtrancl_refl ccall_Prepare])

lemma dc_authorized_step: "cred_call dc_sha (dc_env (2 * Second)) dc_prepared dc_authorized"
  unfolding dc_authorized_def by (rule ccall_Authorize)

lemma dc_pending_steps: "(cred_step dc_sha)\<^sup>*\<^sup>* dc_authorized dc_pending"
  unfolding dc_pending_def dc_anchored_def
  by (rule cred_steps_call [OF cred_steps_call [OF rtranclp.rtrancl_refl ccall_Anchor] ccall_Request])

lemma dc_pending_reached: "(cred_step dc_sha)\<^sup>*\<^sup>* empty_credentials dc_pending"
  by (rule rtranclp_trans [OF cred_steps_call [OF dc_prepared_steps dc_authorized_step] dc_pending_steps])

lemma dc_reclaimed_steps: "(cred_step dc_sha)\<^sup>*\<^sup>* dc_pending dc_reclaimed"
  unfolding dc_reclaimed_def dc_claimed_def
  by (rule cred_steps_call [OF cred_steps_call [OF rtranclp.rtrancl_refl ccall_Claim] ccall_Claim])

lemma dc_reclaimed_reached: "(cred_step dc_sha)\<^sup>*\<^sup>* empty_credentials dc_reclaimed"
  by (rule rtranclp_trans [OF dc_pending_reached dc_reclaimed_steps])

lemma dc_revoked_step: "cred_call dc_sha (dc_env (21 * Second)) dc_reclaimed dc_revoked"
  unfolding dc_revoked_def by (rule ccall_Complete)

lemma dc_revoked_reached: "(cred_step dc_sha)\<^sup>*\<^sup>* empty_credentials dc_revoked"
  by (rule cred_steps_call [OF dc_reclaimed_reached dc_revoked_step])


lemma dc_reclaimed_record:
  "map_option (\<lambda>r. rv_ClaimEpoch (mv_revocation r)) (gget (cdr_records dc_reclaimed) dc_id) = Some 2"
  by code_simp

lemma dc_authorized_result:
  "map_sum id (\<lambda>a. ca_TTL a) (snd (AuthorizeChildCreate dc_sha (dc_env (2 * Second)) dc_authorize dc_prepared)) =
     Inr (183 * Second)"
  by code_simp

lemma dc_claimed_result:
  "map_sum id (map cl_Fence) (snd (ClaimRevocations dc_sha (dc_env (5 * Second)) dc_claim dc_pending)) =
     Inr [dc_claim_fence 1]"
  by code_simp

lemma dc_prepare_again:
  "map_sum id prs_Created (snd (Prepare dc_sha (dc_env (3 * Second)) dc_prepare dc_authorized)) = Inr False"
  by code_simp

lemma dc_revoked_gate: "InspectCleanup (dc_env (22 * Second)) ''a1'' 1 dc_revoked = Inr (True, True)"
  by code_simp

definition dc_unused :: CredentialRepository where
  "dc_unused = fst (RecordNoCredential dc_sha (dc_env (2 * Second)) dc_transition dc_prepared)"

lemma dc_unused_record:
  "map_option (\<lambda>r. (rv_Status (mv_revocation r), mv_childCreateAuthorizedAt r)) (gget (cdr_records dc_unused) dc_id) =
     Some (StatusNoCredential, 0)"
  by code_simp

lemma map_sum_Inr:
  "map_sum id f (snd p) = Inr x \<Longrightarrow> \<exists>a. p = (fst p, Inr a) \<and> f a = x"
  by (cases p; cases "snd p") auto

lemma dc_authorized_call:
  "\<exists>a. AuthorizeChildCreate dc_sha (dc_env (2 * Second)) dc_authorize dc_prepared = (dc_authorized, Inr a) \<and>
     ca_TTL a = 183 * Second"
  unfolding dc_authorized_def by (rule map_sum_Inr [OF dc_authorized_result])

lemma dc_claimed_call:
  "\<exists>cs. ClaimRevocations dc_sha (dc_env (5 * Second)) dc_claim dc_pending = (dc_claimed, Inr cs) \<and>
     map cl_Fence cs = [dc_claim_fence 1]"
  unfolding dc_claimed_def by (rule map_sum_Inr [OF dc_claimed_result])

lemma dc_prepared_call:
  "\<exists>res. Prepare dc_sha (dc_env (1 * Second)) dc_prepare empty_credentials = (dc_prepared, Inr res) \<and>
     (prs_Created res, map_option pm_Token (prs_Permit res)) = (True, Some ''permit-1'')"
  unfolding dc_prepared_def by (rule map_sum_Inr [OF dc_prepared_result])


theorem no_credential_sound_witness:
  "\<exists>r'. gget (cdr_records dc_unused) dc_id = Some r' \<and> (mv_childCreateAuthorizedAt r' = 0 \<or>
     (\<exists>r n. gget (cdr_records dc_prepared) dc_id = Some r \<and>
        rv_CredentialExpiresAt (mv_revocation r) + PreparedRecoveryGrace \<le> ce_clock (dc_env (2 * Second)) n))"
proof -
  have call: "cred_call dc_sha (dc_env (2 * Second)) dc_prepared dc_unused"
    unfolding dc_unused_def by (rule ccall_NoCredential)
  have "map_option (\<lambda>r. rv_Status (mv_revocation r)) (gget (cdr_records dc_prepared) dc_id) = Some StatusPrepared"
    by code_simp
  then obtain r where r: "gget (cdr_records dc_prepared) dc_id = Some r" "rv_Status (mv_revocation r) = StatusPrepared"
    by auto
  moreover obtain r' where "gget (cdr_records dc_unused) dc_id = Some r'" "rv_Status (mv_revocation r') = StatusNoCredential"
    using dc_unused_record by auto
  ultimately show ?thesis using no_credential_sound [OF dc_prepared_steps call, of dc_id r r'] by auto
qed


theorem child_create_authorized_once_witness:
  "\<exists>err. AuthorizeChildCreate dc_sha (dc_env (9 * Second)) dc_authorize dc_pending = (dc_pending, Inl err)"
proof -
  from dc_authorized_call obtain a where
    "AuthorizeChildCreate dc_sha (dc_env (2 * Second)) dc_authorize dc_prepared = (dc_authorized, Inr a)"
    by (elim exE conjE) (rule that)
  then show ?thesis
    by (rule child_create_authorized_once [OF dc_prepared_steps _ _ dc_pending_steps])
      (simp_all add: dc_env_def go_defs)
qed

theorem child_create_ttl_bounded_witness:
  "\<exists>a. snd (AuthorizeChildCreate dc_sha (dc_env (2 * Second)) dc_authorize dc_prepared) = Inr a \<and>
     ca_TTL a = 183 * Second \<and> VaultTTLQuantum dvd ca_TTL a \<and>
     2 * Second + ChildCreateExpiryReserve + ca_TTL a \<le> ca_CredentialExpiresAt a"
proof -
  from dc_authorized_call obtain a where
    a: "AuthorizeChildCreate dc_sha (dc_env (2 * Second)) dc_authorize dc_prepared = (dc_authorized, Inr a)"
    and ttl: "ca_TTL a = 183 * Second"
    by (elim exE conjE) (rule that)
  have "ce_clock (dc_env (2 * Second)) 0 = 2 * Second" by (simp add: dc_env_def)
  then show ?thesis using child_create_ttl_bounded [OF dc_prepared_steps a] a ttl by auto
qed

theorem cleanup_inspection_exact_witness:
  "\<exists>i r. gget (cdr_records dc_revoked) i = Some r \<and> rv_ActionID (mv_revocation r) = ''a1'' \<and>
     rv_ActionLeaseEpoch (mv_revocation r) = 1 \<and>
     rv_Status (mv_revocation r) \<in> {StatusRevoked, StatusNoCredential}"
  using cleanup_inspection_exact [OF dc_revoked_reached dc_revoked_gate rtranclp.rtrancl_refl] by blast

theorem revocation_claims_sound_witness:
  "\<exists>r r'. gget (cdr_records dc_pending) dc_id = Some r \<and> claimable_revocation (5 * Second) r \<and>
     claimRecord dc_sha (dc_claim_fence 1) (5 * Second) dc_claimed = Inr r' \<and> 1 = rv_ClaimEpoch (mv_revocation r) + 1"
proof -
  from dc_claimed_call obtain cs where
    cs: "ClaimRevocations dc_sha (dc_env (5 * Second)) dc_claim dc_pending = (dc_claimed, Inr cs)"
    and "map cl_Fence cs = [dc_claim_fence 1]"
    by (elim exE conjE) (rule that)
  then obtain c where c: "c \<in> set cs" "cl_Fence c = dc_claim_fence 1" by auto
  have "ce_clock (dc_env (5 * Second)) 0 = 5 * Second" by (simp add: dc_env_def)
  with bspec [OF conjunct2 [OF revocation_claims_sound [OF dc_pending_reached cs]] c(1)] c(2) show ?thesis
    by (simp add: dc_claim_fence_def) blast
qed

theorem overtaken_claim_refused_witness:
  "\<exists>err. CompleteRevocation dc_sha (dc_env (21 * Second)) (dc_claim_fence 1) dc_reclaimed = (dc_reclaimed, Inl err)"
proof -
  obtain r where "gget (cdr_records dc_reclaimed) (cf_RevocationID (dc_claim_fence 1)) = Some r"
    "cf_Epoch (dc_claim_fence 1) < rv_ClaimEpoch (mv_revocation r)"
    using dc_reclaimed_record by (auto simp: dc_claim_fence_def)
  then show ?thesis using overtaken_claim_refused [OF dc_reclaimed_reached _ _ rtranclp.rtrancl_refl] by blast
qed

theorem prepare_creates_once_witness:
  "\<exists>res. Prepare dc_sha (dc_env (3 * Second)) dc_prepare dc_authorized = (dc_authorized, Inr res) \<and>
     prs_Permit res = None"
proof -
  from dc_prepared_call obtain res where
    first: "Prepare dc_sha (dc_env (1 * Second)) dc_prepare empty_credentials = (dc_prepared, Inr res)"
    and created: "prs_Created res"
    by (elim exE conjE Pair_inject) (rule that, assumption, simp)
  obtain w res' where again: "Prepare dc_sha (dc_env (3 * Second)) dc_prepare dc_authorized = (w, Inr res')"
    using map_sum_Inr [OF dc_prepare_again] by (elim exE conjE) (rule that)
  have "(cred_step dc_sha)\<^sup>*\<^sup>* dc_prepared dc_authorized"
    by (rule cred_steps_call [OF rtranclp.rtrancl_refl dc_authorized_step])
  from prepare_creates_once [OF rtranclp.rtrancl_refl first created this again] again show ?thesis by simp
qed



end
