(* ===== verification/State_Triples.thy ===== *)
theory State_Triples
  imports "HOL-Library.State_Monad"
begin

text \<open>
  Triples for programs of the state monad: \<open>ensures P m Q\<close> says that a run of \<open>m\<close> from a state with
  \<open>P\<close> ends with a result and a state with \<open>Q\<close>. The rules are applied backwards along a program,
  one for each construct; the components add rules for the calls they make.
\<close>

definition ensures ::
  "('s \<Rightarrow> bool) \<Rightarrow> ('s, 'a) state \<Rightarrow> ('a \<Rightarrow> 's \<Rightarrow> bool) \<Rightarrow> bool" where
  "ensures P m Q \<longleftrightarrow> (\<forall>s a s'. P s \<longrightarrow> run_state m s = (a, s') \<longrightarrow> Q a s')"

named_theorems triples \<open>rules for triples, applied backwards\<close>

lemma ensuresI: "(\<And>s a s'. P s \<Longrightarrow> run_state m s = (a, s') \<Longrightarrow> Q a s') \<Longrightarrow> ensures P m Q"
  by (simp add: ensures_def)

lemma ensuresD: "ensures P m Q \<Longrightarrow> P s \<Longrightarrow> run_state m s = (a, s') \<Longrightarrow> Q a s'"
  by (simp add: ensures_def)

lemma ensures_give [triples]: "(\<And>s. P s \<Longrightarrow> Q a s) \<Longrightarrow> ensures P (State_Monad.return a) Q"
  by (simp add: ensures_def)

lemma ensures_bind:
  assumes "ensures P m R" and "\<And>a. ensures (R a) (k a) Q"
  shows "ensures P (State_Monad.bind m k) Q"
proof (rule ensuresI)
  fix s a s' assume "P s" and run: "run_state (State_Monad.bind m k) s = (a, s')"
  obtain b t where m: "run_state m s = (b, t)" by fastforce
  from ensuresD [OF assms(1) \<open>P s\<close> m] have "R b t" .
  then show "Q a s'" by (rule ensuresD [OF assms(2)]) (use run m in simp)
qed

lemma ensures_conseq: "ensures P m Q \<Longrightarrow> (\<And>s. P' s \<Longrightarrow> P s) \<Longrightarrow> (\<And>a s. Q a s \<Longrightarrow> Q' a s) \<Longrightarrow> ensures P' m Q'"
  unfolding ensures_def by blast

lemma ensures_get_then [triples]:
  assumes "\<And>x. ensures (\<lambda>s. P s \<and> s = x) (k x) Q"
  shows "ensures P (State_Monad.bind State_Monad.get k) Q"
  using assms by (simp add: ensures_def)

lemma ensures_get_when:
  assumes "\<And>x. P x \<Longrightarrow> ensures (\<lambda>s. P s \<and> s = x) (k x) Q"
  shows "ensures P (State_Monad.bind State_Monad.get k) Q"
  using assms by (simp add: ensures_def)

lemma ensures_update_then [triples]:
  assumes "ensures (\<lambda>s'. \<exists>s. P s \<and> s' = f s) (k ()) Q"
  shows "ensures P (State_Monad.bind (State_Monad.update f) k) Q"
  by (rule ensures_bind [where R = "\<lambda>_ s'. \<exists>s. P s \<and> s' = f s"])
    (use assms in \<open>auto simp: ensures_def State_Monad.update_def\<close>)

lemma ensures_give_then [triples]: "ensures P (k a) Q \<Longrightarrow> ensures P (State_Monad.bind (State_Monad.return a) k) Q"
  by simp

lemma ensures_if [triples]:
  "(b \<Longrightarrow> ensures P m Q) \<Longrightarrow> (\<not> b \<Longrightarrow> ensures P n Q) \<Longrightarrow> ensures P (if b then m else n) Q"
  by simp

lemma ensures_option [triples]:
  "(x = None \<Longrightarrow> ensures P m Q) \<Longrightarrow> (\<And>y. x = Some y \<Longrightarrow> ensures P (n y) Q) \<Longrightarrow>
   ensures P (case x of None \<Rightarrow> m | Some y \<Rightarrow> n y) Q"
  by (cases x) simp_all

lemma ensures_sum [triples]:
  "(\<And>y. x = Inl y \<Longrightarrow> ensures P (m y) Q) \<Longrightarrow> (\<And>y. x = Inr y \<Longrightarrow> ensures P (n y) Q) \<Longrightarrow>
   ensures P (case x of Inl y \<Rightarrow> m y | Inr y \<Rightarrow> n y) Q"
  by (cases x) simp_all

lemma ensures_pair [triples]: "(\<And>a b. x = (a, b) \<Longrightarrow> ensures P (m a b) Q) \<Longrightarrow> ensures P (case x of (a, b) \<Rightarrow> m a b) Q"
  by (cases x) simp

end
