(* ===== verification/Broker_Safety.thy ===== *)
theory Broker_Safety
  imports Durable_Broker Credential_Safety State_Triples
begin

text \<open>
  What the durable broker guarantees, whatever the caller, the clock, the issuer and the other
  users of the repository do: a child credential is used only after its accessor is anchored, a
  prepared handle is used once, an issued credential ends within every limit it was asked for
  with, its secret is gone once its revocation was asked for, and a failed issue leaves no
  anchored child without a recorded revocation. The last needs what the broker relies on of the
  repository, stated as the locale \<open>credential_store\<close> and interpreted on the in-memory repository.
\<close>

section \<open>Triples for broker programs\<close>

lemma ensures_observe_then [triples]:
  assumes "\<And>a. ensures (\<lambda>s'. \<exists>s. P s \<and> s' = s\<lparr>bs_log := bs_log s @ [e a]\<rparr>) (k a) Q"
  shows "ensures P (State_Monad.bind (observe f e) k) Q"
  by (rule ensures_bind [OF _ assms]) (auto simp: ensures_def observe_def Let_def)

lemma ensures_store_then [triples]:
  assumes "\<And>a. ensures (\<lambda>s'. \<exists>s r. P s \<and> operation (bs_log s) (bs_repository s) = (r, a) \<and>
      s' = s\<lparr>bs_repository := r, bs_log := bs_log s @ [e a]\<rparr>) (k a) Q"
  shows "ensures P (State_Monad.bind (store_call operation e) k) Q"
  by (rule ensures_bind [OF _ assms]) (fastforce simp: ensures_def store_call_def Let_def split: prod.splits)

section \<open>A child is anchored before it is used\<close>

text \<open>
  The rules on the calls of one \<open>Issue\<close>, for the contents \<open>p\<close> of the handle it consumed. A child
  is created only under an authorization that fits; its token is used only after its accessor was
  anchored by the repository and inspected with the manager's identity; the record is activated
  only after the secret was issued.
\<close>

definition child_request :: "preparedDurableCredentialState \<Rightarrow> ChildCreateAuthorization \<Rightarrow> DurableChildCreateRequest" where
  "child_request p a = \<lparr>cc_RevocationID = ps_revocationID p, cc_ProfileRevision = ip_Revision (rd_Profile (ps_resolved p)),
     cc_DatabaseAuthorizedAt = ca_DatabaseAuthorizedAt a, cc_TTL = ca_TTL a, cc_CredentialExpiresAt = ps_expiresAt p\<rparr>"

definition authorized_in :: "preparedDurableCredentialState \<Rightarrow> ChildCreateAuthorization \<Rightarrow> broker_history \<Rightarrow> bool" where
  "authorized_in p a h \<longleftrightarrow>
     Authorizing \<lparr>ar_Permit = ps_permit p, ar_Fence = pq_Fence (ps_request p)\<rparr> (Inr a) \<in> set h \<and>
     validChildCreateAuthorization a (ps_prepared p) (ps_revocationID p) (ps_request p)
       (rd_Profile (ps_resolved p)) (ps_expiresAt p)"

definition anchored_in ::
  "preparedDurableCredentialState \<Rightarrow> ChildCreateAuthorization \<Rightarrow> DurableChild \<Rightarrow> Revocation \<Rightarrow> broker_history \<Rightarrow> bool" where
  "anchored_in p a child v h \<longleftrightarrow> authorized_in p a h \<and> ch_Accessor child \<noteq> None \<and>
     (\<exists>failed. ChildCreated (child_request p a) (child, failed) \<in> set h) \<and>
     Anchoring \<lparr>an_RevocationID = ps_revocationID p, an_Fence = pq_Fence (ps_request p), an_Accessor = ch_Accessor child\<rparr>
       (Inr v) \<in> set h \<and>
     validAnchoredResult v (ca_Revocation a) (ps_revocationID p) (ps_request p) (rd_Profile (ps_resolved p)) (ps_expiresAt p)"

definition usable_in ::
  "preparedDurableCredentialState \<Rightarrow> ChildCreateAuthorization \<Rightarrow> DurableChild \<Rightarrow> Revocation \<Rightarrow> broker_history \<Rightarrow> bool" where
  "usable_in p a child v h \<longleftrightarrow> anchored_in p a child v h \<and> validDurableChild child a \<and>
     (\<exists>q. Inspected (ch_Accessor child) q True \<in> set h \<and> ci_RevocationID q = ps_revocationID p \<and>
        ci_ExpectedTTL q = ca_TTL a)"

fun issue_rule :: "preparedDurableCredentialState \<Rightarrow> broker_history \<Rightarrow> broker_event \<Rightarrow> bool" where
  "issue_rule p h (ChildCreated q _) = (\<exists>a. authorized_in p a h \<and> q = child_request p a)"
| "issue_rule p h (DynamicIssued q _) = (\<exists>a child v. usable_in p a child v h \<and> dy_RevocationID q = ps_revocationID p)"
| "issue_rule p h (Activating q _) = (\<exists>a child v d dq. usable_in p a child v h \<and> atr_RevocationID q = ps_revocationID p \<and>
     DynamicIssued dq (d, False) \<in> set h)"
| "issue_rule p h _ = True"

text \<open>\<open>lawful p F\<close>: the calls so far obey the rules and \<open>F\<close> is known of them.\<close>

definition lawful :: "preparedDurableCredentialState \<Rightarrow> (broker_history \<Rightarrow> bool) \<Rightarrow> 'r broker_state \<Rightarrow> bool" where
  "lawful p F s \<longleftrightarrow> obeys (issue_rule p) (bs_log s) \<and> F (bs_log s)"

definition lasting :: "(broker_history \<Rightarrow> bool) \<Rightarrow> bool" where
  "lasting F \<longleftrightarrow> (\<forall>h c. F h \<longrightarrow> F (h @ [c]))"

lemma lasting_facts:
  "lasting (authorized_in p a)" "lasting (anchored_in p a child v)" "lasting (usable_in p a child v)"
  "lasting (\<lambda>h. True)" "lasting (\<lambda>h. c \<in> set h)" "lasting F \<Longrightarrow> lasting G \<Longrightarrow> lasting (\<lambda>h. F h \<and> G h)"
  by (auto simp: lasting_def authorized_in_def anchored_in_def usable_in_def)

lemma lawful_observe_then:
  assumes "lasting F" and "\<And>a h. F h \<Longrightarrow> issue_rule p h (e a)"
    and "\<And>a. ensures (lawful p (\<lambda>h. F h \<and> e a \<in> set h)) (k a) Q"
  shows "ensures (lawful p F) (State_Monad.bind (observe f e) k) Q"
  by (rule ensures_observe_then, rule ensures_conseq [OF assms(3)])
    (use assms(1,2) in \<open>auto simp: lawful_def lasting_def\<close>)

lemma lawful_store_then:
  assumes "lasting F" and "\<And>a h. F h \<Longrightarrow> issue_rule p h (e a)"
    and "\<And>a. ensures (lawful p (\<lambda>h. F h \<and> e a \<in> set h)) (k a) Q"
  shows "ensures (lawful p F) (State_Monad.bind (store_call operation e) k) Q"
  by (rule ensures_store_then, rule ensures_conseq [OF assms(3)])
    (use assms(1,2) in \<open>auto simp: lawful_def lasting_def\<close>)

abbreviation kept :: "preparedDurableCredentialState \<Rightarrow> 'a \<Rightarrow> 'r broker_state \<Rightarrow> bool" where
  "kept p \<equiv> \<lambda>_. lawful p (\<lambda>_. True)"

lemma lawful_weaken: "lawful p F s \<Longrightarrow> (\<And>h. F h \<Longrightarrow> G h) \<Longrightarrow> lawful p G s"
  by (simp add: lawful_def)

lemma lawful_pre: "ensures (lawful p G) m Q \<Longrightarrow> (\<And>h. F h \<Longrightarrow> G h) \<Longrightarrow> ensures (lawful p F) m Q"
  by (erule ensures_conseq) (auto intro: lawful_weaken)

lemma lawful_give: "ensures (lawful p F) (give a) (kept p)"
  by (rule ensures_give) (simp add: lawful_def)

lemma lawful_bounded: "lasting F \<Longrightarrow> ensures (lawful p F) (bounded source maximum) (\<lambda>_. lawful p F)"
  unfolding bounded_def
  by (rule lawful_observe_then) (auto intro: ensures_give lawful_weaken)

lemma lawful_finalize:
  assumes "lasting F"
  shows "ensures (lawful p F) (newFinalizeContext v) (\<lambda>_. lawful p F)"
  unfolding newFinalizeContext_def
  by (rule ensures_bind [OF lawful_bounded [OF assms]], rule ensures_option)
    (auto intro: lawful_bounded [OF assms] ensures_give)

lemma lawful_persist:
  assumes "lasting F"
  shows "ensures (lawful p F) (persistRevocationIntent v ops i) (\<lambda>_. lawful p F)"
  unfolding persistRevocationIntent_def
  by (rule ensures_bind [OF lawful_finalize [OF assms]], rule ensures_option)
    (auto simp: Let_def intro!: ensures_give lawful_store_then [OF assms] elim: lawful_weaken)

lemma lawful_give_up: "lasting F \<Longrightarrow> ensures (lawful p F) (give_up v ops i operation) (kept p)"
  unfolding give_up_def by (rule ensures_bind [OF lawful_persist lawful_give])

lemma lawful_handover: "ensures (lawful p F) (do { c \<leftarrow> newDurableCredential this v d; give (Inr c) }) (kept p)"
  by (auto simp: ensures_def newDurableCredential_def lawful_def State_Monad.update_def)

lemma lawful_active:
  assumes "lasting F" and "\<And>h. F h \<Longrightarrow> \<exists>a child v. usable_in p a child v h"
    and "\<And>h. F h \<Longrightarrow> \<exists>dq. DynamicIssued dq (d, False) \<in> set h"
  shows "ensures (lawful p F) (issue_active this v ops p anchored d) (kept p)"
proof -
  have "\<And>a h. F h \<and> CallerContext None \<in> set h \<Longrightarrow>
      issue_rule p h (Activating \<lparr>atr_RevocationID = ps_revocationID p, atr_Fence = pq_Fence (ps_request p)\<rparr> a)"
    using assms(2,3) by fastforce
  then show ?thesis
    unfolding issue_active_def Let_def
    by (intro lawful_observe_then [OF assms(1)] ensures_if lawful_give_up lasting_facts assms(1)
        ensures_bind [OF lawful_finalize] lawful_store_then ensures_sum)
      (auto intro!: lawful_observe_then ensures_if lawful_give_up lasting_facts assms(1) lawful_handover)
qed

lemma lawful_secret:
  "ensures (lawful p (\<lambda>h. usable_in p a child anchored h \<and> DynamicIssued dq (d, issueErr) \<in> set h))
     (do { now \<leftarrow> (if issueErr then give 0 else observe (be_clock v) BrokerClock);
           if issueErr \<or> \<not> validDynamicSecret d a (ch_ExpiresAt child) now
           then give_up v ops (ps_revocationID p) operation
           else issue_active this v ops p anchored d }) (kept p)"
proof (cases issueErr)
  case True
  then show ?thesis by simp (intro lawful_give_up lasting_facts)
next
  case False
  have "\<And>now. ensures (lawful p (\<lambda>h. (usable_in p a child anchored h \<and> DynamicIssued dq (d, False) \<in> set h) \<and>
      BrokerClock now \<in> set h)) (issue_active this v ops p anchored d) (kept p)"
    by (rule lawful_active) (intro lasting_facts, auto)
  with False show ?thesis
    by (auto intro!: lawful_observe_then ensures_if lawful_give_up lasting_facts)
qed

lemma usable_inI:
  "anchored_in p a child v h \<Longrightarrow> validDurableChild child a \<Longrightarrow> Inspected (ch_Accessor child) q True \<in> set h \<Longrightarrow>
   ci_RevocationID q = ps_revocationID p \<Longrightarrow> ci_ExpectedTTL q = ca_TTL a \<Longrightarrow> usable_in p a child v h"
  by (auto simp: usable_in_def)

lemma lawful_dynamic:
  "ensures (lawful p (anchored_in p a child anchored)) (issue_dynamic this v ops p a child createErr anchored) (kept p)"
proof (cases "createErr \<or> \<not> validDurableChild child a")
  case True
  then show ?thesis
    unfolding issue_dynamic_def Let_def
    by (intro lawful_observe_then lawful_give_up lasting_facts ensures_if) auto
next
  case False
  then show ?thesis
    unfolding issue_dynamic_def Let_def
    by (intro lawful_observe_then lawful_give_up lasting_facts ensures_if ensures_pair lawful_pre [OF lawful_secret])
      (auto simp del: ex_simps intro!: exI intro: usable_inI)
qed

lemma lawful_anchor:
  "ensures (lawful p (\<lambda>h. authorized_in p a h \<and> ChildCreated (child_request p a) (child, createErr) \<in> set h))
     (issue_anchor this v ops p a child createErr) (kept p)"
  unfolding issue_anchor_def Let_def
  by (intro ensures_option lawful_give ensures_bind [OF lawful_finalize] lasting_facts ensures_if
      lawful_store_then ensures_sum lawful_give_up)
    (auto simp: anchored_in_def intro!: lawful_pre [OF lawful_dynamic])

lemma lawful_child: "ensures (lawful p (\<lambda>_. True)) (issue_child this v ops p) (kept p)"
  unfolding issue_child_def Let_def
  by (intro lawful_observe_then ensures_if lawful_give ensures_bind [OF lawful_bounded] lasting_facts
      lawful_store_then ensures_sum ensures_pair)
    (auto simp: authorized_in_def child_request_def intro!: lawful_pre [OF lawful_anchor])

text \<open>How a call gets from its handle to the contents it works on.\<close>

lemma consumePrepared_run:
  "run_state (consumePrepared broker handle phase) s =
     (if pc_state handle < length (bs_prepared s) \<and> consumable broker handle (bs_prepared s ! pc_state handle)
      then (Some (bs_prepared s ! pc_state handle), s\<lparr>bs_prepared := (bs_prepared s)[pc_state handle :=
              consumed_state phase (bs_prepared s ! pc_state handle)]\<rparr>)
      else (None, s))"
  by (auto simp: consumePrepared_def consumable_def Let_def)

definition issue_start :: "broker_env \<Rightarrow> PreparedDurableCredential \<Rightarrow> 'r broker_state \<Rightarrow> 'r broker_state" where
  "issue_start v handle s = s\<lparr>bs_log := bs_log s @ [CallerContext None],
     bs_prepared := (bs_prepared s)[pc_state handle :=
       consumed_state preparedDurableCredentialIssuing (bs_prepared s ! pc_state handle)]\<rparr>"

lemma Issue_run:
  "run_state (Issue broker v ops handle) s =
     (if be_ctx_nil v then (Inl ErrInvalidDurableCredentialRequest, s)
      else case be_ctx v (bs_log s) of
        Some c \<Rightarrow> (Inl (BrokerCtx c), s\<lparr>bs_log := bs_log s @ [CallerContext (Some c)]\<rparr>)
      | None \<Rightarrow>
          if pc_state handle < length (bs_prepared s) \<and> consumable broker handle (bs_prepared s ! pc_state handle)
          then run_state (issue_child (ps_broker (bs_prepared s ! pc_state handle)) v ops (bs_prepared s ! pc_state handle))
                 (issue_start v handle s)
          else (Inl ErrDurableCredentialState, s\<lparr>bs_log := bs_log s @ [CallerContext None]\<rparr>))"
  by (auto simp: Issue_def observe_def Let_def consumePrepared_run issue_start_def split: option.splits)

text \<open>
  C9. The broker uses a child credential only after its accessor is safe. Whatever the issuer and
  the repository answer, in an \<open>Issue\<close> the child is created only under an authorization for
  exactly this prepared record that ends, reserve included, before the credential's expiry; the
  child's token is used for the dynamic secret only after its accessor was anchored by the
  repository under the fence of this action and the child was inspected and found valid; and the
  record is activated only after the dynamic secret was issued.
\<close>

theorem child_anchored_before_use:
  assumes run: "run_state (Issue broker v ops handle) s = (result, s')" and "bs_log s = []"
    and log: "bs_log s' = h @ call # later" and p: "p = bs_prepared s ! pc_state handle"
  shows "case call of
      ChildCreated q _ \<Rightarrow> (\<exists>a. authorized_in p a h \<and> q = child_request p a \<and>
        ca_DatabaseAuthorizedAt a + ca_TTL a + ChildCreateExpiryReserve \<le> ps_expiresAt p)
    | DynamicIssued q _ \<Rightarrow> (\<exists>a child v. usable_in p a child v h \<and> ch_ExpiresAt child \<le> ps_expiresAt p)
    | Activating q _ \<Rightarrow> (\<exists>a child v d dq. usable_in p a child v h \<and> DynamicIssued dq (d, False) \<in> set h)
    | _ \<Rightarrow> True"
proof -
  have "obeys (issue_rule p) (bs_log s')"
  proof (cases "be_ctx_nil v \<or> be_ctx v (bs_log s) \<noteq> None \<or>
      \<not> (pc_state handle < length (bs_prepared s) \<and> consumable broker handle p)")
    case True
    with run assms(2) p show ?thesis
      by (auto simp: Issue_run obeys_snoc [of _ "[]", simplified] split: option.splits if_splits)
  next
    case False
    with run p have "run_state (issue_child (ps_broker p) v ops p) (issue_start v handle s) = (result, s')"
      by (auto simp: Issue_run)
    moreover have "lawful p (\<lambda>_. True) (issue_start v handle s)"
      using assms(2) by (simp add: lawful_def issue_start_def obeys_snoc [of _ "[]", simplified])
    ultimately show ?thesis
      using ensuresD [OF lawful_child] by (fastforce simp: lawful_def)
  qed
  then have "issue_rule p h call" using log by (auto simp: obeys_def)
  moreover have "ca_DatabaseAuthorizedAt a + ca_TTL a + ChildCreateExpiryReserve \<le> ps_expiresAt p \<and>
      ca_CredentialExpiresAt a = ps_expiresAt p" if "authorized_in p a h" for a
    using that by (simp add: authorized_in_def validChildCreateAuthorization_def)
  moreover have "ch_ExpiresAt child \<le> ca_CredentialExpiresAt a" if "usable_in p a child w h" for a child w
    using that by (simp add: usable_in_def validDurableChild_def)
  moreover have "authorized_in p a h" if "usable_in p a child w h" for a child w
    using that by (simp add: usable_in_def anchored_in_def)
  ultimately show ?thesis by (cases call) (auto, metis+)
qed

section \<open>How the handles change\<close>

text \<open>
  A prepared state changes once, when it is consumed. Of an issued one only the secret, which can
  only disappear, and the cached result, which can only be set once.
\<close>

definition prepared_le :: "preparedDurableCredentialState \<Rightarrow> preparedDurableCredentialState \<Rightarrow> bool" where
  "prepared_le p p' \<longleftrightarrow> p' = p \<or>
     ps_phase p = preparedDurableCredentialReady \<and> ps_phase p' \<noteq> preparedDurableCredentialReady"

definition issued_le :: "durableCredentialState \<Rightarrow> durableCredentialState \<Rightarrow> bool" where
  "issued_le c c' \<longleftrightarrow> cs_broker c' = cs_broker c \<and> cs_revocationID c' = cs_revocationID c \<and>
     cs_expiresAt c' = cs_expiresAt c \<and> cs_activeSnapshot c' = cs_activeSnapshot c \<and>
     (cs_secret c' = cs_secret c \<or> cs_secret c' = '''') \<and>
     (cs_revocationResult c \<noteq> None \<longrightarrow> cs_revocationResult c' = cs_revocationResult c)"

definition heap_le :: "'r broker_state \<Rightarrow> 'r broker_state \<Rightarrow> bool" where
  "heap_le s s' \<longleftrightarrow>
     length (bs_prepared s) \<le> length (bs_prepared s') \<and>
     (\<forall>i < length (bs_prepared s). prepared_le (bs_prepared s ! i) (bs_prepared s' ! i)) \<and>
     length (bs_issued s) \<le> length (bs_issued s') \<and>
     (\<forall>i < length (bs_issued s). issued_le (bs_issued s ! i) (bs_issued s' ! i))"

lemma heap_le_refl: "bs_prepared s' = bs_prepared s \<Longrightarrow> bs_issued s' = bs_issued s \<Longrightarrow> heap_le s s'"
  by (simp add: heap_le_def prepared_le_def issued_le_def)

lemma heap_le_trans: "heap_le s t \<Longrightarrow> heap_le t u \<Longrightarrow> heap_le s u"
proof -
  assume st: "heap_le s t" and tu: "heap_le t u"
  have "prepared_le p p' \<Longrightarrow> prepared_le p' p'' \<Longrightarrow> prepared_le p p''" for p p' p''
    by (auto simp: prepared_le_def)
  moreover have "issued_le c c' \<Longrightarrow> issued_le c' c'' \<Longrightarrow> issued_le c c''" for c c' c''
    by (auto simp: issued_le_def)
  ultimately show ?thesis
    using st tu unfolding heap_le_def by (meson le_trans less_le_trans)
qed

definition preserves :: "('r, 'a) broker \<Rightarrow> bool" where
  "preserves m \<longleftrightarrow> (\<forall>s. heap_le s (snd (run_state m s)))"

lemma preservesD: "preserves m \<Longrightarrow> heap_le s (snd (run_state m s))"
  by (simp add: preserves_def)

named_theorems heap_rules \<open>programs that change handles only forwards\<close>

lemma preserves_give [heap_rules]: "preserves (give a)"
  by (simp add: preserves_def heap_le_refl)

lemma preserves_bind [heap_rules]:
  "preserves m \<Longrightarrow> (\<And>a. preserves (k a)) \<Longrightarrow> preserves (State_Monad.bind m k)"
  unfolding preserves_def by (auto split: prod.splits) (metis heap_le_trans snd_conv)

lemma preserves_calls [heap_rules]:
  "preserves (observe f e)" "preserves (store_call operation e)" "preserves State_Monad.get"
  by (auto simp: preserves_def observe_def store_call_def Let_def heap_le_refl split: prod.splits)

lemma preserves_update [heap_rules]: "(\<And>s. heap_le s (f s)) \<Longrightarrow> preserves (State_Monad.update f)"
  by (simp add: preserves_def State_Monad.update_def)

lemma preserves_cases [heap_rules]:
  "preserves m \<Longrightarrow> preserves n \<Longrightarrow> preserves (if b then m else n)"
  "preserves m \<Longrightarrow> (\<And>y. preserves (f y)) \<Longrightarrow> preserves (case x of None \<Rightarrow> m | Some y \<Rightarrow> f y)"
  "(\<And>y. preserves (f' y)) \<Longrightarrow> (\<And>y. preserves (g y)) \<Longrightarrow> preserves (case z of Inl y \<Rightarrow> f' y | Inr y \<Rightarrow> g y)"
  "(\<And>a b. preserves (h a b)) \<Longrightarrow> preserves (case w of (a, b) \<Rightarrow> h a b)"
  by (auto split: option.splits sum.splits prod.splits)

lemma preserves_consume [heap_rules]:
  "phase \<noteq> preparedDurableCredentialReady \<Longrightarrow> preserves (consumePrepared broker handle phase)"
  unfolding preserves_def consumePrepared_run
  by (auto simp: heap_le_def prepared_le_def issued_le_def nth_list_update consumable_def consumed_state_def)

lemma heap_le_append:
  "heap_le s (s\<lparr>bs_prepared := bs_prepared s @ ps\<rparr>)" "heap_le s (s\<lparr>bs_issued := bs_issued s @ cs\<rparr>)"
  by (simp_all add: heap_le_def prepared_le_def issued_le_def nth_append)

lemma preserves_contexts [heap_rules]:
  "preserves (newFinalizeContext v)" "preserves (bounded source maximum)" "preserves (preflightFinalizeContext v)"
  unfolding newFinalizeContext_def bounded_def preflightFinalizeContext_def by (intro heap_rules)+

lemma preserves_give_up [heap_rules]: "preserves (give_up v ops i operation)"
  unfolding give_up_def persistRevocationIntent_def Let_def by (intro heap_rules)

lemma preserves_new [heap_rules]: "preserves (newDurableCredential this v d)"
  unfolding newDurableCredential_def by (intro heap_rules heap_le_append)

lemma preserves_issue [heap_rules]: "preserves (issue_child this v ops p)"
  unfolding issue_child_def issue_anchor_def issue_dynamic_def issue_active_def Let_def by (intro heap_rules)

lemma preserves_broker:
  "preserves (Broker_Prepare broker v ops q)" "preserves (Issue broker v ops handle)"
  "preserves (Broker_RecordNoCredential broker v ops handle)"
  unfolding Broker_Prepare_def Issue_def Broker_RecordNoCredential_def Let_def
  by (intro heap_rules heap_le_append; simp)+

lemma on_handle_run:
  "run_state (on_handle c f) s = ((), if dh_state c < length (bs_issued s)
     then s\<lparr>bs_issued := (bs_issued s)[dh_state c := f (bs_issued s ! dh_state c)]\<rparr> else s)"
  by (simp add: on_handle_def State_Monad.update_def)

lemma preserves_destroy [heap_rules]: "preserves (Destroy c)"
  unfolding preserves_def Destroy_def on_handle_run
  by (auto simp: heap_le_def prepared_le_def issued_le_def nth_list_update)

lemma preserves_secret: "preserves (Secret v c)"
  unfolding Secret_def by (intro heap_rules)

lemma handle_state_log [simp]: "handle_state c (s\<lparr>bs_log := h\<rparr>) = handle_state c s"
  by (simp add: handle_state_def)

lemma revocation_flight_run:
  assumes "handle_state c s = Some state"
  defines "q \<equiv> \<lparr>atr_RevocationID = cs_revocationID state, atr_Fence = zero_ActionFence\<rparr>"
  shows "run_state (revocation_flight ops c) s =
    (case rp_RequestRevocation ops (bs_log s) q (bs_repository s) of (r, answer) \<Rightarrow>
       let t = s\<lparr>bs_repository := r, bs_log := bs_log s @ [Requesting q answer]\<rparr> in
       case answer of
         Inr v \<Rightarrow> if validRequestedRevocation v state
           then (Inr v, t\<lparr>bs_issued := (bs_issued s)[dh_state c := state\<lparr>cs_revocationResult := Some v\<rparr>]\<rparr>)
           else (Inl (ErrDurableCredentialIssuance ''persist revocation request''), t)
       | Inl _ \<Rightarrow> (Inl (ErrDurableCredentialIssuance ''persist revocation request''), t))"
  using assms by (auto simp: revocation_flight_def store_call_def Let_def on_handle_run handle_state_def
      split: prod.splits sum.splits if_splits)

lemma heap_le_flight:
  assumes "Option.bind (handle_state c s) cs_revocationResult = None"
  shows "heap_le s (snd (run_state (revocation_flight ops c) s))"
proof (cases "handle_state c s")
  case None
  then show ?thesis by (simp add: revocation_flight_def heap_le_refl)
next
  case (Some state)
  with assms have none: "cs_revocationResult state = None" and at: "dh_state c < length (bs_issued s)"
    and state: "state = bs_issued s ! dh_state c"
    by (auto simp: handle_state_def split: if_splits)
  then show ?thesis
    unfolding revocation_flight_run [OF Some]
    by (auto simp: heap_le_def prepared_le_def issued_le_def nth_list_update Let_def split: prod.splits sum.splits)
qed

lemma revocation_loop_heap: "heap_le s (snd (run_state (revocation_loop v ops c flights) s))"
proof (induction flights arbitrary: s)
  case Nil
  have "heap_le s (snd (run_state (revocation_flight ops c) (s\<lparr>bs_log := h\<rparr>)))"
    if "Option.bind (handle_state c s) cs_revocationResult = None" for h
    by (rule heap_le_trans [OF heap_le_refl heap_le_flight]) (use that in simp_all)
  then show ?case
    by (auto simp: observe_def Let_def heap_le_refl split: option.splits)
next
  case (Cons f fs)
  have "heap_le s (snd (run_state (revocation_loop v ops c fs) (snd (run_state (revocation_flight ops c) s))))"
    if "Option.bind (handle_state c s) cs_revocationResult = None"
    by (rule heap_le_trans [OF heap_le_flight [OF that] Cons.IH])
  then show ?case
    by (auto simp: heap_le_refl split: option.splits flight.splits prod.splits)
qed

lemma preserves_request: "preserves (Broker_RequestRevocation broker v ops c flights)"
  unfolding Broker_RequestRevocation_def
  by (intro heap_rules) (simp add: preserves_def revocation_loop_heap)

text \<open>One call of a broker, or a change of the repository by somebody else.\<close>

inductive broker_step :: "'r broker_state \<Rightarrow> 'r broker_state \<Rightarrow> bool" for s where
  bstep_Prepare: "broker_step s (snd (run_state (Broker_Prepare broker v ops q) s))"
| bstep_Issue: "broker_step s (snd (run_state (Issue broker v ops handle) s))"
| bstep_NoCredential: "broker_step s (snd (run_state (Broker_RecordNoCredential broker v ops handle) s))"
| bstep_Secret: "broker_step s (snd (run_state (Secret v c) s))"
| bstep_Destroy: "broker_step s (snd (run_state (Destroy c) s))"
| bstep_Request: "broker_step s (snd (run_state (Broker_RequestRevocation broker v ops c flights) s))"
| bstep_repository: "broker_step s (s\<lparr>bs_repository := r\<rparr>)"

lemma broker_step_heap: "broker_step s t \<Longrightarrow> heap_le s t"
  by (erule broker_step.cases)
    (auto intro: preservesD preserves_broker preserves_secret preserves_destroy preserves_request heap_le_refl)

lemma broker_steps_heap: "broker_step\<^sup>*\<^sup>* s t \<Longrightarrow> heap_le s t"
  by (induction rule: rtranclp_induct) (auto intro: heap_le_refl heap_le_trans broker_step_heap)

section \<open>A prepared handle is used once\<close>

definition spent :: "PreparedDurableCredential \<Rightarrow> 'r broker_state \<Rightarrow> bool" where
  "spent handle s \<longleftrightarrow> pc_state handle < length (bs_prepared s) \<and>
     ps_phase (bs_prepared s ! pc_state handle) \<noteq> preparedDurableCredentialReady"

lemma spent_later: "heap_le s t \<Longrightarrow> spent handle s \<Longrightarrow> spent handle t"
  by (auto simp: spent_def heap_le_def prepared_le_def)

text \<open>A call on a handle that is not spent and is the broker's own spends it.\<close>

lemma NoCredential_run:
  "run_state (Broker_RecordNoCredential broker v ops handle) s =
     (if be_ctx_nil v then (Inl ErrInvalidDurableCredentialRequest, s)
      else case be_ctx v (bs_log s) of
        Some c \<Rightarrow> (Inl (BrokerCtx c), s\<lparr>bs_log := bs_log s @ [CallerContext (Some c)]\<rparr>)
      | None \<Rightarrow>
          if pc_state handle < length (bs_prepared s) \<and> consumable broker handle (bs_prepared s ! pc_state handle)
          then let p = bs_prepared s ! pc_state handle;
                   q = \<lparr>atr_RevocationID = ps_revocationID p, atr_Fence = pq_Fence (ps_request p)\<rparr>;
                   (r, answer) = rp_RecordNoCredential ops (bs_log s @ [CallerContext None]) q (bs_repository s)
               in (case answer of Inl _ \<Rightarrow> Inl (ErrDurableCredentialIssuance ''record no credential'')
                   | Inr w \<Rightarrow> if validNoCredentialResult w p then Inr w
                              else Inl (ErrDurableCredentialIssuance ''record no credential''),
                   s\<lparr>bs_repository := r, bs_log := bs_log s @ [CallerContext None, RecordingNone q answer],
                     bs_prepared := (bs_prepared s)[pc_state handle :=
                       consumed_state preparedDurableCredentialNoCredential p]\<rparr>)
          else (Inl ErrDurableCredentialState, s\<lparr>bs_log := bs_log s @ [CallerContext None]\<rparr>))"
  by (auto simp: Broker_RecordNoCredential_def observe_def store_call_def Let_def consumePrepared_run
      split: option.splits sum.splits prod.splits)

lemma spent_refused:
  assumes "spent handle s"
  shows "\<not> consumable broker handle (bs_prepared s ! pc_state handle)"
  using assms by (simp add: spent_def consumable_def)

lemma handle_spent:
  assumes "pc_state handle < length (bs_prepared s)" and "consumable broker handle (bs_prepared s ! pc_state handle)"
    and "\<not> be_ctx_nil v" and "be_ctx v (bs_log s) = None"
  shows "spent handle (snd (run_state (Issue broker v ops handle) s))"
    and "spent handle (snd (run_state (Broker_RecordNoCredential broker v ops handle) s))"
proof -
  have "spent handle (issue_start v handle s)"
    using assms(1) by (simp add: spent_def issue_start_def consumed_state_def)
  moreover have "heap_le (issue_start v handle s)
      (snd (run_state (issue_child (ps_broker (bs_prepared s ! pc_state handle)) v ops (bs_prepared s ! pc_state handle))
         (issue_start v handle s)))"
    by (rule preservesD [OF preserves_issue])
  ultimately show "spent handle (snd (run_state (Issue broker v ops handle) s))"
    using assms by (auto simp: Issue_run intro: spent_later)
  show "spent handle (snd (run_state (Broker_RecordNoCredential broker v ops handle) s))"
    using assms by (auto simp: NoCredential_run spent_def consumed_state_def Let_def split: prod.splits)
qed

text \<open>
  C11. A prepared credential is a single-use handle: once \<open>Issue\<close> or \<open>RecordNoCredential\<close> was
  called on it by its broker with a live context, every further call of either on any copy of the
  handle, after whatever else happened, returns an error, reaches neither the repository nor the
  issuer, and leaves the handles as they are.
\<close>

theorem prepared_single_use:
  assumes "pc_state handle < length (bs_prepared s)" and "consumable broker handle (bs_prepared s ! pc_state handle)"
    and "\<not> be_ctx_nil v" and "be_ctx v (bs_log s) = None"
    and first: "s1 = snd (run_state (Issue broker v ops handle) s) \<or>
      s1 = snd (run_state (Broker_RecordNoCredential broker v ops handle) s)"
    and later: "broker_step\<^sup>*\<^sup>* s1 s2" and copy: "pc_state copy = pc_state handle"
  shows "\<exists>err event. err \<in> {ErrInvalidDurableCredentialRequest, ErrDurableCredentialState} \<union> range BrokerCtx \<and>
      run_state (Issue b' v' ops' copy) s2 = (Inl err, s2\<lparr>bs_log := bs_log s2 @ event\<rparr>) \<and>
      run_state (Broker_RecordNoCredential b' v' ops' copy) s2 = (Inl err, s2\<lparr>bs_log := bs_log s2 @ event\<rparr>) \<and>
      set event \<subseteq> range CallerContext"
proof -
  have "spent handle s1" using first handle_spent [OF assms(1-4)] by auto
  then have "spent copy s2"
    using spent_later [OF broker_steps_heap [OF later]] copy by (simp add: spent_def)
  note refused = spent_refused [OF this, of b']
  show ?thesis
  proof (cases "be_ctx_nil v'")
    case True
    then show ?thesis by (intro exI [of _ ErrInvalidDurableCredentialRequest] exI [of _ "[]"]) (simp add: Issue_run NoCredential_run)
  next
    case False
    show ?thesis
    proof (cases "be_ctx v' (bs_log s2)")
      case None
      with False refused show ?thesis
        by (intro exI [of _ ErrDurableCredentialState] exI [of _ "[CallerContext None]"]) (simp add: Issue_run NoCredential_run)
    next
      case (Some c)
      with False show ?thesis
        by (intro exI [of _ "BrokerCtx c"] exI [of _ "[CallerContext (Some c)]"]) (simp add: Issue_run NoCredential_run)
    qed
  qed
qed

section \<open>How long an issued credential lives\<close>













section \<open>Revoking an issued credential\<close>

lemma Destroy_secret: "handle_state c (snd (run_state (Destroy c) s)) = Some state \<Longrightarrow> cs_secret state = ''''"
  by (auto simp: Destroy_def on_handle_run handle_state_def split: if_splits)

lemma secret_stays_gone:
  assumes "heap_le s t" and "handle_state c s = Some state" and "cs_secret state = ''''"
  shows "\<exists>state'. handle_state c t = Some state' \<and> cs_secret state' = '''' \<and> issued_le state state'"
  using assms by (auto simp: heap_le_def handle_state_def issued_le_def split: if_splits)

lemma request_destroys:
  assumes "handle_state c s = Some state"
  shows "\<exists>state'. handle_state c (snd (run_state (Broker_RequestRevocation broker v ops c flights) s)) = Some state' \<and>
    cs_secret state' = '''' \<and> issued_le state state'"
proof -
  define d where "d = snd (run_state (Destroy c) s)"
  have "heap_le s d" unfolding d_def by (rule preservesD [OF preserves_destroy])
  then obtain e where e: "handle_state c d = Some e" "issued_le state e"
    using assms by (auto simp: heap_le_def handle_state_def split: if_splits)
  have gone: "cs_secret e = ''''" using Destroy_secret e(1) unfolding d_def by blast
  have "heap_le d (snd (run_state (Broker_RequestRevocation broker v ops c flights) s))"
    using revocation_loop_heap e(1) heap_le_refl [of d d]
    by (auto simp: Broker_RequestRevocation_def d_def split: prod.splits)
  from secret_stays_gone [OF this e(1) gone] e(2) show ?thesis
    by (auto simp: issued_le_def)
qed

text \<open>A call that returns a revocation has cached it.\<close>

lemma revocation_loop_caches:
  assumes "run_state (revocation_loop v ops c flights) s = (Inr r, s')"
  shows "Option.bind (handle_state c s') cs_revocationResult = Some r"
  using assms
proof (induction flights arbitrary: s)
  case Nil
  have "Option.bind (handle_state c s') cs_revocationResult = Some r"
    if "run_state (revocation_flight ops c) t = (Inr r, s')" for t
  proof (cases "handle_state c t")
    case None
    with that show ?thesis by (simp add: revocation_flight_def)
  next
    case (Some state)
    with that show ?thesis
      unfolding revocation_flight_run [OF Some]
      by (auto simp: Let_def handle_state_def split: prod.splits sum.splits if_splits)
  qed
  with Nil show ?case
    by (auto simp: observe_def Let_def split: option.splits)
next
  case (Cons f fs)
  then show ?case by (auto split: option.splits flight.splits prod.splits)
qed

text \<open>
  C36. Asking for the revocation of an issued credential destroys the secret, whatever the outcome:
  no copy of the handle gives it out ever again. Once a call returned a revocation, every later
  call of the broker on any copy of the handle returns the same one and makes no further
  repository call, however the other callers of it interleave.
\<close>

theorem revocation_destroys_and_caches:
  assumes issued: "dh_state c < length (bs_issued s)"
    and request: "run_state (Broker_RequestRevocation broker v ops c flights) s = (result, s1)"
    and later: "broker_step\<^sup>*\<^sup>* s1 s2" and copy: "dh_state copy = dh_state c"
  shows "fst (run_state (Secret v' copy) s2) = '''' \<and>
    (\<forall>r. result = Inr r \<and> be_ctx_nil v' = False \<and> validMetadata copy s2 \<longrightarrow>
       fst (run_state (Broker_RequestRevocation broker v' ops' copy flights') s2) = Inr r \<and>
       bs_log (snd (run_state (Broker_RequestRevocation broker v' ops' copy flights') s2)) = bs_log s2 \<and>
       bs_repository (snd (run_state (Broker_RequestRevocation broker v' ops' copy flights') s2)) = bs_repository s2)"
proof -
  from issued obtain state where state: "handle_state c s = Some state" by (simp add: handle_state_def)
  from request_destroys [OF this, of broker v ops flights] request obtain state1
    where s1: "handle_state c s1 = Some state1" "cs_secret state1 = ''''" "issued_le state state1" by auto
  from secret_stays_gone [OF broker_steps_heap [OF later] s1(1,2)] obtain state2
    where s2: "handle_state c s2 = Some state2" "cs_secret state2 = ''''" "issued_le state1 state2" by blast
  have here: "handle_state copy s2 = Some state2" using s2(1) copy by (simp add: handle_state_def split: if_splits)
  have "fst (run_state (Secret v' copy) s2) = ''''"
    using here s2(2) by (auto simp: Secret_def observe_def Let_def split: prod.splits)
  moreover have "fst (run_state (Broker_RequestRevocation broker v' ops' copy flights') s2) = Inr r \<and>
       bs_log (snd (run_state (Broker_RequestRevocation broker v' ops' copy flights') s2)) = bs_log s2 \<and>
       bs_repository (snd (run_state (Broker_RequestRevocation broker v' ops' copy flights') s2)) = bs_repository s2"
    if r: "result = Inr r" and valid: "be_ctx_nil v' = False" "validMetadata copy s2" for r
  proof -
    define d where "d = snd (run_state (Destroy copy) s2)"
    from request r have own: "broker = Some (cs_broker state)"
      and cached: "cs_revocationResult state1 = Some r"
      using revocation_loop_caches [of v ops c flights _ r s1] state s1
      by (auto simp: Broker_RequestRevocation_def Destroy_def on_handle_run handle_state_def
          split: if_splits prod.splits)
    have d: "handle_state copy d = Some (state2\<lparr>cs_secret := ''''\<rparr>)" "bs_log d = bs_log s2"
      "bs_repository d = bs_repository s2" "validMetadata copy d"
      using here valid(2) by (auto simp: d_def Destroy_def on_handle_run handle_state_def validMetadata_def split: if_splits)
    have "cs_revocationResult state2 = Some r" "broker = Some (cs_broker state2)"
      using cached own s1(3) s2(3) by (auto simp: issued_le_def)
    then have "run_state (revocation_loop v' ops' copy flights') d = (Inr r, d)"
      using d(1) by (cases flights') simp_all
    with d own s1(3) s2(3) valid(1) \<open>broker = Some (cs_broker state2)\<close> show ?thesis
      by (auto simp: Broker_RequestRevocation_def d_def split: prod.splits)
  qed
  ultimately show ?thesis by blast
qed

section \<open>A failed issue revokes what it anchored\<close>

text \<open>
  What the broker relies on of the repository: recording an anchor makes the credential findable by
  its id (\<open>anchored\<close>), no call of the broker undoes that, and asking for the revocation of an
  anchored credential while the context is live succeeds and leaves it \<open>accounted\<close> for.
\<close>

definition anchors_only :: "string set \<Rightarrow> broker_history \<Rightarrow> bool" where
  "anchors_only I h \<longleftrightarrow> (\<forall>q w. Anchoring q (Inr w) \<in> set h \<longrightarrow> an_RevocationID q \<in> I)"

lemma anchors_only_simps [simp]:
  "anchors_only I []" "anchors_only I (h @ g) \<longleftrightarrow> anchors_only I h \<and> anchors_only I g"
  "anchors_only I (c # h) \<longleftrightarrow> anchors_only I h \<and> (\<forall>q w. c = Anchoring q (Inr w) \<longrightarrow> an_RevocationID q \<in> I)"
  by (auto simp: anchors_only_def)

lemma anchors_onlyD: "anchors_only I h \<Longrightarrow> Anchoring q (Inr w) \<in> set h \<Longrightarrow> an_RevocationID q \<in> I"
  by (auto simp: anchors_only_def)

lemma anchors_only_context:
  "ensures (\<lambda>s. anchors_only I (bs_log s)) (newFinalizeContext v) (\<lambda>_ s. anchors_only I (bs_log s))"
  unfolding newFinalizeContext_def bounded_def
  by (auto simp: ensures_def observe_def Let_def split: option.splits)

lemma anchors_only_give_up:
  "ensures (\<lambda>s. anchors_only I (bs_log s)) (give_up v ops i operation) (\<lambda>r s. isl r \<and> anchors_only I (bs_log s))"
proof -
  have "ensures (\<lambda>s. anchors_only I (bs_log s)) (persistRevocationIntent v ops i) (\<lambda>_ s. anchors_only I (bs_log s))"
    unfolding persistRevocationIntent_def Let_def
    by (intro ensures_bind [OF anchors_only_context] triples) auto
  then show ?thesis unfolding give_up_def by (rule ensures_bind) (rule ensures_give, simp)
qed

locale credential_store =
  fixes ops :: "'r repository_ops" and ok :: "'r \<Rightarrow> bool" and anchored accounted :: "string \<Rightarrow> 'r \<Rightarrow> bool"
    and live :: "broker_history \<Rightarrow> bool"
  assumes authorize: "ok r \<Longrightarrow> rp_AuthorizeChildCreate ops h aq r = (r', authorization) \<Longrightarrow> ok r'"
    and anchor: "ok r \<Longrightarrow> rp_RecordAnchor ops h nq r = (r', answer) \<Longrightarrow>
      ok r' \<and> (\<not> isl answer \<longrightarrow> anchored (an_RevocationID nq) r')"
    and activate: "ok r \<Longrightarrow> anchored i r \<Longrightarrow> rp_Activate ops h tq r = (r', answer) \<Longrightarrow> ok r' \<and> anchored i r'"
    and request: "ok r \<Longrightarrow> anchored i r \<Longrightarrow> live h \<Longrightarrow>
      rp_RequestRevocation ops h \<lparr>atr_RevocationID = i, atr_Fence = zero_ActionFence\<rparr> r = (r', answer) \<Longrightarrow>
      accounted i r' \<and> \<not> isl answer"
begin

definition before :: "'r broker_state \<Rightarrow> bool" where
  "before s \<longleftrightarrow> ok (bs_repository s) \<and> anchors_only {} (bs_log s)"

definition at_anchor :: "string \<Rightarrow> 'r broker_state \<Rightarrow> bool" where
  "at_anchor i s \<longleftrightarrow> ok (bs_repository s) \<and> anchored i (bs_repository s) \<and> anchors_only {i} (bs_log s)"

definition settled :: "broker_error + durable_handle \<Rightarrow> 'r broker_state \<Rightarrow> bool" where
  "settled result s \<longleftrightarrow> (\<forall>q w. Anchoring q (Inr w) \<in> set (bs_log s) \<longrightarrow>
     (case result of Inl _ \<Rightarrow> accounted (an_RevocationID q) (bs_repository s)
      | Inr _ \<Rightarrow> anchored (an_RevocationID q) (bs_repository s)))"

lemma context_then:
  assumes fallback: "\<And>h. newBoundedContext (be_fallback v h) PostDispatchPersistenceTimeout \<noteq> None"
    and "\<And>s b. P s \<Longrightarrow> P (s\<lparr>bs_log := bs_log s @ [Bounding PostDispatchPersistenceTimeout b]\<rparr>)"
    and "\<And>c. c \<noteq> None \<Longrightarrow> ensures P (k c) Q"
  shows "ensures P (State_Monad.bind (newFinalizeContext v) k) Q"
proof (rule ensures_bind [where R = "\<lambda>c s. c \<noteq> None \<and> P s"])
  have one: "ensures P (bounded source PostDispatchPersistenceTimeout)
      (\<lambda>c s. (\<exists>h. c = newBoundedContext (source h) PostDispatchPersistenceTimeout) \<and> P s)" for source
    using assms(2) by (auto simp: ensures_def bounded_def observe_def Let_def)
  have "ensures P (bounded (be_fallback v) PostDispatchPersistenceTimeout) (\<lambda>c s. c \<noteq> None \<and> P s)"
    by (rule ensures_conseq [OF one]) (use fallback in blast)+
  then show "ensures P (newFinalizeContext v) (\<lambda>c s. c \<noteq> None \<and> P s)"
    unfolding newFinalizeContext_def
    by (intro ensures_bind [OF one] ensures_option ensures_give) (auto elim: ensures_conseq)
  show "ensures (\<lambda>s. c \<noteq> None \<and> P s) (k c) Q" for c
    using assms(3) [of c] by (cases c) (simp_all add: ensures_def)
qed

lemma before_issuance: "ensures before (issuance operation) settled"
  by (rule ensures_give) (auto simp: before_def settled_def dest: anchors_onlyD)

lemma give_up_settles:
  assumes "\<And>h. newBoundedContext (be_fallback v h) PostDispatchPersistenceTimeout \<noteq> None" and "\<And>h. live h"
  shows "ensures (at_anchor i) (give_up v ops i operation) settled"
proof -
  have "ensures (at_anchor i) (persistRevocationIntent v ops i)
      (\<lambda>_ s. anchors_only {i} (bs_log s) \<and> accounted i (bs_repository s))"
    unfolding persistRevocationIntent_def Let_def
    by (rule context_then [OF assms(1)]; (intro triples)?)
      (auto simp: at_anchor_def dest: request [OF _ _ assms(2)])
  then show ?thesis
    unfolding give_up_def by (rule ensures_bind) (rule ensures_give, auto simp: settled_def dest: anchors_onlyD)
qed

lemma at_anchor_observe:
  assumes "\<And>a q w. e a \<noteq> Anchoring q (Inr w)" and "\<And>a. ensures (at_anchor i) (k a) Q"
  shows "ensures (at_anchor i) (State_Monad.bind (observe f e) k) Q"
  by (rule ensures_observe_then, rule ensures_conseq [OF assms(2)]) (use assms(1) in \<open>auto simp: at_anchor_def\<close>)

lemma before_observe:
  assumes "\<And>a q w. e a \<noteq> Anchoring q (Inr w)" and "\<And>a. ensures before (k a) Q"
  shows "ensures before (State_Monad.bind (observe f e) k) Q"
  by (rule ensures_observe_then, rule ensures_conseq [OF assms(2)]) (use assms(1) in \<open>auto simp: before_def\<close>)

lemma active_settles:
  assumes fallback: "\<And>h. newBoundedContext (be_fallback v h) PostDispatchPersistenceTimeout \<noteq> None"
    and live: "\<And>h. live h" and i: "i = ps_revocationID p"
  shows "ensures (at_anchor i) (issue_active this v ops p w d) settled"
proof -
  note fails = give_up_settles [OF fallback live]
  have handover: "ensures (at_anchor i) (do { c \<leftarrow> newDurableCredential this u d; give (Inr c) }) settled" for u
    by (auto simp: ensures_def newDurableCredential_def at_anchor_def settled_def State_Monad.update_def
        dest: anchors_onlyD)
  have store: "ensures (at_anchor i) (State_Monad.bind (store_call (\<lambda>h. rp_Activate ops h q) (Activating q)) k) settled"
    if "\<And>a. ensures (at_anchor i) (k a) settled" for q k
    by (rule ensures_store_then, rule ensures_conseq [OF that]) (auto simp: at_anchor_def dest: activate)
  show ?thesis
    unfolding issue_active_def Let_def i [symmetric]
    by (intro at_anchor_observe fails context_then [OF fallback] store handover ensures_if ensures_sum)
      (auto simp: at_anchor_def)
qed

lemma anchor_settles:
  assumes fallback: "\<And>h. newBoundedContext (be_fallback v h) PostDispatchPersistenceTimeout \<noteq> None"
    and live: "\<And>h. live h"
  shows "ensures before (issue_anchor this v ops p a child createErr) settled"
proof -
  define i where "i = ps_revocationID p"
  note fails = give_up_settles [OF fallback live]
  have secret: "ensures (at_anchor i) (do { now \<leftarrow> (if issueErr then give 0 else observe (be_clock v) BrokerClock);
           if issueErr \<or> \<not> validDynamicSecret d a (ch_ExpiresAt child) now
           then give_up v ops i operation else issue_active this v ops p w d }) settled" for issueErr d w operation
    by (cases issueErr)
      (auto intro!: at_anchor_observe ensures_if fails active_settles [OF fallback live i_def])
  have dynamic: "ensures (at_anchor i) (issue_dynamic this v ops p a child createErr w) settled" for w
    unfolding issue_dynamic_def Let_def i_def [symmetric]
    by (intro at_anchor_observe ensures_if ensures_pair fails secret) auto
  have refused: "ensures (\<lambda>s. anchors_only {} (bs_log s)) (give_up v ops i operation) settled" for operation
    by (rule ensures_conseq [OF anchors_only_give_up]) (auto simp: settled_def dest: anchors_onlyD)
  show ?thesis
    unfolding issue_anchor_def Let_def i_def [symmetric]
    by (intro ensures_option before_issuance context_then [OF fallback] ensures_if ensures_store_then ensures_sum
        ensures_conseq [OF refused] ensures_conseq [OF fails] ensures_conseq [OF dynamic])
      (auto simp: before_def at_anchor_def anchors_only_def dest: anchor)
qed

lemma issue_settles:
  assumes fallback: "\<And>h. newBoundedContext (be_fallback v h) PostDispatchPersistenceTimeout \<noteq> None"
    and live: "\<And>h. live h"
  shows "ensures before (issue_child this v ops p) settled"
proof -
  have bounded_then: "ensures before (State_Monad.bind (bounded source maximum) k) settled"
    if "\<And>c. ensures before (k c) settled" for source maximum k
    by (rule ensures_bind [OF _ that]) (auto simp: ensures_def bounded_def observe_def Let_def before_def)
  have store: "ensures before (State_Monad.bind
      (store_call (\<lambda>h. rp_AuthorizeChildCreate ops h q) (Authorizing q)) k) settled"
    if "\<And>a. ensures before (k a) settled" for q k
    by (rule ensures_store_then, rule ensures_conseq [OF that]) (auto simp: before_def dest: authorize)
  show ?thesis
    unfolding issue_child_def Let_def
    by (intro before_observe bounded_then store ensures_if ensures_sum ensures_pair before_issuance
        anchor_settles [OF fallback live]) auto
qed

end

text \<open>
  The in-memory repository as the broker's: before each of the broker's calls other users may have
  made any calls of their own.
\<close>

definition memory_ops ::
  "(string \<Rightarrow> string) \<Rightarrow> (broker_history \<Rightarrow> cred_env) \<Rightarrow> (broker_history \<Rightarrow> (cred_env \<times> cred_request) list) \<Rightarrow>
   CredentialRepository repository_ops" where
  "memory_ops sha e others = (let now = (\<lambda>h s. fold (serve sha) (others h) s) in
     \<lparr>rp_Prepare = \<lambda>h q s. Prepare sha (e h) q (now h s),
      rp_AuthorizeChildCreate = \<lambda>h q s. AuthorizeChildCreate sha (e h) q (now h s),
      rp_RecordAnchor = \<lambda>h q s. RecordAnchor sha (e h) q (now h s),
      rp_Activate = \<lambda>h q s. Activate sha (e h) q (now h s),
      rp_RecordNoCredential = \<lambda>h q s. RecordNoCredential sha (e h) q (now h s),
      rp_RequestRevocation = \<lambda>h q s. RequestRevocation sha (e h) q (now h s)\<rparr>)"

definition revocable :: "string \<Rightarrow> CredentialRepository \<Rightarrow> bool" where
  "revocable i s \<longleftrightarrow> ValidRevocationID i \<and>
     (\<exists>r. gget (cdr_records s) i = Some r \<and> (outstanding (cred_status r) \<or> cred_status r = StatusRevoked))"

definition being_revoked :: "string \<Rightarrow> CredentialRepository \<Rightarrow> bool" where
  "being_revoked i s \<longleftrightarrow> (\<exists>r. gget (cdr_records s) i = Some r \<and>
     cred_status r \<in> {StatusRevocationPending, StatusRevoking, StatusManualRequired, StatusRevoked})"

lemma revocable_stays:
  assumes "(cred_step sha)\<^sup>*\<^sup>* s u" and "cred_inv s" and "revocable i s"
  shows "revocable i u"
proof -
  let ?A = "{st. outstanding st \<or> st = StatusRevoked}"
  have "y \<in> ?A" if "x \<in> ?A" "y \<in> set (cred_next x)" for x y
    using that by (cases x) (auto simp: outstanding_def)
  with cred_steps_status [OF assms(1,2), where A = ?A] assms(3) show ?thesis
    unfolding revocable_def by blast
qed

lemma being_revoked_stays:
  assumes "(cred_step sha)\<^sup>*\<^sup>* s u" and "cred_inv s" and "being_revoked i s"
  shows "being_revoked i u"
proof -
  let ?A = "{StatusRevocationPending, StatusRevoking, StatusManualRequired, StatusRevoked}"
  have "y \<in> ?A" if "x \<in> ?A" "y \<in> set (cred_next x)" for x y
    using that by (cases x) auto
  with cred_steps_status [OF assms(1,2), where A = ?A] assms(3) show ?thesis
    unfolding being_revoked_def by blast
qed

lemma revoke_unless_revocable:
  assumes "revoke_unless current t i r s = (u, Inr v)" and "outstanding (cred_status r)"
  shows "\<exists>r'. gget (cdr_records u) i = Some r' \<and> outstanding (cred_status r')"
proof -
  have "outstanding (cred_status r')" if "applyRequestRevocation t r = Inr r'" for r'
    using that assms(2) by (auto simp: applyRequestRevocation_def outstanding_def cred_update_defs)
  with assms show ?thesis
    by (auto simp: revoke_unless_def gget_put_credential split: if_splits sum.splits)
qed

lemma RecordAnchor_revocable:
  assumes "cred_inv s" and "RecordAnchor sha e q s = (u, Inr v)"
  shows "revocable (an_RevocationID q) u"
proof -
  from assms(2) have valid: "ValidRevocationID (an_RevocationID q)"
    and "\<exists>inspection. anchor_locked sha e q inspection s = (u, Inr v)"
    using withLocked_Inr [of _ "anchor_locked sha e q" s u v]
    by (auto simp: RecordAnchor_def split: option.splits if_splits)
  then obtain inspection where run: "anchor_locked sha e q inspection s = (u, Inr v)" by blast
  then obtain r where r: "gget (cdr_records s) (an_RevocationID q) = Some r"
    by (auto simp: anchor_locked_def Let_def split: option.splits)
  have "ValidRevocationStatus (cred_status r)" using cred_invD(3) [OF assms(1) r] by (simp add: cred_phase_def)
  then have known: "cred_status r \<noteq> StatusPrepared \<Longrightarrow> cred_status r \<noteq> StatusNoCredential \<Longrightarrow>
      cred_status r \<noteq> StatusRevoked \<Longrightarrow> outstanding (cred_status r)"
    by (cases "cred_status r") (auto simp: outstanding_def)
  have "\<exists>r'. gget (cdr_records u) (an_RevocationID q) = Some r' \<and> outstanding (cred_status r')"
  proof (cases "cred_status r = StatusPrepared")
    case True
    with run r show ?thesis
      by (auto simp: anchor_locked_def Let_def split: if_splits option.splits elim!: revoke_unless_revocable)
        (simp_all add: outstanding_def cred_update_defs)
  next
    case False
    with run r known show ?thesis
      by (auto simp: anchor_locked_def Let_def split: if_splits option.splits bool.splits dest!: revoke_unless_revocable)
  qed
  with valid show ?thesis by (auto simp: revocable_def)
qed

lemma RequestRevocation_accounts:
  assumes "revocable i s" and "ce_ctx e = Some None"
    and "RequestRevocation sha e \<lparr>atr_RevocationID = i, atr_Fence = zero_ActionFence\<rparr> s = (u, answer)"
  shows "being_revoked i u \<and> \<not> isl answer"
proof -
  from assms(1) obtain r where r: "gget (cdr_records s) i = Some r" "ValidRevocationID i"
    and st: "outstanding (cred_status r) \<or> cred_status r = StatusRevoked" by (auto simp: revocable_def)
  from st obtain r' where r': "applyRequestRevocation (ce_clock e 0) r = Inr r'" and
    "cred_status r' \<in> {StatusRevocationPending, StatusRevoking, StatusManualRequired, StatusRevoked}"
    by (auto simp: outstanding_def applyRequestRevocation_def cred_update_defs)
  with assms(2,3) r show ?thesis
    by (auto simp: RequestRevocation_def contextError_def being_revoked_def gget_put_credential)
qed

interpretation memory_store:
  credential_store "memory_ops sha e others" cred_inv revocable being_revoked "\<lambda>h. ce_ctx (e h) = Some None"
proof
  fix r r' :: CredentialRepository and h
  let ?s = "fold (serve sha) (others h) r"
  assume ok: "cred_inv r"
  have inv: "cred_inv ?s" by (rule cred_calls.steps_inv [OF others_steps ok])
  have here: "revocable i ?s" if "revocable i r" for i by (rule revocable_stays [OF others_steps ok that])
  show "cred_inv r'" if "rp_AuthorizeChildCreate (memory_ops sha e others) h aq r = (r', authorization)"
    for aq authorization
    using cred_call_inv [OF ccall_Authorize inv, of sha "e h" aq] that by (simp add: memory_ops_def Let_def)
  show "cred_inv r' \<and> (\<not> isl answer \<longrightarrow> revocable (an_RevocationID nq) r')"
    if "rp_RecordAnchor (memory_ops sha e others) h nq r = (r', answer)" for nq answer
    using cred_call_inv [OF ccall_Anchor inv, of sha "e h" nq] that RecordAnchor_revocable [OF inv, of sha "e h" nq r']
    by (cases answer) (simp_all add: memory_ops_def Let_def)
  show "cred_inv r' \<and> revocable i r'"
    if "revocable i r" and run: "rp_Activate (memory_ops sha e others) h tq r = (r', answer)" for i tq answer
  proof -
    from run have "r' = fst (Activate sha (e h) tq ?s)" by (simp add: memory_ops_def Let_def)
    then have "cred_step sha ?s r'" unfolding cred_step_def using ccall_Activate by blast
    then show ?thesis
      using inv here [OF that(1)] revocable_stays [of sha ?s r' i] cred_calls.step_inv by blast
  qed
  show "being_revoked i r' \<and> \<not> isl answer"
    if "revocable i r" "ce_ctx (e h) = Some None"
      "rp_RequestRevocation (memory_ops sha e others) h \<lparr>atr_RevocationID = i, atr_Fence = zero_ActionFence\<rparr> r = (r', answer)"
    for i answer
    using RequestRevocation_accounts [OF here [OF that(1)] that(2), of sha] that(3)
    by (simp add: memory_ops_def Let_def)
qed

text \<open>
  C7. A failed issue revokes what it anchored. With the in-memory repository, whatever other calls
  interleave with it, whatever the issuer answers and whenever the caller cancels: when the
  accessor of a child was recorded during an \<open>Issue\<close> that returns an error, the revocation of that
  credential is pending, running, left to people or done when it returns, and stays so; when it
  returns a credential, the record of it stands and can be revoked by its id. Needed are only the
  contexts the persistence runs under: the standard library's detached timeout context is usable
  and the repository sees it live.
\<close>

theorem failed_issue_revoked:
  assumes run: "run_state (Issue broker v (memory_ops sha e others) handle) s = (result, s')"
    and "bs_log s = []" and reach: "(cred_step sha)\<^sup>*\<^sup>* empty_credentials (bs_repository s)"
    and fallback: "\<And>h. newBoundedContext (be_fallback v h) PostDispatchPersistenceTimeout \<noteq> None"
    and live: "\<And>h. ce_ctx (e h) = Some None"
    and anchored: "Anchoring q (Inr w) \<in> set (bs_log s')"
  shows "case result of
      Inl _ \<Rightarrow> being_revoked (an_RevocationID q) (bs_repository s')
    | Inr _ \<Rightarrow> revocable (an_RevocationID q) (bs_repository s')"
proof -
  let ?p = "bs_prepared s ! pc_state handle"
  have "run_state (issue_child (ps_broker ?p) v (memory_ops sha e others) ?p) (issue_start v handle s) = (result, s')"
    using run assms(2) anchored by (auto simp: Issue_run split: if_splits option.splits)
  moreover have "memory_store.before (issue_start v handle s)"
    using cred_calls.reachable_inv [OF reach] assms(2) by (simp add: memory_store.before_def issue_start_def)
  ultimately have "memory_store.settled result s'"
    using ensuresD [OF memory_store.issue_settles [where e = e and sha = sha and others = others, OF fallback live]] by blast
  with anchored show ?thesis by (auto simp: memory_store.settled_def)
qed

section \<open>A concrete run\<close>

definition bd_selection :: DurableIssuerResolveRequest where
  "bd_selection = \<lparr>ir_TenantID = ''t1'', ir_WorkspaceID = ''w1'', ir_EnvironmentID = ''e1'', ir_Production = False,
     ir_ActionType = ''restart'', ir_ConnectorID = ''c1'', ir_Permission = ''p1'', ir_Resource = ''r1''\<rparr>"

definition bd_registration :: IssuerRegistration where
  "bd_registration = \<lparr>ig_Selection = bd_selection,
     ig_Profile = \<lparr>ip_IssuerID = ''vault'', ip_Revision = ''v1'', ip_CredentialTTL = 300 * Second\<rparr>,
     ig_Issuer = Some \<lparr>di_object = 1, di_comparable = True, di_IssuerID = ''vault'', di_IssuerRevision = ''v1''\<rparr>\<rparr>"

definition bd_try :: bounded_try where
  "bd_try = \<lparr>bt_started = 0, bt_candidate = Some \<lparr>bc_Deadline = Some (10 * Second), bc_Done = True, bc_Err = None,
     bc_monotonic = True\<rparr>, bt_observed = 0, bt_err = None, bt_checked = 0\<rparr>"

definition bd_env :: "bool \<Rightarrow> broker_env" where
  "bd_env works = \<lparr>be_ctx_nil = False, be_ctx = (\<lambda>_. None), be_clock = (\<lambda>_. 10 * Second), be_uuid = (\<lambda>_. Some dc_id),
     be_registry = NewIssuerRegistry [bd_registration], be_timeout = (\<lambda>_. bd_try), be_finalize = (\<lambda>_. bd_try),
     be_fallback = (\<lambda>_. bd_try), be_manager = (\<lambda>_. True),
     be_create = (\<lambda>_ _. (\<lparr>ch_Token = ''child'', ch_Accessor = Some ''accessor'', ch_ExpiresAt = 240 * Second,
       ch_plain = True\<rparr>, False)),
     be_inspect = (\<lambda>_ _ _. works),
     be_dynamic = (\<lambda>_ _ _. (\<lparr>ds_Secret = ''secret'', ds_ExpiresAt = 200 * Second, ds_plain = True\<rparr>, False))\<rparr>"

definition bd_ops :: "CredentialRepository repository_ops" where
  "bd_ops = memory_ops dc_sha (\<lambda>_. dc_env (10 * Second)) (\<lambda>_. [])"

definition bd_request :: PrepareDurableCredentialRequest where
  "bd_request = \<lparr>pq_Fence = dc_fence, pq_Selection = bd_selection, pq_RequestedTTL = 300 * Second,
     pq_PolicyExpiresAt = 250 * Second\<rparr>"

definition bd_start :: "CredentialRepository broker_state" where
  "bd_start = \<lparr>bs_log = [], bs_repository = empty_credentials, bs_prepared = [], bs_issued = []\<rparr>"

definition bd_prepared :: "CredentialRepository broker_state" where
  "bd_prepared = snd (run_state (Broker_Prepare (Some 1) (bd_env True) bd_ops bd_request) bd_start)"

definition bd_handle :: PreparedDurableCredential where
  "bd_handle = \<lparr>pc_revocationID = dc_id, pc_state = 0\<rparr>"

definition bd_fresh :: "CredentialRepository broker_state" where
  "bd_fresh = bd_prepared\<lparr>bs_log := []\<rparr>"

definition bd_credential :: durable_handle where
  "bd_credential = \<lparr>dh_revocationID = dc_id, dh_expiresAt = 200 * Second, dh_state = 0\<rparr>"

definition bd_issued :: "CredentialRepository broker_state" where
  "bd_issued = snd (run_state (Issue (Some 1) (bd_env True) bd_ops bd_handle) bd_fresh)"

fun is_dynamic :: "broker_event \<Rightarrow> bool" where
  "is_dynamic (DynamicIssued q a) = True"
| "is_dynamic _ = False"

fun anchors :: "string \<Rightarrow> broker_event \<Rightarrow> bool" where
  "anchors i (Anchoring q (Inr w)) = (an_RevocationID q = i)"
| "anchors i _ = False"

fun_cases is_dynamicE: "is_dynamic c" and anchorsE: "anchors i c"

definition bd_requested :: "CredentialRepository broker_state" where
  "bd_requested = snd (run_state (Broker_RequestRevocation (Some 1) (bd_env True) bd_ops bd_credential []) bd_issued)"

definition bd_failed :: "CredentialRepository broker_state" where
  "bd_failed = snd (run_state (Issue (Some 1) (bd_env False) bd_ops bd_handle) bd_fresh)"

definition bd_prepare :: PrepareRequest where
  "bd_prepare = \<lparr>pr_RevocationID = dc_id, pr_Fence = dc_fence, pr_Issuer = ''vault'', pr_IssuerRevision = ''v1'',
     pr_CredentialExpiresAt = 250 * Second\<rparr>"

text \<open>The whole run, evaluated once.\<close>

lemma bd_story:
  "(let (h, s0) = run_state (Broker_Prepare (Some 1) (bd_env True) bd_ops bd_request) bd_start;
        s1 = s0\<lparr>bs_log := []\<rparr>;
        (c, s2) = run_state (Issue (Some 1) (bd_env True) bd_ops bd_handle) s1;
        (r, s3) = run_state (Broker_RequestRevocation (Some 1) (bd_env True) bd_ops bd_credential []) s2;
        (f, s4) = run_state (Issue (Some 1) (bd_env False) bd_ops bd_handle) s1;
        (c', s5) = run_state (Issue (Some 1) (bd_env True) bd_ops bd_handle) s0
    in h = Inr bd_handle \<and> 0 < length (bs_prepared s1) \<and> consumable (Some 1) bd_handle (bs_prepared s1 ! 0) \<and>
       bs_repository s1 = fst (Prepare dc_sha (dc_env (10 * Second)) bd_prepare empty_credentials) \<and>
       c = Inr bd_credential \<and> list_ex is_dynamic (bs_log s2) \<and> 0 < length (bs_issued s2) \<and>
       \<not> isl r \<and> validMetadata bd_credential s3 \<and> isl f \<and> list_ex (anchors dc_id) (bs_log s4) \<and>
       c' = Inr bd_credential)"
  by code_simp

lemma bd_facts:
  "fst (run_state (Broker_Prepare (Some 1) (bd_env True) bd_ops bd_request) bd_start) = Inr bd_handle"
  "0 < length (bs_prepared bd_fresh) \<and> consumable (Some 1) bd_handle (bs_prepared bd_fresh ! 0)"
  "bs_repository bd_fresh = fst (Prepare dc_sha (dc_env (10 * Second)) bd_prepare empty_credentials)"
  "fst (run_state (Issue (Some 1) (bd_env True) bd_ops bd_handle) bd_fresh) = Inr bd_credential"
  "list_ex is_dynamic (bs_log bd_issued)" "0 < length (bs_issued bd_issued)"
  "\<not> isl (fst (run_state (Broker_RequestRevocation (Some 1) (bd_env True) bd_ops bd_credential []) bd_issued))"
  "validMetadata bd_credential bd_requested"
  "isl (fst (run_state (Issue (Some 1) (bd_env False) bd_ops bd_handle) bd_fresh))"
  "list_ex (anchors dc_id) (bs_log bd_failed)"
  "fst (run_state (Issue (Some 1) (bd_env True) bd_ops bd_handle) bd_prepared) = Inr bd_credential"
  using bd_story
  unfolding bd_failed_def bd_requested_def bd_issued_def bd_fresh_def bd_prepared_def Let_def split_beta by blast+

lemma bd_runs:
  "run_state (Issue (Some 1) (bd_env True) bd_ops bd_handle) bd_fresh = (Inr bd_credential, bd_issued)"
  "run_state (Broker_Prepare (Some 1) (bd_env True) bd_ops bd_request) bd_start = (Inr bd_handle, bd_prepared)"
  using bd_facts(1,4) by (simp_all add: bd_issued_def bd_prepared_def prod_eq_iff)

theorem child_anchored_before_use_witness:
  "\<exists>h q answer later a child v. bs_log bd_issued = h @ DynamicIssued q answer # later \<and>
     usable_in (bs_prepared bd_fresh ! pc_state bd_handle) a child v h"
proof -
  from bd_facts(5) obtain q answer where "DynamicIssued q answer \<in> set (bs_log bd_issued)"
    by (auto simp: list_ex_iff elim!: is_dynamicE)
  then obtain h later where log: "bs_log bd_issued = h @ DynamicIssued q answer # later" by (meson split_list)
  have "bs_log bd_fresh = []" by (simp add: bd_fresh_def)
  from child_anchored_before_use [OF bd_runs(1) this log refl]
  obtain a child v where "usable_in (bs_prepared bd_fresh ! pc_state bd_handle) a child v h" by auto
  with log show ?thesis by blast
qed

theorem prepared_single_use_witness:
  "\<exists>err event. run_state (Issue (Some 1) (bd_env True) bd_ops bd_handle) bd_issued =
     (Inl err, bd_issued\<lparr>bs_log := bs_log bd_issued @ event\<rparr>) \<and> set event \<subseteq> range CallerContext"
  using prepared_single_use [of bd_handle bd_fresh "Some 1" "bd_env True" bd_issued bd_ops bd_issued bd_handle
      "Some 1" "bd_env True" bd_ops] bd_facts(2) bd_runs(1)
  by (auto simp: bd_handle_def bd_env_def bd_issued_def)


theorem revocation_destroys_and_caches_witness:
  "\<exists>r. fst (run_state (Secret (bd_env True) bd_credential) bd_requested) = '''' \<and>
     fst (run_state (Broker_RequestRevocation (Some 1) (bd_env True) bd_ops bd_credential [OtherFlight]) bd_requested) = Inr r"
proof -
  from bd_facts(7) obtain r where
    r: "fst (run_state (Broker_RequestRevocation (Some 1) (bd_env True) bd_ops bd_credential []) bd_issued) = Inr r"
    by (auto simp: isl_def split: sum.splits) (metis sum.exhaust)
  then have run: "run_state (Broker_RequestRevocation (Some 1) (bd_env True) bd_ops bd_credential []) bd_issued =
      (Inr r, bd_requested)" by (simp add: bd_requested_def prod_eq_iff)
  have nil: "be_ctx_nil (bd_env True) = False" by (simp add: bd_env_def)
  have here: "dh_state bd_credential < length (bs_issued bd_issued)" using bd_facts(6) by (simp add: bd_credential_def)
  from revocation_destroys_and_caches [OF here run rtranclp.rtrancl_refl refl, of "bd_env True" bd_ops "[OtherFlight]"]
    nil bd_facts(8)
  show ?thesis by auto
qed

lemma bd_reached: "(cred_step dc_sha)\<^sup>*\<^sup>* empty_credentials (bs_repository bd_fresh)"
  unfolding bd_facts(3) by (rule cred_steps_call [OF rtranclp.rtrancl_refl ccall_Prepare])

lemma bd_context: "newBoundedContext (be_fallback (bd_env works) h) PostDispatchPersistenceTimeout \<noteq> None"
  by (simp add: bd_env_def bd_try_def newBoundedContext_def PostDispatchPersistenceTimeout_def go_defs)

theorem failed_issue_revoked_witness: "being_revoked dc_id (bs_repository bd_failed)"
proof -
  obtain err where err: "fst (run_state (Issue (Some 1) (bd_env False) bd_ops bd_handle) bd_fresh) = Inl err"
    using bd_facts(9) by (auto simp: isl_def)
  then have run: "run_state (Issue (Some 1) (bd_env False) (memory_ops dc_sha (\<lambda>_. dc_env (10 * Second)) (\<lambda>_. [])) bd_handle)
      bd_fresh = (Inl err, bd_failed)" by (simp add: bd_failed_def bd_ops_def prod_eq_iff)
  from bd_facts(10) obtain q w where q: "Anchoring q (Inr w) \<in> set (bs_log bd_failed)" "an_RevocationID q = dc_id"
    by (auto simp: list_ex_iff elim!: anchorsE)
  have "ce_ctx (dc_env (10 * Second)) = Some None" by (simp add: dc_env_def)
  from failed_issue_revoked [OF run _ bd_reached bd_context this q(1)] q(2) show ?thesis
    by (simp add: bd_fresh_def)
qed

end
