(* ===== verification/Revocation_Worker.thy ===== *)
theory Revocation_Worker
  imports Credential_Repository "HOL-Library.State_Monad"
begin

text \<open>
  The worker of \<^verbatim>\<open>internal/credential/revocationworker/worker.go\<close>, which drains the revocations
  the broker asked for: it recovers abandoned records, claims one revocation, has the registered
  revoker revoke the accessor at the remote issuer, and reports the outcome to the repository.

  A run is a state-monad program over the calls made so far with their answers, the repository,
  the contents of the accessors handed out (a reference is an address, erased when destroyed),
  the slot that bounds the remote calls, and whether a heartbeat was refused. As for the broker,
  the repository is a record of operations over a state of any type, and what a run reads from
  outside is a field of \<open>worker_env\<close>, a function of the calls so far.

  The goroutines of a claim. The heartbeat goroutine shares with the others only the repository,
  whose calls are atomic, and the channel that says that a beat was refused; the model lets
  \<open>we_ticks\<close> of its beats happen before each call of the foreground and at the end. The goroutine
  of the remote call gives the slot back some time after it ended, which may be after the run:
  \<open>we_released\<close> says whether it has when the slot is wanted again. The redacting methods and
  the timer are not modelled: a time-out is one of the ways a wait ends.
\<close>

section \<open>Data\<close>

definition RevocationClaimLease :: duration where "RevocationClaimLease = 30 * Second"
definition defaultRecoveryLimit :: int where "defaultRecoveryLimit = 100"
definition defaultClaimLimit :: int where "defaultClaimLimit = 1"

datatype worker_error =
    ErrInvalidRegistry | ErrRevokerNotRegistered | ErrInvalidWorker | ErrRecoveryFailed | ErrClaimFailed
  | ErrClaimDeferred

record RevokerIdentity =
  ri_TenantID :: string
  ri_WorkspaceID :: string
  ri_EnvironmentID :: string
  ri_IssuerID :: string
  ri_IssuerRevision :: string

text \<open>A revoker is known by its identity as an object; nil is \<open>None\<close>.\<close>

record Registration =
  rn_Identity :: RevokerIdentity
  rn_Revoker :: "nat option"

record Registry =
  rgy_revokers :: "(RevokerIdentity \<times> nat) list"

record WorkerOptions =
  wo_WorkerID :: string
  wo_RecoveryLimit :: int
  wo_ClaimLimit :: int

record RunResult =
  rr_PreparedRecovered :: int
  rr_ManagedRecovered :: int
  rr_ExhaustedRecovered :: int
  rr_Claimed :: int
  rr_Revoked :: int
  rr_Retried :: int
  rr_ManualRequired :: int
  rr_Deferred :: int

record Worker =
  wk_registry :: Registry
  wk_workerID :: string
  wk_recoveryLimit :: int
  wk_claimLimit :: int
  wk_claimLease :: duration

datatype claimOutcome = claimRevoked | claimRetried | claimManual

text \<open>The class a Vault client error carries.\<close>

datatype ErrorClass =
    ErrorProtocol | ErrorAuthentication | ErrorPermission | ErrorRateLimited | ErrorUnavailable | ErrorTimeout
  | ErrorInvalidReference | ErrorUnexpectedResponse

text \<open>
  An error of a revoker, by what \<^verbatim>\<open>errors.Is\<close> and \<^verbatim>\<open>errors.As\<close> find in its chain: a deadline,
  a missing registration, a client error of Vault.
\<close>

record remote_error =
  re_deadline :: bool
  re_unregistered :: bool
  re_vault :: "ErrorClass option"

text \<open>
  How the wait for a remote call ends: with its answer, with the time-out, or because a heartbeat
  was refused or the caller's context ended, which have the same effect.
\<close>

datatype remote_wait = RemoteResult "remote_error option" | RemoteTimedOut | WaitAbandoned

section \<open>The registry of revokers\<close>

text \<open>\<^verbatim>\<open>^[A-Za-z0-9][A-Za-z0-9_.-]{0,255}$\<close>\<close>

definition exactIdentifierPattern :: "string \<Rightarrow> bool" where
  "exactIdentifierPattern s \<longleftrightarrow> (case s of [] \<Rightarrow> False | c # cs \<Rightarrow>
     is_alnum c \<and> length cs \<le> 255 \<and> list_all (\<lambda>c. is_alnum c \<or> c \<in> set ''_.-'') cs)"

definition validIdentity :: "RevokerIdentity \<Rightarrow> bool" where
  "validIdentity i \<longleftrightarrow> exactIdentifierPattern (ri_TenantID i) \<and> exactIdentifierPattern (ri_WorkspaceID i) \<and>
     exactIdentifierPattern (ri_EnvironmentID i) \<and> exactIdentifierPattern (ri_IssuerID i) \<and>
     exactIdentifierPattern (ri_IssuerRevision i)"

fun revokers_loop ::
  "Registration list \<Rightarrow> (RevokerIdentity \<times> nat) list \<Rightarrow> (RevokerIdentity \<times> nat) list option" where
  "revokers_loop [] revokers = Some revokers"
| "revokers_loop (g # gs) revokers =
     (case rn_Revoker g of None \<Rightarrow> None | Some revoker \<Rightarrow>
      if \<not> validIdentity (rn_Identity g) then None
      else if map_of revokers (rn_Identity g) \<noteq> None then None
      else revokers_loop gs (AList.update (rn_Identity g) revoker revokers))"

definition NewRegistry :: "Registration list \<Rightarrow> worker_error + Registry" where
  "NewRegistry registrations =
     (if registrations = [] then Inl ErrInvalidRegistry
      else case revokers_loop registrations [] of None \<Rightarrow> Inl ErrInvalidRegistry
        | Some revokers \<Rightarrow> Inr \<lparr>rgy_revokers = revokers\<rparr>)"

text \<open>\<open>ended\<close>: the context handed over has ended.\<close>

definition ResolveRevoker :: "Registry \<Rightarrow> bool \<Rightarrow> RevokerIdentity \<Rightarrow> nat option" where
  "ResolveRevoker registry ended identity =
     (if ended \<or> \<not> validIdentity identity then None else map_of (rgy_revokers registry) identity)"

definition identityFrom :: "Revocation \<Rightarrow> RevokerIdentity" where
  "identityFrom v = \<lparr>ri_TenantID = rv_TenantID v, ri_WorkspaceID = rv_WorkspaceID v,
     ri_EnvironmentID = rv_EnvironmentID v, ri_IssuerID = rv_Issuer v, ri_IssuerRevision = rv_IssuerRevision v\<rparr>"

definition Worker_New :: "bool \<Rightarrow> Registry option \<Rightarrow> WorkerOptions \<Rightarrow> worker_error + Worker" where
  "Worker_New repository registry options =
     (case registry of None \<Rightarrow> Inl ErrInvalidWorker | Some g \<Rightarrow>
      if \<not> repository \<or> \<not> ValidIdentifier (wo_WorkerID options) 128 then Inl ErrInvalidWorker
      else let recovery = if wo_RecoveryLimit options = 0 then defaultRecoveryLimit else wo_RecoveryLimit options;
               claims = if wo_ClaimLimit options = 0 then defaultClaimLimit else wo_ClaimLimit options
      in if recovery < 1 \<or> MaxRevocationClaimBatch < recovery \<or> claims \<noteq> defaultClaimLimit then Inl ErrInvalidWorker
         else Inr \<lparr>wk_registry = g, wk_workerID = wo_WorkerID options, wk_recoveryLimit = recovery,
           wk_claimLimit = claims, wk_claimLease = RevocationClaimLease\<rparr>)"

section \<open>Failures and delays\<close>

definition classifyFailure :: "remote_error \<Rightarrow> FailureCode \<times> bool" where
  "classifyFailure err =
     (if re_deadline err then (FailureTimeout, False)
      else if re_unregistered err then (FailureIssuerUnavailable, False)
      else case re_vault err of
        Some ErrorAuthentication \<Rightarrow> (FailureAuthentication, False)
      | Some ErrorPermission \<Rightarrow> (FailurePermissionDenied, False)
      | Some ErrorRateLimited \<Rightarrow> (FailureRateLimited, False)
      | Some ErrorUnavailable \<Rightarrow> (FailureIssuerUnavailable, False)
      | Some ErrorTimeout \<Rightarrow> (FailureTimeout, False)
      | Some ErrorInvalidReference \<Rightarrow> (FailureInvalidReference, True)
      | _ \<Rightarrow> (FailureUnknown, False))"

fun failureDetail :: "FailureCode \<Rightarrow> string" where
  "failureDetail FailureIssuerUnavailable = ''credential.revocation.worker.issuer_unavailable.v1''"
| "failureDetail FailureRateLimited = ''credential.revocation.worker.rate_limited.v1''"
| "failureDetail FailureTimeout = ''credential.revocation.worker.timeout.v1''"
| "failureDetail FailureAuthentication = ''credential.revocation.worker.authentication_failed.v1''"
| "failureDetail FailurePermissionDenied = ''credential.revocation.worker.permission_denied.v1''"
| "failureDetail FailureReferenceMissing = ''credential.revocation.worker.reference_not_found.v1''"
| "failureDetail FailureInvalidReference = ''credential.revocation.worker.invalid_reference.v1''"
| "failureDetail _ = ''credential.revocation.worker.unknown.v1''"

text \<open>The loop that doubles the upper bound of the delay; it ends because \<open>current\<close> comes closer to \<open>attempt\<close>.\<close>

function retry_upper :: "int \<Rightarrow> int \<Rightarrow> duration \<Rightarrow> duration" where
  "retry_upper attempt current upper =
     (if current < attempt \<and> upper < MaxRevocationRetryDelay then
        if MaxRevocationRetryDelay div 2 < upper then MaxRevocationRetryDelay
        else retry_upper attempt (current + 1) (upper * 2)
      else upper)"
  by pat_completeness auto

termination retry_upper
  by (relation "measure (\<lambda>(attempt, current, upper). nat (attempt - current))") auto

declare retry_upper.simps [simp del]

text \<open>\<^verbatim>\<open>rand.Int\<close> reads from the entropy source, which may fail, and returns a number below the bound.\<close>

definition draw_below :: "nat option \<Rightarrow> int \<Rightarrow> int option" where
  "draw_below entropy bound = map_option (\<lambda>n. int n mod bound) entropy"

section \<open>Calls and their answers\<close>

datatype worker_event =
    RecoveredPrepared int "cred_error + Revocation list"
  | RecoveredManaged int "cred_error + Revocation list"
  | RecoveredExhausted int "cred_error + Revocation list"
  | Claiming ClaimRevocationsRequest "cred_error + ClaimedRevocation list"
  | WorkerContext "ctx_error option"
  | Ticking nat
  | Beating CredHeartbeatRequest "cred_error + Revocation"
  | SlotReleased bool
  | RemoteStarted nat RevokerIdentity string
  | RemoteEnded remote_wait
  | Drawing "nat option"
  | Completing ClaimFence "cred_error + Revocation"
  | Retrying RetryRevocationRequest "cred_error + Revocation"
  | RequiringManual RequireManualRequest "cred_error + Revocation"

type_synonym worker_history = "worker_event list"

record 'r worker_ops =
  wp_RecoverPrepared :: "worker_history \<Rightarrow> int \<Rightarrow> 'r \<Rightarrow> 'r \<times> (cred_error + Revocation list)"
  wp_RecoverManaged :: "worker_history \<Rightarrow> int \<Rightarrow> 'r \<Rightarrow> 'r \<times> (cred_error + Revocation list)"
  wp_RecoverExhausted :: "worker_history \<Rightarrow> int \<Rightarrow> 'r \<Rightarrow> 'r \<times> (cred_error + Revocation list)"
  wp_ClaimRevocations ::
    "worker_history \<Rightarrow> ClaimRevocationsRequest \<Rightarrow> 'r \<Rightarrow> 'r \<times> (cred_error + ClaimedRevocation list)"
  wp_Heartbeat :: "worker_history \<Rightarrow> CredHeartbeatRequest \<Rightarrow> 'r \<Rightarrow> 'r \<times> (cred_error + Revocation)"
  wp_CompleteRevocation :: "worker_history \<Rightarrow> ClaimFence \<Rightarrow> 'r \<Rightarrow> 'r \<times> (cred_error + Revocation)"
  wp_RetryRevocation :: "worker_history \<Rightarrow> RetryRevocationRequest \<Rightarrow> 'r \<Rightarrow> 'r \<times> (cred_error + Revocation)"
  wp_RequireManual :: "worker_history \<Rightarrow> RequireManualRequest \<Rightarrow> 'r \<Rightarrow> 'r \<times> (cred_error + Revocation)"

record worker_env =
  we_ctx_nil :: bool
  we_ctx :: "worker_history \<Rightarrow> ctx_error option"
  we_ticks :: "worker_history \<Rightarrow> nat"
  we_released :: "worker_history \<Rightarrow> bool"
  we_remote :: "nat \<Rightarrow> string \<Rightarrow> worker_history \<Rightarrow> remote_wait"
  we_entropy :: "worker_history \<Rightarrow> nat option"

record 'r worker_state =
  ws_log :: worker_history
  ws_repository :: 'r
  ws_accessors :: "string list"
  ws_slot :: bool
  ws_lost :: bool

type_synonym ('r, 'a) worker = "('r worker_state, 'a) state"

abbreviation yields :: "'a \<Rightarrow> ('r, 'a) worker" where "yields \<equiv> State_Monad.return"

definition look :: "(worker_history \<Rightarrow> 'a) \<Rightarrow> ('a \<Rightarrow> worker_event) \<Rightarrow> ('r, 'a) worker" where
  "look answer event = State (\<lambda>s. let a = answer (ws_log s) in (a, s\<lparr>ws_log := ws_log s @ [event a]\<rparr>))"

definition ask ::
  "(worker_history \<Rightarrow> 'r \<Rightarrow> 'r \<times> 'a) \<Rightarrow> ('a \<Rightarrow> worker_event) \<Rightarrow> ('r, 'a) worker" where
  "ask operation event = State (\<lambda>s. let (r, a) = operation (ws_log s) (ws_repository s) in
     (a, s\<lparr>ws_repository := r, ws_log := ws_log s @ [event a]\<rparr>))"

section \<open>One claim\<close>

text \<open>
  The heartbeat goroutine beats on every tick until a beat is refused; then it says so and ends
  the context of the operation.
\<close>

fun heartbeats :: "Worker \<Rightarrow> 'r worker_ops \<Rightarrow> ClaimedRevocation \<Rightarrow> nat \<Rightarrow> ('r, unit) worker" where
  "heartbeats w ops claim 0 = yields ()"
| "heartbeats w ops claim (Suc n) = do {
     s \<leftarrow> State_Monad.get;
     if ws_lost s then yields () else do {
       let q = \<lparr>hb_Fence = cl_Fence claim, hb_Extension = wk_claimLease w\<rparr>;
       answer \<leftarrow> ask (\<lambda>h. wp_Heartbeat ops h q) (Beating q);
       if isl answer then State_Monad.update (\<lambda>s. s\<lparr>ws_lost := True\<rparr>) else heartbeats w ops claim n } }"

definition beats :: "Worker \<Rightarrow> worker_env \<Rightarrow> 'r worker_ops \<Rightarrow> ClaimedRevocation \<Rightarrow> ('r, unit) worker" where
  "beats w v ops claim = do {
     n \<leftarrow> look (we_ticks v) Ticking;
     heartbeats w ops claim n }"

text \<open>The context of the operation has ended when the caller's has or when a beat was refused.\<close>

definition operation_ended :: "worker_env \<Rightarrow> ('r, bool) worker" where
  "operation_ended v = do {
     c \<leftarrow> look (we_ctx v) WorkerContext;
     s \<leftarrow> State_Monad.get;
     yields (c \<noteq> None \<or> ws_lost s) }"

definition retryDelay :: "worker_env \<Rightarrow> int \<Rightarrow> ('r, duration) worker" where
  "retryDelay v attempt =
     (let upper = retry_upper (if attempt < 1 then 1 else attempt) 1 MinRevocationRetryDelay in
      if upper \<le> MinRevocationRetryDelay then yields MinRevocationRetryDelay else do {
      entropy \<leftarrow> look (we_entropy v) Drawing;
      yields (case draw_below entropy (upper - MinRevocationRetryDelay + 1) of None \<Rightarrow> MinRevocationRetryDelay
        | Some offset \<Rightarrow> MinRevocationRetryDelay + offset) })"

definition ackFailure ::
  "Worker \<Rightarrow> worker_env \<Rightarrow> 'r worker_ops \<Rightarrow> ClaimedRevocation \<Rightarrow> FailureCode \<Rightarrow> bool \<Rightarrow>
   ('r, worker_error + claimOutcome) worker" where
  "ackFailure w v ops claim code manual =
     (if manual then do {
        beats w v ops claim;
        let q = \<lparr>rm_Fence = cl_Fence claim, rm_FailureCode = code, rm_FailureDetail = failureDetail code\<rparr>;
        answer \<leftarrow> ask (\<lambda>h. wp_RequireManual ops h q) (RequiringManual q);
        yields (if isl answer then Inl ErrClaimDeferred else Inr claimManual) }
      else do {
        delay \<leftarrow> retryDelay v (rv_Attempt (cl_Revocation claim));
        beats w v ops claim;
        let q = \<lparr>rt_Fence = cl_Fence claim, rt_Delay = delay, rt_FailureCode = code,
          rt_FailureDetail = failureDetail code\<rparr>;
        answer \<leftarrow> ask (\<lambda>h. wp_RetryRevocation ops h q) (Retrying q);
        yields (case answer of Inl _ \<Rightarrow> Inl ErrClaimDeferred
          | Inr v \<Rightarrow> Inr (if rv_Status v = StatusManualRequired then claimManual else claimRetried)) })"

text \<open>What follows the answer of the revoker.\<close>

definition after_remote ::
  "Worker \<Rightarrow> worker_env \<Rightarrow> 'r worker_ops \<Rightarrow> ClaimedRevocation \<Rightarrow> remote_wait \<Rightarrow>
   ('r, worker_error + claimOutcome) worker" where
  "after_remote w v ops claim wait = (case wait of
     RemoteTimedOut \<Rightarrow> ackFailure w v ops claim FailureTimeout False
   | WaitAbandoned \<Rightarrow> yields (Inl ErrClaimDeferred)
   | RemoteResult (Some err) \<Rightarrow> do {
       s \<leftarrow> State_Monad.get;
       if ws_lost s then yields (Inl ErrClaimDeferred) else do {
       c \<leftarrow> look (we_ctx v) WorkerContext;
       if c \<noteq> None then yields (Inl ErrClaimDeferred)
       else (case classifyFailure err of (code, manual) \<Rightarrow> ackFailure w v ops claim code manual) } }
   | RemoteResult None \<Rightarrow> do {
       s \<leftarrow> State_Monad.get;
       if ws_lost s then yields (Inl ErrClaimDeferred) else do {
       beats w v ops claim;
       answer \<leftarrow> ask (\<lambda>h. wp_CompleteRevocation ops h (cl_Fence claim)) (Completing (cl_Fence claim));
       yields (if isl answer then Inl ErrClaimDeferred else Inr claimRevoked) } })"

text \<open>
  The body of a claim, whose accessor is at address \<open>i\<close>; what the deferred functions do follows
  in \<open>processClaim\<close>.
\<close>

definition claim_body ::
  "Worker \<Rightarrow> worker_env \<Rightarrow> 'r worker_ops \<Rightarrow> nat \<Rightarrow> ClaimedRevocation \<Rightarrow> ('r, worker_error + claimOutcome) worker" where
  "claim_body w v ops i claim = do {
     beats w v ops claim;
     ended \<leftarrow> operation_ended v;
     let identity = identityFrom (cl_Revocation claim);
     case ResolveRevoker (wk_registry w) ended identity of
       None \<Rightarrow> do {
         ended \<leftarrow> operation_ended v;
         if ended then yields (Inl ErrClaimDeferred)
         else ackFailure w v ops claim FailureIssuerUnavailable False }
     | Some revoker \<Rightarrow>
       if cl_Accessor claim = None then ackFailure w v ops claim FailureInvalidReference True else do {
       released \<leftarrow> look (we_released v) SlotReleased;
       s \<leftarrow> State_Monad.get;
       if ws_slot s \<and> \<not> released then yields (Inl ErrClaimDeferred) else do {
       State_Monad.update (\<lambda>s. s\<lparr>ws_slot := True\<rparr>);
       let accessor = ws_accessors s ! i;
       _ \<leftarrow> look (\<lambda>_. ()) (\<lambda>_. RemoteStarted revoker identity accessor);
       beats w v ops claim;
       wait \<leftarrow> look (we_remote v revoker accessor) RemoteEnded;
       after_remote w v ops claim wait } } }"

definition erase :: "nat \<Rightarrow> ('r, unit) worker" where
  "erase i = State_Monad.update (\<lambda>s. s\<lparr>ws_accessors := (ws_accessors s)[i := '''']\<rparr>)"

definition processClaim ::
  "Worker \<Rightarrow> worker_env \<Rightarrow> 'r worker_ops \<Rightarrow> nat \<Rightarrow> ClaimedRevocation \<Rightarrow> ('r, worker_error + claimOutcome) worker" where
  "processClaim w v ops i claim = do {
     State_Monad.update (\<lambda>s. s\<lparr>ws_lost := False\<rparr>);
     outcome \<leftarrow> claim_body w v ops i claim;
     beats w v ops claim;
     erase i;
     yields outcome }"

section \<open>A run\<close>

definition count_outcome :: "claimOutcome \<Rightarrow> RunResult \<Rightarrow> RunResult" where
  "count_outcome outcome result = (case outcome of
     claimRevoked \<Rightarrow> result\<lparr>rr_Revoked := rr_Revoked result + 1\<rparr>
   | claimRetried \<Rightarrow> result\<lparr>rr_Retried := rr_Retried result + 1\<rparr>
   | claimManual \<Rightarrow> result\<lparr>rr_ManualRequired := rr_ManualRequired result + 1\<rparr>)"

fun claims_loop ::
  "Worker \<Rightarrow> worker_env \<Rightarrow> 'r worker_ops \<Rightarrow> nat \<Rightarrow> ClaimedRevocation list \<Rightarrow> RunResult \<Rightarrow> bool \<Rightarrow>
   ('r, RunResult \<times> bool) worker" where
  "claims_loop w v ops i [] result hadDeferred = yields (result, hadDeferred)"
| "claims_loop w v ops i (claim # claims) result hadDeferred = do {
     outcome \<leftarrow> processClaim w v ops i claim;
     case outcome of
       Inr done \<Rightarrow> claims_loop w v ops (Suc i) claims (count_outcome done result) hadDeferred
     | Inl err \<Rightarrow> do {
         let result' = result\<lparr>rr_Deferred := rr_Deferred result + 1\<rparr>;
         if err = ErrClaimDeferred then do {
           c \<leftarrow> look (we_ctx v) WorkerContext;
           if c \<noteq> None then yields (result', True) else claims_loop w v ops (Suc i) claims result' True }
         else claims_loop w v ops (Suc i) claims result' True } }"

text \<open>The accessors of the claims get the addresses from \<open>base\<close> on.\<close>

definition destroyClaims :: "nat \<Rightarrow> ('r, unit) worker" where
  "destroyClaims base = State_Monad.update (\<lambda>s. s\<lparr>ws_accessors :=
     take base (ws_accessors s) @ map (\<lambda>_. '''') (drop base (ws_accessors s))\<rparr>)"

definition zero_RunResult :: RunResult where
  "zero_RunResult = \<lparr>rr_PreparedRecovered = 0, rr_ManagedRecovered = 0, rr_ExhaustedRecovered = 0, rr_Claimed = 0,
     rr_Revoked = 0, rr_Retried = 0, rr_ManualRequired = 0, rr_Deferred = 0\<rparr>"

definition run_claims ::
  "Worker \<Rightarrow> worker_env \<Rightarrow> 'r worker_ops \<Rightarrow> RunResult \<Rightarrow> ('r, RunResult \<times> worker_error option) worker" where
  "run_claims w v ops result = do {
     let q = \<lparr>cr_WorkerID = wk_workerID w, cr_Limit = wk_claimLimit w, cr_LeaseDuration = wk_claimLease w\<rparr>;
     answer \<leftarrow> ask (\<lambda>h. wp_ClaimRevocations ops h q) (Claiming q);
     case answer of Inl _ \<Rightarrow> yields (result, Some ErrClaimFailed)
     | Inr claims \<Rightarrow> do {
         s \<leftarrow> State_Monad.get;
         let base = length (ws_accessors s);
         State_Monad.update (\<lambda>s. s\<lparr>ws_accessors := ws_accessors s @
           map (\<lambda>c. case cl_Accessor c of None \<Rightarrow> '''' | Some a \<Rightarrow> a) claims\<rparr>);
         (result, hadDeferred) \<leftarrow> claims_loop w v ops base claims (result\<lparr>rr_Claimed := int (length claims)\<rparr>) False;
         destroyClaims base;
         yields (result, if hadDeferred then Some ErrClaimDeferred else None) } }"

definition RunOnce ::
  "Worker option \<Rightarrow> worker_env \<Rightarrow> 'r worker_ops \<Rightarrow> ('r, RunResult \<times> worker_error option) worker" where
  "RunOnce worker v ops = (case worker of None \<Rightarrow> yields (zero_RunResult, Some ErrInvalidWorker) | Some w \<Rightarrow>
     if we_ctx_nil v then yields (zero_RunResult, Some ErrInvalidWorker) else do {
     let n = wk_recoveryLimit w;
     prepared \<leftarrow> ask (\<lambda>h. wp_RecoverPrepared ops h n) (RecoveredPrepared n);
     case prepared of Inl _ \<Rightarrow> yields (zero_RunResult, Some ErrRecoveryFailed) | Inr ps \<Rightarrow> do {
     let r1 = zero_RunResult\<lparr>rr_PreparedRecovered := int (length ps)\<rparr>;
     managed \<leftarrow> ask (\<lambda>h. wp_RecoverManaged ops h n) (RecoveredManaged n);
     case managed of Inl _ \<Rightarrow> yields (r1, Some ErrRecoveryFailed) | Inr ms \<Rightarrow> do {
     let r2 = r1\<lparr>rr_ManagedRecovered := int (length ms)\<rparr>;
     exhausted \<leftarrow> ask (\<lambda>h. wp_RecoverExhausted ops h n) (RecoveredExhausted n);
     case exhausted of Inl _ \<Rightarrow> yields (r2, Some ErrRecoveryFailed) | Inr es \<Rightarrow>
       run_claims w v ops (r2\<lparr>rr_ExhaustedRecovered := int (length es)\<rparr>) } } })"

end
