(* ===== verification/Worker_Safety.thy ===== *)
theory Worker_Safety
  imports Revocation_Worker Credential_Safety State_Triples
begin

text \<open>
  What the revocation worker guarantees, whatever the clock, the revokers, the heartbeats and the
  other users of the repository do: it calls a revocation complete only after the revoker registered
  for exactly that credential confirmed it, it counts what it did, it keeps no accessor, and the
  records it reports as revoked are revoked for good. The last needs what the worker relies on of
  the repository, the locale \<open>revocation_store\<close>, interpreted on the in-memory repository.
\<close>

section \<open>How long a retry waits\<close>

lemma retry_upper_closed:
  assumes "0 < upper" and "upper \<le> MaxRevocationRetryDelay"
  shows "retry_upper attempt current upper = min MaxRevocationRetryDelay (upper * 2 ^ nat (attempt - current))"
  using assms
proof (induction attempt current upper rule: retry_upper.induct)
  case (1 attempt current upper)
  show ?case
  proof (cases "current < attempt \<and> upper < MaxRevocationRetryDelay")
    case True
    then have power: "(2::int) ^ nat (attempt - current) = 2 * 2 ^ nat (attempt - (current + 1))"
      by (simp add: power_Suc [symmetric] Suc_nat_eq_nat_zadd1 algebra_simps del: power_Suc)
    have one: "(1::int) \<le> 2 ^ nat (attempt - (current + 1))" by simp
    show ?thesis
    proof (cases "MaxRevocationRetryDelay div 2 < upper")
      case big: True
      then have "MaxRevocationRetryDelay \<le> upper * 2" by (simp add: credential_durations)
      moreover have "upper * 2 \<le> upper * 2 ^ nat (attempt - current)"
        unfolding power using one 1(2) by simp
      ultimately have "MaxRevocationRetryDelay \<le> upper * 2 ^ nat (attempt - current)" by (rule order_trans)
      then show ?thesis using True big by (simp add: retry_upper.simps min_absorb1)
    next
      case False
      then have "upper * 2 \<le> MaxRevocationRetryDelay" by (simp add: credential_durations)
      with 1 True False show ?thesis by (simp add: retry_upper.simps [of attempt current upper] power mult.assoc)
    qed
  next
    case False
    moreover have "upper \<le> upper * 2 ^ nat (attempt - current)" using 1(2) by simp
    ultimately show ?thesis using 1(2,3) by (auto simp: retry_upper.simps)
  qed
qed

definition delay_bound :: "int \<Rightarrow> duration" where
  "delay_bound attempt = min MaxRevocationRetryDelay (MinRevocationRetryDelay * 2 ^ nat (attempt - 1))"

lemma retry_upper_bound:
  "retry_upper (if attempt < 1 then 1 else attempt) 1 MinRevocationRetryDelay = delay_bound attempt"
proof -
  have "0 < MinRevocationRetryDelay" "MinRevocationRetryDelay \<le> MaxRevocationRetryDelay"
    by (simp_all add: credential_durations)
  then show ?thesis by (simp add: retry_upper_closed delay_bound_def)
qed

lemma delay_bound_ge: "MinRevocationRetryDelay \<le> delay_bound attempt"
  by (simp add: delay_bound_def credential_durations)

lemma draw_delay:
  assumes "MinRevocationRetryDelay < upper"
  shows "case draw_below n (upper - MinRevocationRetryDelay + 1) of
      None \<Rightarrow> True | Some k \<Rightarrow> 0 \<le> k \<and> MinRevocationRetryDelay + k \<le> upper"
proof (cases n)
  case (Some m)
  have "int m mod (upper - MinRevocationRetryDelay + 1) < upper - MinRevocationRetryDelay + 1"
    using assms by (intro pos_mod_bound) simp
  moreover have "0 \<le> int m mod (upper - MinRevocationRetryDelay + 1)"
    using assms by (intro pos_mod_sign) simp
  ultimately show ?thesis using Some by (simp add: draw_below_def)
qed (simp add: draw_below_def)

section \<open>Looking up a revoker\<close>

text \<open>The registry finds exactly what was registered: there is no default and no other identity's revoker.\<close>

lemma revokers_loop_lookup:
  "revokers_loop gs revokers = Some revokers' \<Longrightarrow>
   map_of revokers' i = Some v \<longleftrightarrow> map_of revokers i = Some v \<or> (\<exists>g\<in>set gs. rn_Identity g = i \<and> rn_Revoker g = Some v)"
proof (induction gs arbitrary: revokers)
  case (Cons g gs)
  then show ?case by (fastforce simp: update_conv split: option.splits if_splits)
qed simp

lemma ResolveRevoker_registered:
  assumes "NewRegistry registrations = Inr registry"
  shows "ResolveRevoker registry ended identity = Some revoker \<longleftrightarrow> \<not> ended \<and> validIdentity identity \<and>
    (\<exists>g\<in>set registrations. rn_Identity g = identity \<and> rn_Revoker g = Some revoker)"
  using assms revokers_loop_lookup [of registrations "[]" "rgy_revokers registry" identity revoker]
  by (auto simp: NewRegistry_def ResolveRevoker_def split: if_splits option.splits)

section \<open>Triples for worker programs\<close>

lemma ensures_look_then:
  assumes "\<And>a. ensures (\<lambda>s'. \<exists>s. P s \<and> a = f (ws_log s) \<and> s' = s\<lparr>ws_log := ws_log s @ [e a]\<rparr>) (k a) Q"
  shows "ensures P (State_Monad.bind (look f e) k) Q"
  by (rule ensures_bind [OF _ assms]) (auto simp: ensures_def look_def Let_def)

lemma ensures_ask_then:
  assumes "\<And>a. ensures (\<lambda>s'. \<exists>s r. P s \<and> operation (ws_log s) (ws_repository s) = (r, a) \<and>
      s' = s\<lparr>ws_repository := r, ws_log := ws_log s @ [e a]\<rparr>) (k a) Q"
  shows "ensures P (State_Monad.bind (ask operation e) k) Q"
  by (rule ensures_bind [OF _ assms]) (fastforce simp: ensures_def ask_def Let_def split: prod.splits)

text \<open>The events of the heartbeat goroutine, and those that do not say that a beat was refused.\<close>

fun beating :: "worker_event \<Rightarrow> bool" where
  "beating (Ticking _) = True"
| "beating (Beating _ _) = True"
| "beating _ = False"

fun accepted :: "worker_event \<Rightarrow> bool" where
  "accepted (Ticking _) = True"
| "accepted (Beating _ answer) = (\<not> isl answer)"
| "accepted _ = False"

lemma heartbeats_run:
  "\<exists>bs r lost. run_state (heartbeats w ops c n) s =
     ((), s\<lparr>ws_repository := r, ws_log := ws_log s @ bs, ws_lost := lost\<rparr>) \<and>
     list_all beating bs \<and> (ws_lost s \<longrightarrow> lost) \<and> (\<not> lost \<longrightarrow> list_all accepted bs)"
proof (induction n arbitrary: s)
  case 0
  show ?case by (intro exI [of _ "[]"] exI [of _ "ws_repository s"] exI [of _ "ws_lost s"]) simp
next
  case (Suc n)
  let ?q = "\<lparr>hb_Fence = cl_Fence c, hb_Extension = wk_claimLease w\<rparr>"
  obtain r a where beat: "wp_Heartbeat ops (ws_log s) ?q (ws_repository s) = (r, a)" by fastforce
  let ?t = "s\<lparr>ws_repository := r, ws_log := ws_log s @ [Beating ?q a]\<rparr>"
  show ?case
  proof (cases "ws_lost s")
    case True
    then show ?thesis by (intro exI [of _ "[]"] exI [of _ "ws_repository s"] exI [of _ True]) simp
  next
    case lively: False
    show ?thesis
    proof (cases "isl a")
      case True
      then show ?thesis using lively beat
        by (intro exI [of _ "[Beating ?q a]"] exI [of _ r] exI [of _ True])
          (simp add: ask_def Let_def State_Monad.update_def)
    next
      case False
      from Suc.IH [of ?t] obtain bs r' lost where
        run: "run_state (heartbeats w ops c n) ?t =
          ((), ?t\<lparr>ws_repository := r', ws_log := ws_log ?t @ bs, ws_lost := lost\<rparr>)"
        and bs: "list_all beating bs" "\<not> lost \<longrightarrow> list_all accepted bs" by blast
      from False lively beat bs run show ?thesis
        by (intro exI [of _ "Beating ?q a # bs"] exI [of _ r'] exI [of _ lost]) (simp add: ask_def Let_def)
    qed
  qed
qed

lemma beats_run:
  "\<exists>bs r lost. run_state (beats w v ops c) s =
     ((), s\<lparr>ws_repository := r, ws_log := ws_log s @ bs, ws_lost := lost\<rparr>) \<and>
     list_all beating bs \<and> (ws_lost s \<longrightarrow> lost) \<and> (\<not> lost \<longrightarrow> list_all accepted bs)"
proof -
  let ?n = "we_ticks v (ws_log s)" and ?t = "s\<lparr>ws_log := ws_log s @ [Ticking (we_ticks v (ws_log s))]\<rparr>"
  from heartbeats_run [of w ops c ?n ?t] obtain bs r lost where
    run: "run_state (heartbeats w ops c ?n) ?t = ((), ?t\<lparr>ws_repository := r, ws_log := ws_log ?t @ bs, ws_lost := lost\<rparr>)"
    and "list_all beating bs" "ws_lost ?t \<longrightarrow> lost" "\<not> lost \<longrightarrow> list_all accepted bs" by blast
  then show ?thesis
    by (intro exI [of _ "Ticking ?n # bs"] exI [of _ r] exI [of _ lost]) (simp add: beats_def look_def Let_def)
qed

lemma ensures_beats_then:
  assumes "ensures (\<lambda>s'. \<exists>s bs r lost. P s \<and> s' = s\<lparr>ws_repository := r, ws_log := ws_log s @ bs, ws_lost := lost\<rparr> \<and>
      list_all beating bs \<and> (ws_lost s \<longrightarrow> lost) \<and> (\<not> lost \<longrightarrow> list_all accepted bs)) (k ()) Q"
  shows "ensures P (State_Monad.bind (beats w v ops c) k) Q"
proof (rule ensures_bind [where R = "\<lambda>_ s'. \<exists>s bs r lost. P s \<and>
      s' = s\<lparr>ws_repository := r, ws_log := ws_log s @ bs, ws_lost := lost\<rparr> \<and>
      list_all beating bs \<and> (ws_lost s \<longrightarrow> lost) \<and> (\<not> lost \<longrightarrow> list_all accepted bs)"])
  show "ensures P (beats w v ops c) (\<lambda>_ s'. \<exists>s bs r lost. P s \<and>
      s' = s\<lparr>ws_repository := r, ws_log := ws_log s @ bs, ws_lost := lost\<rparr> \<and>
      list_all beating bs \<and> (ws_lost s \<longrightarrow> lost) \<and> (\<not> lost \<longrightarrow> list_all accepted bs))"
  proof (rule ensuresI)
    fix s u s' assume "P s" "run_state (beats w v ops c) s = (u, s')"
    with beats_run [of w v ops c s] show "\<exists>s bs r lost. P s \<and>
      s' = s\<lparr>ws_repository := r, ws_log := ws_log s @ bs, ws_lost := lost\<rparr> \<and>
      list_all beating bs \<and> (ws_lost s \<longrightarrow> lost) \<and> (\<not> lost \<longrightarrow> list_all accepted bs)" by (metis prod.inject)
  qed
qed (use assms in simp)


section \<open>Complete only what was revoked\<close>

definition claimed :: "ClaimedRevocation \<Rightarrow> worker_history \<Rightarrow> bool" where
  "claimed c h \<longleftrightarrow> (\<exists>q claims. Claiming q (Inr claims) \<in> set h \<and> c \<in> set claims)"

definition revoker_for :: "Worker \<Rightarrow> ClaimedRevocation \<Rightarrow> nat \<Rightarrow> bool" where
  "revoker_for w c revoker \<longleftrightarrow> validIdentity (identityFrom (cl_Revocation c)) \<and>
     map_of (rgy_revokers (wk_registry w)) (identityFrom (cl_Revocation c)) = Some revoker"

text \<open>
  \<open>confirmed\<close>: the last thing that happened, but for heartbeats, is that the revoker was given the
  accessor of the claim and confirmed that it is revoked, and every beat until then was accepted.
\<close>

definition confirmed :: "Worker \<Rightarrow> ClaimedRevocation \<Rightarrow> worker_history \<Rightarrow> bool" where
  "confirmed w c h \<longleftrightarrow> (\<exists>before revoker accessor during after.
     h = before @ RemoteStarted revoker (identityFrom (cl_Revocation c)) accessor # during @
       RemoteEnded (RemoteResult None) # after \<and>
     revoker_for w c revoker \<and> cl_Accessor c = Some accessor \<and> list_all accepted during \<and> list_all beating after)"

fun worker_rule :: "Worker \<Rightarrow> worker_history \<Rightarrow> worker_event \<Rightarrow> bool" where
  "worker_rule w h (RemoteStarted revoker identity accessor) = (\<exists>c. claimed c h \<and> revoker_for w c revoker \<and>
     identity = identityFrom (cl_Revocation c) \<and> cl_Accessor c = Some accessor)"
| "worker_rule w h (Completing f _) = (\<exists>c. claimed c h \<and> cl_Fence c = f \<and> confirmed w c h)"
| "worker_rule w h (Retrying q _) = (\<exists>c. claimed c h \<and> cl_Fence c = rt_Fence q \<and>
     MinRevocationRetryDelay \<le> rt_Delay q \<and> rt_Delay q \<le> delay_bound (rv_Attempt (cl_Revocation c)) \<and>
     rt_FailureDetail q = failureDetail (rt_FailureCode q))"
| "worker_rule w h (RequiringManual q _) = (\<exists>c. claimed c h \<and> cl_Fence c = rm_Fence q \<and>
     rm_FailureCode q = FailureInvalidReference)"
| "worker_rule w h (Beating q _) = (\<exists>c. claimed c h \<and> cl_Fence c = hb_Fence q)"
| "worker_rule w h _ = True"

text \<open>
  \<open>following w G\<close>: the calls so far obey the rules and \<open>G\<close> is known of the state. What is known is
  \<open>steady\<close>: more calls, beats and answers do not make it false.
\<close>

definition following :: "Worker \<Rightarrow> ('r worker_state \<Rightarrow> bool) \<Rightarrow> 'r worker_state \<Rightarrow> bool" where
  "following w G s \<longleftrightarrow> obeys (worker_rule w) (ws_log s) \<and> G s"

definition steady :: "('r worker_state \<Rightarrow> bool) \<Rightarrow> bool" where
  "steady G \<longleftrightarrow> (\<forall>s h r slot lost. G s \<longrightarrow>
     G (s\<lparr>ws_repository := r, ws_log := ws_log s @ h, ws_slot := slot, ws_lost := lost\<rparr>))"

lemma steadyD: "steady G \<Longrightarrow> G s \<Longrightarrow> G (s\<lparr>ws_repository := r, ws_log := ws_log s @ h, ws_slot := slot, ws_lost := lost\<rparr>)"
  by (simp add: steady_def)

lemma steady_log: "steady G \<Longrightarrow> G s \<Longrightarrow> G (s\<lparr>ws_log := ws_log s @ h\<rparr>)"
  using steadyD [where G = G and s = s and h = h and r = "ws_repository s" and slot = "ws_slot s" and lost = "ws_lost s"] by simp

lemma steady_answer: "steady G \<Longrightarrow> G s \<Longrightarrow> G (s\<lparr>ws_repository := r, ws_log := ws_log s @ h\<rparr>)"
  using steadyD [where G = G and s = s and h = h and r = r and slot = "ws_slot s" and lost = "ws_lost s"] by simp

lemma steady_beats: "steady G \<Longrightarrow> G s \<Longrightarrow> G (s\<lparr>ws_repository := r, ws_log := ws_log s @ h, ws_lost := lost\<rparr>)"
  using steadyD [where G = G and s = s and h = h and r = r and slot = "ws_slot s" and lost = lost] by simp

lemma claimed_append: "claimed c h \<Longrightarrow> claimed c (h @ g)"
  by (auto simp: claimed_def)

definition holds_claim :: "nat \<Rightarrow> ClaimedRevocation \<Rightarrow> 'r worker_state \<Rightarrow> bool" where
  "holds_claim i c s \<longleftrightarrow> claimed c (ws_log s) \<and>
     ws_accessors s ! i = (case cl_Accessor c of None \<Rightarrow> '''' | Some a \<Rightarrow> a)"

lemma steady_claim: "steady (holds_claim i c)"
  by (auto simp: steady_def holds_claim_def intro: claimed_append)

lemma following_look_then:
  assumes "steady G" and "\<And>a s. G s \<Longrightarrow> worker_rule w (ws_log s) (e a)"
    and "\<And>a. ensures (following w G) (k a) Q"
  shows "ensures (following w G) (State_Monad.bind (look f e) k) Q"
  by (rule ensures_look_then, rule ensures_conseq [OF assms(3)])
    (use assms(1,2) in \<open>auto simp: following_def intro: steady_log\<close>)

lemma following_ask_then:
  assumes "steady G" and "\<And>a s. G s \<Longrightarrow> worker_rule w (ws_log s) (e a)"
    and "\<And>a. ensures (following w G) (k a) Q"
  shows "ensures (following w G) (State_Monad.bind (ask operation e) k) Q"
  by (rule ensures_ask_then, rule ensures_conseq [OF assms(3)])
    (use assms(1,2) in \<open>auto simp: following_def intro: steady_answer\<close>)

text \<open>Every beat carries the fence of the claim.\<close>

lemma heartbeats_obey:
  assumes "claimed c (ws_log s)" and "obeys (worker_rule w) (ws_log s)"
  shows "obeys (worker_rule w) (ws_log (snd (run_state (heartbeats w ops c n) s)))"
  using assms
proof (induction n arbitrary: s)
  case (Suc n)
  let ?q = "\<lparr>hb_Fence = cl_Fence c, hb_Extension = wk_claimLease w\<rparr>"
  obtain r a where beat: "wp_Heartbeat ops (ws_log s) ?q (ws_repository s) = (r, a)" by fastforce
  let ?t = "s\<lparr>ws_repository := r, ws_log := ws_log s @ [Beating ?q a]\<rparr>"
  have "obeys (worker_rule w) (ws_log ?t)" "claimed c (ws_log ?t)"
    using Suc.prems by (auto simp: claimed_append)
  from Suc.IH [OF this(2,1)] this(1) Suc.prems(2) beat show ?case
    by (auto simp: ask_def Let_def State_Monad.update_def)
qed simp

lemma beats_obey:
  assumes "claimed c (ws_log s)" and "obeys (worker_rule w) (ws_log s)"
  shows "obeys (worker_rule w) (ws_log (snd (run_state (beats w v ops c) s)))"
proof -
  let ?n = "we_ticks v (ws_log s)"
  have "obeys (worker_rule w) (ws_log s @ [Ticking ?n])" "claimed c (ws_log s @ [Ticking ?n])"
    using assms by (auto simp: claimed_append)
  then show ?thesis
    using heartbeats_obey [of c "s\<lparr>ws_log := ws_log s @ [Ticking ?n]\<rparr>" w ops ?n]
    by (simp add: beats_def look_def Let_def)
qed

lemma following_beats:
  assumes "steady G" and "\<And>s. G s \<Longrightarrow> claimed c (ws_log s)"
  shows "ensures (following w G) (beats w v ops c) (\<lambda>_. following w G)"
proof (rule ensuresI)
  fix s u s' assume "following w G s" and run: "run_state (beats w v ops c) s = (u, s')"
  then have G: "G s" "obeys (worker_rule w) (ws_log s)" by (auto simp: following_def)
  from beats_run [of w v ops c s] run obtain bs r lost
    where s': "s' = s\<lparr>ws_repository := r, ws_log := ws_log s @ bs, ws_lost := lost\<rparr>" by auto
  have "G s'" unfolding s' by (rule steady_beats [OF assms(1) G(1)])
  with beats_obey [OF assms(2) [OF G(1)] G(2), of v ops] run show "following w G s'"
    by (simp add: following_def)
qed

lemma following_beats_then:
  assumes "steady G" and "\<And>s. G s \<Longrightarrow> claimed c (ws_log s)" and "ensures (following w G) (k ()) Q"
  shows "ensures (following w G) (State_Monad.bind (beats w v ops c) k) Q"
  by (rule ensures_bind [OF following_beats [OF assms(1,2)]]) (use assms(3) in auto)

lemma following_yields: "ensures (following w G) (yields a) (\<lambda>_. following w G)"
  by (rule ensures_give) simp


lemma following_operation_ended_then:
  assumes "steady G" and "\<And>a. ensures (following w G) (k a) Q"
  shows "ensures (following w G) (State_Monad.bind (operation_ended v) k) Q"
proof (rule ensures_bind [OF _ assms(2)])
  show "ensures (following w G) (operation_ended v) (\<lambda>_. following w G)"
    unfolding operation_ended_def
    by (intro following_look_then [OF assms(1)] ensures_get_then ensures_give) auto
qed

lemma following_delay_then:
  assumes "steady G" and "\<And>d. MinRevocationRetryDelay \<le> d \<Longrightarrow> d \<le> delay_bound attempt \<Longrightarrow> ensures (following w G) (k d) Q"
  shows "ensures (following w G) (State_Monad.bind (retryDelay v attempt) k) Q"
proof (rule ensures_bind [where R = "\<lambda>d s. MinRevocationRetryDelay \<le> d \<and> d \<le> delay_bound attempt \<and> following w G s"])
  have "ensures (following w G) (yields (case draw_below n (delay_bound attempt - MinRevocationRetryDelay + 1) of
        None \<Rightarrow> MinRevocationRetryDelay | Some offset \<Rightarrow> MinRevocationRetryDelay + offset))
      (\<lambda>d s. MinRevocationRetryDelay \<le> d \<and> d \<le> delay_bound attempt \<and> following w G s)"
    if "MinRevocationRetryDelay < delay_bound attempt" for n
    by (rule ensures_give) (use that draw_delay [OF that, of n] in \<open>auto split: option.splits\<close>)
  then show "ensures (following w G) (retryDelay v attempt)
      (\<lambda>d s. MinRevocationRetryDelay \<le> d \<and> d \<le> delay_bound attempt \<and> following w G s)"
    unfolding retryDelay_def Let_def retry_upper_bound
    by (intro ensures_if following_look_then [OF assms(1)] ensures_give [of _ _ MinRevocationRetryDelay])
      (auto simp: delay_bound_ge)
  show "ensures (\<lambda>s. MinRevocationRetryDelay \<le> d \<and> d \<le> delay_bound attempt \<and> following w G s) (k d) Q" for d
    using assms(2) [of d] by (auto simp: ensures_def)
qed

lemma following_ackFailure:
  assumes "steady G" and claim: "\<And>s. G s \<Longrightarrow> claimed c (ws_log s)" and "manual \<Longrightarrow> code = FailureInvalidReference"
  shows "ensures (following w G) (ackFailure w v ops c code manual) (\<lambda>_. following w G)"
proof (cases manual)
  case True
  with assms(3) show ?thesis
    unfolding ackFailure_def Let_def
    by (auto intro!: following_beats_then [OF assms(1)] following_ask_then [OF assms(1)] following_yields exI [of _ c] intro: claim)
next
  case False
  then show ?thesis
    unfolding ackFailure_def Let_def
    by (auto intro!: following_delay_then [OF assms(1)] following_beats_then [OF assms(1)]
        following_ask_then [OF assms(1)] following_yields exI [of _ c] intro: claim)
qed

lemma classifyFailure_manual: "classifyFailure err = (code, True) \<Longrightarrow> code = FailureInvalidReference"
  by (auto simp: classifyFailure_def split: if_splits option.splits ErrorClass.splits)

text \<open>
  The remote call: from its start to the answer only the heartbeat goroutine acts. \<open>calling\<close> is what
  is known meanwhile.
\<close>

definition calling :: "Worker \<Rightarrow> nat \<Rightarrow> ClaimedRevocation \<Rightarrow> 'r worker_state \<Rightarrow> bool" where
  "calling w i c s \<longleftrightarrow> holds_claim i c s \<and> (\<exists>before revoker accessor during.
     ws_log s = before @ RemoteStarted revoker (identityFrom (cl_Revocation c)) accessor # during \<and>
     revoker_for w c revoker \<and> cl_Accessor c = Some accessor \<and> list_all beating during \<and>
     (\<not> ws_lost s \<longrightarrow> list_all accepted during))"

lemma calling_beats:
  "calling w i c s \<Longrightarrow> list_all beating bs \<Longrightarrow> (ws_lost s \<longrightarrow> lost) \<Longrightarrow> (\<not> lost \<longrightarrow> list_all accepted bs) \<Longrightarrow>
   calling w i c (s\<lparr>ws_repository := r, ws_log := ws_log s @ bs, ws_lost := lost\<rparr>)"
  unfolding calling_def by (fastforce intro: steady_beats [OF steady_claim])

definition answered :: "Worker \<Rightarrow> nat \<Rightarrow> ClaimedRevocation \<Rightarrow> 'r worker_state \<Rightarrow> bool" where
  "answered w i c s \<longleftrightarrow> holds_claim i c s \<and> confirmed w c (ws_log s)"

lemma calling_answered:
  assumes "calling w i c s" and "\<not> ws_lost s"
  shows "answered w i c (s\<lparr>ws_log := ws_log s @ [RemoteEnded (RemoteResult None)]\<rparr>)"
proof -
  from assms obtain before revoker accessor during where
    "ws_log s = before @ RemoteStarted revoker (identityFrom (cl_Revocation c)) accessor # during"
    "revoker_for w c revoker" "cl_Accessor c = Some accessor" "list_all accepted during"
    by (auto simp: calling_def)
  then have "confirmed w c (ws_log s @ [RemoteEnded (RemoteResult None)])"
    unfolding confirmed_def
    by (intro exI [of _ before] exI [of _ revoker] exI [of _ accessor] exI [of _ during] exI [of _ "[]"]) simp
  with assms(1) show ?thesis
    by (simp add: answered_def calling_def steady_log [OF steady_claim])
qed

lemma answered_beats:
  assumes "answered w i c s" and "list_all beating bs"
  shows "answered w i c (s\<lparr>ws_repository := r, ws_log := ws_log s @ bs, ws_lost := lost\<rparr>)"
proof -
  from assms(1) obtain before revoker accessor during after where
    "ws_log s = before @ RemoteStarted revoker (identityFrom (cl_Revocation c)) accessor # during @
       RemoteEnded (RemoteResult None) # after"
    "revoker_for w c revoker" "cl_Accessor c = Some accessor" "list_all accepted during" "list_all beating after"
    by (auto simp: answered_def confirmed_def)
  with assms(2) have "confirmed w c (ws_log s @ bs)"
    unfolding confirmed_def
    by (intro exI [of _ before] exI [of _ revoker] exI [of _ accessor] exI [of _ during] exI [of _ "after @ bs"]) simp
  with assms(1) show ?thesis by (simp add: answered_def steady_beats [OF steady_claim])
qed


lemma following_complete:
  "ensures (following w (answered w i c))
     (do { beats w v ops c;
           answer \<leftarrow> ask (\<lambda>h. wp_CompleteRevocation ops h (cl_Fence c)) (Completing (cl_Fence c));
           yields (if isl answer then Inl ErrClaimDeferred else Inr claimRevoked) })
     (\<lambda>_. following w (holds_claim i c))"
proof (rule ensures_bind [where R = "\<lambda>_. following w (answered w i c)"])
  show "ensures (following w (answered w i c)) (beats w v ops c) (\<lambda>_. following w (answered w i c))"
  proof (rule ensuresI)
    fix s u s' assume "following w (answered w i c) s" and run: "run_state (beats w v ops c) s = (u, s')"
    then have G: "answered w i c s" "obeys (worker_rule w) (ws_log s)" "claimed c (ws_log s)"
      by (auto simp: following_def answered_def holds_claim_def)
    from beats_run [of w v ops c s] run obtain bs r lost where "list_all beating bs"
      and s': "s' = s\<lparr>ws_repository := r, ws_log := ws_log s @ bs, ws_lost := lost\<rparr>" by auto
    then have "answered w i c s'" using answered_beats [OF G(1)] by simp
    with beats_obey [OF G(3,2), of v ops] run show "following w (answered w i c) s'" by (simp add: following_def)
  qed
  have "worker_rule w (ws_log s) (Completing (cl_Fence c) a)" if "answered w i c s" for s :: "'a worker_state" and a
    using that by (auto simp: answered_def holds_claim_def)
  then show "ensures (following w (answered w i c))
      (do { answer \<leftarrow> ask (\<lambda>h. wp_CompleteRevocation ops h (cl_Fence c)) (Completing (cl_Fence c));
            yields (if isl answer then Inl ErrClaimDeferred else Inr claimRevoked) })
      (\<lambda>_. following w (holds_claim i c))"
    by (intro ensures_ask_then ensures_give)
      (auto simp: following_def answered_def intro: steady_answer [OF steady_claim])
qed

lemma holds_claimD: "holds_claim i c s \<Longrightarrow> claimed c (ws_log s)"
  by (simp add: holds_claim_def)

lemma claim_ackFailure:
  "(manual \<Longrightarrow> code = FailureInvalidReference) \<Longrightarrow>
   ensures (following w (holds_claim i c)) (ackFailure w v ops c code manual) (\<lambda>_. following w (holds_claim i c))"
  by (rule following_ackFailure [OF steady_claim holds_claimD])

lemma calling_ended: "calling w i c s \<Longrightarrow> holds_claim i c (s\<lparr>ws_log := ws_log s @ h\<rparr>)"
  by (simp add: calling_def steady_log [OF steady_claim])

lemma following_remote:
  "ensures (following w (calling w i c))
     (do { wait \<leftarrow> look f RemoteEnded; after_remote w v ops c wait }) (\<lambda>_. following w (holds_claim i c))"
proof (rule ensures_look_then)
  fix wait
  let ?P = "\<lambda>s'. \<exists>s. following w (calling w i c) s \<and> wait = f (ws_log s) \<and>
      s' = s\<lparr>ws_log := ws_log s @ [RemoteEnded wait]\<rparr>"
  let ?Q = "\<lambda>_. following w (holds_claim i c)"
  have weak: "following w (holds_claim i c) s'" if "?P s'" for s'
    using that by (auto simp: following_def intro: calling_ended)
  have finished: "ensures ?P (yields a) ?Q" for a by (rule ensures_give) (rule weak)
  show "ensures ?P (after_remote w v ops c wait) ?Q"
  proof (cases wait)
    case RemoteTimedOut
    have "ensures ?P (ackFailure w v ops c FailureTimeout False) ?Q"
      by (rule ensures_conseq [OF claim_ackFailure]) (simp, rule weak, simp_all)
    with RemoteTimedOut show ?thesis by (simp add: after_remote_def)
  next
    case WaitAbandoned
    then have "after_remote w v ops c wait = yields (Inl ErrClaimDeferred)" by (simp add: after_remote_def)
    then show ?thesis using finished by simp
  next
    case (RemoteResult result)
    show ?thesis
    proof (cases result)
      case (Some err)
      have "ensures (following w (holds_claim i c)) (do { s \<leftarrow> State_Monad.get;
          if ws_lost s then yields (Inl ErrClaimDeferred) else do {
          c' \<leftarrow> look (we_ctx v) WorkerContext;
          if c' \<noteq> None then yields (Inl ErrClaimDeferred)
          else (case classifyFailure err of (code, manual) \<Rightarrow> ackFailure w v ops c code manual) } }) ?Q"
        by (rule ensures_get_then, rule ensures_conseq [where P = "following w (holds_claim i c)"])
          (auto intro!: ensures_if following_yields following_look_then [OF steady_claim] ensures_pair
            claim_ackFailure dest: classifyFailure_manual)
      with RemoteResult Some show ?thesis
        by (simp add: after_remote_def) (erule ensures_conseq, simp_all add: weak)
    next
      case None
      have answer: "following w (answered w i c) s'" if "?P s'" "\<not> ws_lost s'" for s'
        using that RemoteResult None by (auto simp: following_def intro: calling_answered)
      have "ensures ?P (do { s \<leftarrow> State_Monad.get;
          if ws_lost s then yields (Inl ErrClaimDeferred) else do {
          beats w v ops c;
          answer \<leftarrow> ask (\<lambda>h. wp_CompleteRevocation ops h (cl_Fence c)) (Completing (cl_Fence c));
          yields (if isl answer then Inl ErrClaimDeferred else Inr claimRevoked) } }) ?Q"
        by (intro ensures_get_then ensures_if ensures_give ensures_conseq [OF following_complete [where i = i]])
          (use weak answer in blast)+
      with RemoteResult None show ?thesis by (simp add: after_remote_def)
    qed
  qed
qed

lemma following_body:
  "ensures (following w (holds_claim i c)) (claim_body w v ops i c) (\<lambda>_. following w (holds_claim i c))"
proof -
  let ?G = "following w (holds_claim i c)" and ?Q = "\<lambda>_. following w (holds_claim i c)"
  note fails = claim_ackFailure
  have call: "ensures (\<lambda>s. ?G s \<and> s = x) (do { State_Monad.update (\<lambda>s. s\<lparr>ws_slot := True\<rparr>);
      _ \<leftarrow> look (\<lambda>_. ()) (\<lambda>_. RemoteStarted revoker (identityFrom (cl_Revocation c)) (ws_accessors x ! i));
      beats w v ops c;
      wait \<leftarrow> look (we_remote v revoker (ws_accessors x ! i)) RemoteEnded;
      after_remote w v ops c wait }) ?Q"
    if "revoker_for w c revoker" "cl_Accessor c \<noteq> None" for revoker x
  proof -
    from that(2) obtain accessor where accessor: "cl_Accessor c = Some accessor" by blast
    have started: "following w (calling w i c)
        (x\<lparr>ws_slot := True, ws_log := ws_log x @ [RemoteStarted revoker (identityFrom (cl_Revocation c)) (ws_accessors x ! i)]\<rparr>)"
      if "?G x"
    proof -
      from that accessor have "ws_accessors x ! i = accessor" "claimed c (ws_log x)" "obeys (worker_rule w) (ws_log x)"
        by (simp_all add: following_def holds_claim_def)
      moreover have "\<exists>before revoker' a during. ws_log x @ [RemoteStarted revoker (identityFrom (cl_Revocation c)) accessor] =
            before @ RemoteStarted revoker' (identityFrom (cl_Revocation c)) a # during \<and> revoker_for w c revoker' \<and>
            cl_Accessor c = Some a \<and> list_all beating during \<and> (\<not> ws_lost x \<longrightarrow> list_all accepted during)"
        using accessor \<open>revoker_for w c revoker\<close>
        by (intro exI [of _ "ws_log x"] exI [of _ revoker] exI [of _ accessor] exI [of _ "[]"]) simp
      ultimately show ?thesis
        using accessor \<open>revoker_for w c revoker\<close>
        by (auto simp: following_def calling_def holds_claim_def claimed_append)
    qed
    have beating: "ensures (following w (calling w i c)) (beats w v ops c) (\<lambda>_. following w (calling w i c))"
    proof (rule ensuresI)
      fix s u s' assume "following w (calling w i c) s" and run: "run_state (beats w v ops c) s = (u, s')"
      then have G: "calling w i c s" "obeys (worker_rule w) (ws_log s)" "claimed c (ws_log s)"
        by (auto simp: following_def calling_def holds_claim_def)
      from beats_run [of w v ops c s] run obtain bs r lost where
        "list_all beating bs" "ws_lost s \<longrightarrow> lost" "\<not> lost \<longrightarrow> list_all accepted bs"
        and s': "s' = s\<lparr>ws_repository := r, ws_log := ws_log s @ bs, ws_lost := lost\<rparr>" by auto
      with calling_beats [OF G(1)] have "calling w i c s'" by simp
      with beats_obey [OF G(3,2), of v ops] run show "following w (calling w i c) s'" by (simp add: following_def)
    qed
    show ?thesis
      by (rule ensures_update_then, rule ensures_look_then,
          rule ensures_bind [OF ensures_conseq [OF beating] following_remote]) (use started in auto)
  qed
  have unresolved: "ensures ?G (do { ended \<leftarrow> operation_ended v;
      if ended then yields (Inl ErrClaimDeferred) else ackFailure w v ops c FailureIssuerUnavailable False }) ?Q"
    by (intro following_operation_ended_then [OF steady_claim] ensures_if following_yields fails) simp
  have resolved: "ensures ?G (if cl_Accessor c = None then ackFailure w v ops c FailureInvalidReference True else do {
       released \<leftarrow> look (we_released v) SlotReleased;
       s \<leftarrow> State_Monad.get;
       if ws_slot s \<and> \<not> released then yields (Inl ErrClaimDeferred) else do {
       State_Monad.update (\<lambda>s. s\<lparr>ws_slot := True\<rparr>);
       _ \<leftarrow> look (\<lambda>_. ()) (\<lambda>_. RemoteStarted revoker (identityFrom (cl_Revocation c)) (ws_accessors s ! i));
       beats w v ops c;
       wait \<leftarrow> look (we_remote v revoker (ws_accessors s ! i)) RemoteEnded;
       after_remote w v ops c wait } }) ?Q" if "revoker_for w c revoker" for revoker
    by (intro ensures_if fails following_look_then [OF steady_claim] ensures_get_then call [OF that] ensures_give) auto
  have "revoker_for w c revoker" if "ResolveRevoker (wk_registry w) ended (identityFrom (cl_Revocation c)) = Some revoker"
    for ended revoker using that by (simp add: ResolveRevoker_def revoker_for_def split: if_splits)
  then show ?thesis
    unfolding claim_body_def Let_def
    by (intro following_beats_then [OF steady_claim holds_claimD] following_operation_ended_then [OF steady_claim]
        ensures_option unresolved resolved)
qed


text \<open>
  \<open>holding i claims\<close>: the claims still to be processed were handed out in this run, and their
  accessors are at the addresses from \<open>i\<close> on.
\<close>

definition holding :: "nat \<Rightarrow> ClaimedRevocation list \<Rightarrow> 'r worker_state \<Rightarrow> bool" where
  "holding i claims s \<longleftrightarrow> length (ws_accessors s) = i + length claims \<and>
     (\<forall>k < length claims. holds_claim (i + k) (claims ! k) s)"

lemma steady_holding: "steady (holding i claims)"
  using steady_claim unfolding steady_def holding_def by fastforce

lemma holding_Cons:
  assumes "holding i (c # claims) s"
  shows "holds_claim i c s"
    and "holding (Suc i) claims (s\<lparr>ws_accessors := (ws_accessors s)[i := x]\<rparr>)"
proof -
  from assms have all: "\<forall>k < Suc (length claims). holds_claim (i + k) ((c # claims) ! k) s"
    and l: "length (ws_accessors s) = Suc (i + length claims)" by (auto simp: holding_def)
  from all have "holds_claim (i + 0) ((c # claims) ! 0) s" by blast
  then show "holds_claim i c s" by simp
  have "holds_claim (Suc i + k) (claims ! k) (s\<lparr>ws_accessors := (ws_accessors s)[i := x]\<rparr>)" if "k < length claims" for k
    using all [rule_format, of "Suc k"] that l by (simp add: holds_claim_def)
  then show "holding (Suc i) claims (s\<lparr>ws_accessors := (ws_accessors s)[i := x]\<rparr>)"
    using l by (simp add: holding_def)
qed


text \<open>Processing a claim touches no accessor but its own, and the calls made stay made.\<close>

definition extends :: "('r, 'a) worker \<Rightarrow> bool" where
  "extends m \<longleftrightarrow> (\<forall>s. ws_accessors (snd (run_state m s)) = ws_accessors s \<and>
     (\<exists>h. ws_log (snd (run_state m s)) = ws_log s @ h))"

named_theorems frame_rules \<open>programs that touch no accessor\<close>

lemma extends_yields [frame_rules]: "extends (yields a)"
  by (simp add: extends_def)

lemma extends_bind [frame_rules]:
  "extends m \<Longrightarrow> (\<And>a. extends (k a)) \<Longrightarrow> extends (State_Monad.bind m k)"
  unfolding extends_def by (auto split: prod.splits) (metis snd_conv append.assoc)+

lemma extends_calls [frame_rules]:
  "extends (look f e)" "extends (ask operation e)" "extends State_Monad.get"
  "extends (State_Monad.update (\<lambda>s. s\<lparr>ws_lost := lost\<rparr>))" "extends (State_Monad.update (\<lambda>s. s\<lparr>ws_slot := slot\<rparr>))"
  by (auto simp: extends_def look_def ask_def Let_def State_Monad.update_def split: prod.splits)

lemma extends_cases [frame_rules]:
  "extends m \<Longrightarrow> extends n \<Longrightarrow> extends (if b then m else n)"
  "extends m \<Longrightarrow> (\<And>y. extends (f y)) \<Longrightarrow> extends (case x of None \<Rightarrow> m | Some y \<Rightarrow> f y)"
  "(\<And>a b. extends (h a b)) \<Longrightarrow> extends (case z of (a, b) \<Rightarrow> h a b)"
  by (auto split: option.splits prod.splits)

lemma extends_beats [frame_rules]: "extends (beats w v ops c)"
proof -
  have "extends (heartbeats w ops c n)" for n
    by (induction n) (auto simp: Let_def intro!: frame_rules)
  then show ?thesis unfolding beats_def by (intro frame_rules)
qed

lemma extends_ackFailure [frame_rules]: "extends (ackFailure w v ops c code manual)"
  unfolding ackFailure_def retryDelay_def Let_def by (intro frame_rules)

lemma extends_remote [frame_rules]: "extends (after_remote w v ops c wait)"
proof (cases wait)
  case (RemoteResult result)
  then show ?thesis unfolding after_remote_def by (cases result) (auto intro!: frame_rules)
qed (auto simp: after_remote_def intro!: frame_rules)

lemma extends_body [frame_rules]: "extends (claim_body w v ops i c)"
  unfolding claim_body_def operation_ended_def Let_def by (intro frame_rules)

lemma extends_steady:
  assumes "extends m" and "steady G" and "G s" and "run_state m s = (a, s')"
  shows "G s'"
proof -
  from assms(1) obtain h where "ws_accessors (snd (run_state m s)) = ws_accessors s"
    and "ws_log (snd (run_state m s)) = ws_log s @ h" unfolding extends_def by blast
  with assms(4) have "s' = s\<lparr>ws_repository := ws_repository s', ws_log := ws_log s @ h, ws_slot := ws_slot s', ws_lost := ws_lost s'\<rparr>"
    by simp
  with steadyD [OF assms(2,3)] show ?thesis by metis
qed

lemma following_process:
  "ensures (following w (holding i (c # claims))) (processClaim w v ops i c) (\<lambda>_. following w (holding (Suc i) claims))"
proof -
  let ?G = "following w (holding i (c # claims))"
  have body: "ensures ?G (claim_body w v ops i c) (\<lambda>_. ?G)"
  proof (rule ensuresI)
    fix s a s' assume "?G s" and run: "run_state (claim_body w v ops i c) s = (a, s')"
    then have "following w (holds_claim i c) s" "holding i (c # claims) s" by (auto simp: following_def intro: holding_Cons(1))
    with ensuresD [OF following_body _ run] extends_steady [OF extends_body steady_holding _ run]
    show "?G s'" by (auto simp: following_def)
  qed
  have reset: "?G (s\<lparr>ws_lost := lost\<rparr>)" if "?G s" for s lost
    using that steady_beats [OF steady_holding, where s = s and r = "ws_repository s" and h = "[]" and lost = lost]
    by (simp add: following_def)
  have last: "ensures ?G (do { beats w v ops c; erase i; yields a }) (\<lambda>_. following w (holding (Suc i) claims))"
    for a :: "worker_error + claimOutcome"
    unfolding erase_def
    by (intro following_beats_then [OF steady_holding] ensures_update_then ensures_give)
      (auto simp: following_def intro: holding_Cons(2) dest: holding_Cons(1) holds_claimD)
  show ?thesis
    unfolding processClaim_def
    by (rule ensures_update_then, rule ensures_bind [OF ensures_conseq [OF body] last]) (auto intro: reset)
qed

lemma following_loop:
  "ensures (following w (holding i claims)) (claims_loop w v ops i claims result d) (\<lambda>_ s. obeys (worker_rule w) (ws_log s))"
proof (induction claims arbitrary: i result d)
  case Nil
  show ?case by (simp, rule ensures_give) (simp add: following_def)
next
  case (Cons c claims)
  have stop: "ensures (following w G) (yields a) (\<lambda>_ s. obeys (worker_rule w) (ws_log s))" for G a
    by (rule ensures_give) (simp add: following_def)
  show ?case
    unfolding claims_loop.simps Let_def
    by (intro ensures_bind [OF following_process] ensures_sum ensures_if Cons.IH stop
        following_look_then [OF steady_holding]) simp
qed

lemma holding_start:
  assumes "obeys (worker_rule w) (ws_log s)" and "Claiming q (Inr claims) \<in> set (ws_log s)"
  shows "following w (holding (length (ws_accessors s)) claims) (s\<lparr>ws_accessors := ws_accessors s @
    map (\<lambda>c. case cl_Accessor c of None \<Rightarrow> '''' | Some a \<Rightarrow> a) claims\<rparr>)"
proof -
  have "claimed (claims ! k) (ws_log s)" if "k < length claims" for k
    using assms(2) nth_mem [OF that] unfolding claimed_def by blast
  then show ?thesis using assms(1) by (auto simp: following_def holding_def holds_claim_def nth_append)
qed

lemma following_claims:
  "ensures (following w (\<lambda>_. True)) (run_claims w v ops r) (\<lambda>_ s. obeys (worker_rule w) (ws_log s))"
proof -
  let ?Q = "\<lambda>_ s. obeys (worker_rule w) (ws_log s)"
  have last: "ensures (\<lambda>s. obeys (worker_rule w) (ws_log s)) (case rd of (result, d) \<Rightarrow>
      do { destroyClaims base; yields (result, if d then Some ErrClaimDeferred else None) }) ?Q"
    for rd :: "RunResult \<times> bool" and base
    unfolding destroyClaims_def by (intro ensures_pair ensures_update_then ensures_give) auto
  show ?thesis
    unfolding run_claims_def Let_def
    by (intro ensures_ask_then ensures_sum ensures_get_then ensures_update_then
        ensures_bind [OF ensures_conseq [OF following_loop] last])
      (auto intro!: ensures_give holding_start simp: following_def [of w "\<lambda>_. True"])
qed

lemma following_run:
  assumes "ws_log s = []" and "run_state (RunOnce worker v ops) s = (result, s')" and "worker = Some w"
  shows "obeys (worker_rule w) (ws_log s')"
proof -
  let ?Q = "\<lambda>_ s. obeys (worker_rule w) (ws_log s)"
  have any: "ensures (following w (\<lambda>_. True)) (yields a) ?Q" for a
    by (rule ensures_give) (simp add: following_def)
  have true: "steady (\<lambda>_. True)" by (simp add: steady_def)
  have "ensures (following w (\<lambda>_. True)) (RunOnce worker v ops) ?Q"
    unfolding RunOnce_def assms(3) option.case Let_def
    by (intro ensures_if ensures_sum following_ask_then [OF true] any following_claims) simp_all
  from ensuresD [OF this _ assms(2)] assms(1) show ?thesis by (simp add: following_def)
qed


text \<open>
  C8. The worker calls a revocation complete only after the remote issuer confirmed it. In a run,
  whatever the repository, the revokers and the heartbeats answer: a revoker is called only for a
  revocation claimed in this run, it is the one registered under exactly the tenant, workspace,
  environment, issuer and revision of the record, and it gets the accessor of that claim; the
  revocation is reported complete only under the fence of that claim, when the last thing that
  happened but for heartbeats was that this call confirmed it and every beat until then was
  accepted; it is given to people only for an invalid reference; and a retry asks for a delay
  between five seconds and the bound that doubles with every attempt up to fifteen minutes.
\<close>

theorem completed_only_if_revoked:
  assumes "run_state (RunOnce (Some w) v ops) s = (result, s')" and "ws_log s = []"
    and "ws_log s' = h @ call # later"
  shows "case call of
      RemoteStarted revoker identity accessor \<Rightarrow> (\<exists>c. claimed c h \<and> revoker_for w c revoker \<and>
        identity = identityFrom (cl_Revocation c) \<and> cl_Accessor c = Some accessor)
    | Completing f _ \<Rightarrow> (\<exists>c. claimed c h \<and> cl_Fence c = f \<and> confirmed w c h)
    | RequiringManual q _ \<Rightarrow> (\<exists>c. claimed c h \<and> cl_Fence c = rm_Fence q \<and> rm_FailureCode q = FailureInvalidReference)
    | Retrying q _ \<Rightarrow> (\<exists>c. claimed c h \<and> cl_Fence c = rt_Fence q \<and> MinRevocationRetryDelay \<le> rt_Delay q \<and>
        rt_Delay q \<le> min MaxRevocationRetryDelay
          (MinRevocationRetryDelay * 2 ^ nat (rv_Attempt (cl_Revocation c) - 1)))
    | Beating q _ \<Rightarrow> (\<exists>c. claimed c h \<and> cl_Fence c = hb_Fence q)
    | _ \<Rightarrow> True"
proof -
  have "obeys (worker_rule w) (ws_log s')" by (rule following_run [OF assms(2,1) refl])
  then have "worker_rule w h call" using assms(3) by (auto simp: obeys_def)
  then show ?thesis by (cases call) (auto simp: delay_bound_def)
qed

section \<open>What a run counts\<close>

text \<open>The outcome a report had, when the repository accepted it.\<close>

fun outcome_of :: "worker_event \<Rightarrow> claimOutcome option" where
  "outcome_of (Completing _ (Inr _)) = Some claimRevoked"
| "outcome_of (Retrying _ (Inr v)) = Some (if rv_Status v = StatusManualRequired then claimManual else claimRetried)"
| "outcome_of (RequiringManual _ (Inr _)) = Some claimManual"
| "outcome_of _ = None"

lemma outcome_of_report:
  "outcome_of (Completing f a) = (if isl a then None else Some claimRevoked)"
  "outcome_of (RequiringManual q a) = (if isl a then None else Some claimManual)"
  by (cases a; simp)+

definition outcomes :: "worker_history \<Rightarrow> claimOutcome list" where
  "outcomes h = List.map_filter outcome_of h"

lemma outcomes_simps [simp]:
  "outcomes [] = []" "outcomes (h @ g) = outcomes h @ outcomes g"
  "outcomes (e # h) = (case outcome_of e of None \<Rightarrow> outcomes h | Some x \<Rightarrow> x # outcomes h)"
  by (simp_all add: outcomes_def List.map_filter_def split: option.split)

lemma outcomes_beating: "list_all beating bs \<Longrightarrow> outcomes bs = []"
proof (induction bs)
  case (Cons b bs)
  then show ?case by (cases b) simp_all
qed simp

definition counts :: "claimOutcome list \<Rightarrow> 'r worker_state \<Rightarrow> bool" where
  "counts xs s \<longleftrightarrow> outcomes (ws_log s) = xs"

abbreviation result_outcomes :: "worker_error + claimOutcome \<Rightarrow> claimOutcome list" where
  "result_outcomes r \<equiv> case r of Inl _ \<Rightarrow> [] | Inr x \<Rightarrow> [x]"

lemma counts_look_then:
  assumes "\<And>a. outcome_of (e a) = None" and "\<And>a. ensures (counts xs) (k a) Q"
  shows "ensures (counts xs) (State_Monad.bind (look f e) k) Q"
  by (rule ensures_look_then, rule ensures_conseq [OF assms(2)]) (use assms(1) in \<open>auto simp: counts_def\<close>)

lemma counts_beats_then:
  assumes "ensures (counts xs) (k ()) Q"
  shows "ensures (counts xs) (State_Monad.bind (beats w v ops c) k) Q"
  by (rule ensures_beats_then, rule ensures_conseq [OF assms]) (auto simp: counts_def outcomes_beating)

lemma counts_report:
  assumes "\<And>a. result_outcomes (r a) = (case outcome_of (e a) of None \<Rightarrow> [] | Some x \<Rightarrow> [x])"
  shows "ensures (counts xs) (do { answer \<leftarrow> ask operation e; yields (r answer) }) (\<lambda>r. counts (xs @ result_outcomes r))"
  by (intro ensures_ask_then ensures_give) (use assms in \<open>auto simp: counts_def split: option.splits\<close>)

lemma counts_ended: "ensures (counts xs) (yields (Inl e)) (\<lambda>r. counts (xs @ result_outcomes r))"
  by (rule ensures_give) simp

lemma counts_delay_then:
  assumes "\<And>d. ensures (counts xs) (k d) Q"
  shows "ensures (counts xs) (State_Monad.bind (retryDelay v attempt) k) Q"
proof (rule ensures_bind [where R = "\<lambda>_. counts xs"])
  show "ensures (counts xs) (retryDelay v attempt) (\<lambda>_. counts xs)"
    unfolding retryDelay_def Let_def by (intro ensures_if counts_look_then ensures_give) simp_all
qed (rule assms)

lemma counts_operation_ended_then:
  assumes "\<And>d. ensures (counts xs) (k d) Q"
  shows "ensures (counts xs) (State_Monad.bind (operation_ended v) k) Q"
proof (rule ensures_bind [where R = "\<lambda>_. counts xs"])
  show "ensures (counts xs) (operation_ended v) (\<lambda>_. counts xs)"
    unfolding operation_ended_def by (intro counts_look_then ensures_get_then ensures_give) simp_all
qed (rule assms)

lemma counts_ackFailure:
  "ensures (counts xs) (ackFailure w v ops c code manual) (\<lambda>r. counts (xs @ result_outcomes r))"
  unfolding ackFailure_def Let_def
  by (intro ensures_if counts_beats_then counts_delay_then counts_report) (auto simp: outcome_of_report split: sum.splits)

lemma counts_get_then:
  assumes "\<And>x. ensures (counts xs) (k x) Q"
  shows "ensures (counts xs) (State_Monad.bind State_Monad.get k) Q"
  by (rule ensures_get_then, rule ensures_conseq [OF assms]) auto

lemma counts_remote:
  "ensures (counts xs) (after_remote w v ops c wait) (\<lambda>r. counts (xs @ result_outcomes r))"
proof (cases wait)
  case (RemoteResult result)
  have complete: "ensures (counts xs) (do { s \<leftarrow> State_Monad.get;
        if ws_lost s then yields (Inl ErrClaimDeferred) else do {
        beats w v ops c;
        answer \<leftarrow> ask (\<lambda>h. wp_CompleteRevocation ops h (cl_Fence c)) (Completing (cl_Fence c));
        yields (if isl answer then Inl ErrClaimDeferred else Inr claimRevoked) } })
      (\<lambda>r. counts (xs @ result_outcomes r))"
    by (intro counts_get_then ensures_if counts_beats_then counts_report counts_ended) (auto simp: outcome_of_report)
  show ?thesis
  proof (cases result)
    case None
    with complete RemoteResult show ?thesis by (simp add: after_remote_def)
  next
    case (Some err)
    have "ensures (counts xs) (do { s \<leftarrow> State_Monad.get;
        if ws_lost s then yields (Inl ErrClaimDeferred) else do {
        c' \<leftarrow> look (we_ctx v) WorkerContext;
        if c' \<noteq> None then yields (Inl ErrClaimDeferred)
        else (case classifyFailure err of (code, manual) \<Rightarrow> ackFailure w v ops c code manual) } })
      (\<lambda>r. counts (xs @ result_outcomes r))"
      by (intro counts_get_then ensures_if ensures_pair counts_look_then counts_ackFailure counts_ended) simp
    with Some RemoteResult show ?thesis by (simp add: after_remote_def)
  qed
qed (simp_all add: after_remote_def counts_ackFailure counts_ended)


lemma counts_body:
  "ensures (counts xs) (claim_body w v ops i c) (\<lambda>r. counts (xs @ result_outcomes r))"
proof -
  have slot: "ensures (counts xs) (State_Monad.bind (State_Monad.update (\<lambda>s. s\<lparr>ws_slot := True\<rparr>)) k) Q"
    if "ensures (counts xs) (k ()) Q" for k Q
    by (rule ensures_update_then, rule ensures_conseq [OF that]) (auto simp: counts_def)
  show ?thesis
    unfolding claim_body_def Let_def
    by (intro counts_beats_then counts_operation_ended_then ensures_option ensures_if counts_ackFailure counts_ended
        counts_look_then counts_get_then slot counts_remote) simp_all
qed

lemma counts_process:
  "ensures (counts xs) (processClaim w v ops i c) (\<lambda>r. counts (xs @ result_outcomes r))"
proof -
  have last: "ensures (counts ys) (do { beats w v ops c; erase i; yields a }) (\<lambda>r s. r = a \<and> counts ys s)" for a ys
    unfolding erase_def by (intro counts_beats_then ensures_update_then ensures_give) (auto simp: counts_def)
  have "ensures (counts xs) (do { outcome \<leftarrow> claim_body w v ops i c; beats w v ops c; erase i; yields outcome })
      (\<lambda>r. counts (xs @ result_outcomes r))"
    by (rule ensures_bind [OF counts_body], rule ensures_conseq [OF last]) auto
  then show ?thesis
    unfolding processClaim_def by (intro ensures_update_then) (erule ensures_conseq, auto simp: counts_def)
qed

text \<open>\<open>balanced k r d\<close>: after \<open>k\<close> claims the result agrees with the reports the repository accepted.\<close>

definition balanced :: "int \<Rightarrow> RunResult \<Rightarrow> bool \<Rightarrow> 'r worker_state \<Rightarrow> bool" where
  "balanced k r d s \<longleftrightarrow> (let xs = outcomes (ws_log s) in
     rr_Revoked r = int (count_list xs claimRevoked) \<and> rr_Retried r = int (count_list xs claimRetried) \<and>
     rr_ManualRequired r = int (count_list xs claimManual) \<and> 0 \<le> rr_Deferred r \<and> (d \<longleftrightarrow> 0 < rr_Deferred r) \<and>
     rr_Revoked r + rr_Retried r + rr_ManualRequired r + rr_Deferred r = k)"

lemma balanced_outcome:
  "balanced k r d s \<Longrightarrow> counts (outcomes (ws_log s) @ [x]) t \<Longrightarrow> balanced (k + 1) (count_outcome x r) d t"
  by (cases x) (simp_all add: balanced_def counts_def count_outcome_def Let_def)

lemma balanced_deferred:
  "balanced k r d s \<Longrightarrow> counts (outcomes (ws_log s)) t \<Longrightarrow> balanced (k + 1) (r\<lparr>rr_Deferred := rr_Deferred r + 1\<rparr>) True t"
  by (simp add: balanced_def counts_def Let_def)

lemma balanced_log: "balanced k r d s \<Longrightarrow> outcome_of e = None \<Longrightarrow> balanced k r d (s\<lparr>ws_log := ws_log s @ [e]\<rparr>)"
  by (simp add: balanced_def Let_def)

lemma balanced_process:
  "ensures (balanced k r d) (processClaim w v ops i c)
     (\<lambda>out. case out of Inr x \<Rightarrow> balanced (k + 1) (count_outcome x r) d
        | Inl _ \<Rightarrow> balanced (k + 1) (r\<lparr>rr_Deferred := rr_Deferred r + 1\<rparr>) True)"
proof (rule ensuresI)
  fix s out s' assume bal: "balanced k r d s" and run: "run_state (processClaim w v ops i c) s = (out, s')"
  have "counts (outcomes (ws_log s) @ result_outcomes out) s'"
    by (rule ensuresD [OF counts_process _ run]) (simp add: counts_def)
  with bal show "(case out of Inr x \<Rightarrow> balanced (k + 1) (count_outcome x r) d
        | Inl _ \<Rightarrow> balanced (k + 1) (r\<lparr>rr_Deferred := rr_Deferred r + 1\<rparr>) True) s'"
    by (cases out) (auto intro: balanced_outcome balanced_deferred)
qed

definition counted :: "int \<Rightarrow> int \<Rightarrow> RunResult \<times> bool \<Rightarrow> 'r worker_state \<Rightarrow> bool" where
  "counted n claims rd s \<longleftrightarrow> rr_Claimed (fst rd) = claims \<and>
     (\<exists>k. balanced k (fst rd) (snd rd) s \<and> k \<le> n \<and> (\<not> snd rd \<longrightarrow> k = n))"

lemma balanced_loop:
  "ensures (balanced k r d) (claims_loop w v ops i claims r d) (counted (k + int (length claims)) (rr_Claimed r))"
proof (induction claims arbitrary: k r d i)
  case Nil
  show ?case by (simp, rule ensures_give) (auto simp: counted_def intro!: exI [of _ k])
next
  case (Cons c claims)
  let ?Q = "counted (k + 1 + int (length claims)) (rr_Claimed r)" and ?r = "r\<lparr>rr_Deferred := rr_Deferred r + 1\<rparr>"
  have "rr_Claimed (count_outcome x r) = rr_Claimed r" for x by (cases x) (simp_all add: count_outcome_def)
  then have go: "ensures (balanced (k + 1) (count_outcome x r) d)
      (claims_loop w v ops (Suc i) claims (count_outcome x r) d) ?Q" for x
    using Cons.IH [of "k + 1" "count_outcome x r" d "Suc i"] by simp
  have go': "ensures (balanced (k + 1) ?r True) (claims_loop w v ops (Suc i) claims ?r True) ?Q"
    using Cons.IH [of "k + 1" ?r True "Suc i"] by simp
  have stop: "ensures (balanced (k + 1) ?r True) (yields (?r, True)) ?Q" by (rule ensures_give) (auto simp: counted_def)
  have look: "ensures (balanced (k + 1) ?r True) (State_Monad.bind (look f WorkerContext) K) Q"
    if "\<And>a. ensures (balanced (k + 1) ?r True) (K a) Q" for f K Q
    by (rule ensures_look_then, rule ensures_conseq [OF that]) (auto intro: balanced_log)
  have "ensures (balanced k r d) (claims_loop w v ops i (c # claims) r d) ?Q"
    unfolding claims_loop.simps Let_def
  proof (rule ensures_bind [OF balanced_process])
    fix out
    show "ensures ((case out of Inr x \<Rightarrow> balanced (k + 1) (count_outcome x r) d | Inl _ \<Rightarrow> balanced (k + 1) ?r True))
        (case out of Inl err \<Rightarrow>
            if err = ErrClaimDeferred then do { c \<leftarrow> look (we_ctx v) WorkerContext;
              if c \<noteq> None then yields (?r, True) else claims_loop w v ops (Suc i) claims ?r True }
            else claims_loop w v ops (Suc i) claims ?r True
          | Inr done \<Rightarrow> claims_loop w v ops (Suc i) claims (count_outcome done r) d) ?Q"
      by (cases out) (auto intro!: go go' stop look)
  qed
  then show ?case by (simp add: algebra_simps)
qed

text \<open>The result of a whole run, and the accessors it leaves behind.\<close>

definition true_result :: "RunResult \<times> worker_error option \<Rightarrow> worker_history \<Rightarrow> bool" where
  "true_result re h \<longleftrightarrow> (case re of (r, err) \<Rightarrow>
     rr_Revoked r = int (count_list (outcomes h) claimRevoked) \<and>
     rr_Retried r = int (count_list (outcomes h) claimRetried) \<and>
     rr_ManualRequired r = int (count_list (outcomes h) claimManual) \<and>
     rr_Revoked r + rr_Retried r + rr_ManualRequired r + rr_Deferred r \<le> rr_Claimed r \<and>
     (err = None \<longrightarrow> rr_Deferred r = 0 \<and> rr_Revoked r + rr_Retried r + rr_ManualRequired r = rr_Claimed r))"

lemma counted_result:
  "counted (rr_Claimed r) (rr_Claimed r) (r', d) s \<Longrightarrow> true_result (r', if d then Some ErrClaimDeferred else None) (ws_log s)"
  by (auto simp: counted_def balanced_def true_result_def Let_def)

lemma run_counts:
  "ensures (\<lambda>s. ws_log s = []) (RunOnce worker v ops) (\<lambda>re s. true_result re (ws_log s))"
proof -
  define idle :: "RunResult \<Rightarrow> bool" where "idle r \<longleftrightarrow> rr_Revoked r = 0 \<and> rr_Retried r = 0 \<and> rr_ManualRequired r = 0 \<and>
    rr_Deferred r = 0 \<and> rr_Claimed r = 0" for r
  have fails: "ensures (counts []) (yields (r, Some err)) (\<lambda>re s. true_result re (ws_log s))" if "idle r" for r err
    by (rule ensures_give) (use that in \<open>simp add: true_result_def counts_def idle_def\<close>)
  have ask: "ensures (counts []) (State_Monad.bind (ask operation e) k) Q"
    if "\<And>a. outcome_of (e a) = None" "\<And>a. ensures (counts []) (k a) Q" for operation e k Q
    by (rule ensures_ask_then, rule ensures_conseq [OF that(2)]) (use that(1) in \<open>auto simp: counts_def\<close>)
  have last: "ensures (counted n n rd) (case rd of (result, d) \<Rightarrow>
      do { destroyClaims base; yields (result, if d then Some ErrClaimDeferred else None) })
      (\<lambda>re s. true_result re (ws_log s))" for rd n base
    unfolding destroyClaims_def
    by (intro ensures_pair ensures_update_then ensures_give)
      (auto simp: counted_def balanced_def true_result_def Let_def)
  have claims: "ensures (counts []) (run_claims w v ops r) (\<lambda>re s. true_result re (ws_log s))" if "idle r" for w r
  proof -
    have loop: "ensures (counts []) (State_Monad.bind (claims_loop w v ops base claims (r\<lparr>rr_Claimed := int (length claims)\<rparr>) False)
        (\<lambda>rd. case rd of (result, d) \<Rightarrow>
           do { destroyClaims base; yields (result, if d then Some ErrClaimDeferred else None) }))
        (\<lambda>re s. true_result re (ws_log s))" for base claims
      by (rule ensures_bind [OF ensures_conseq [OF balanced_loop [of 0]] last])
        (use that in \<open>auto simp: balanced_def counts_def idle_def Let_def\<close>)
    show ?thesis
      unfolding run_claims_def Let_def
      by (intro ask ensures_sum fails that counts_get_then ensures_update_then ensures_conseq [OF loop])
        (auto simp: counts_def)
  qed
  have "ensures (counts []) (RunOnce worker v ops) (\<lambda>re s. true_result re (ws_log s))"
    unfolding RunOnce_def Let_def
    by (intro ensures_option ensures_if ensures_sum ask fails claims) (simp_all add: idle_def zero_RunResult_def)
  then show ?thesis by (rule ensures_conseq) (auto simp: counts_def)
qed

lemma destroy_erases:
  "ensures P (State_Monad.bind m (\<lambda>rd. case rd of (result, d) \<Rightarrow>
      do { destroyClaims base; yields (result, if d then Some ErrClaimDeferred else None) }))
      (\<lambda>_ s. \<forall>i < length (ws_accessors s). base \<le> i \<longrightarrow> ws_accessors s ! i = '''')"
proof (rule ensures_bind [where R = "\<lambda>_ _. True"])
  show "ensures (\<lambda>_. True) (case rd of (result, d) \<Rightarrow>
      do { destroyClaims base; yields (result, if d then Some ErrClaimDeferred else None) })
      (\<lambda>_ s. \<forall>i < length (ws_accessors s). base \<le> i \<longrightarrow> ws_accessors s ! i = '''')" for rd
    unfolding destroyClaims_def
    by (intro ensures_pair ensures_update_then ensures_give) (auto simp: nth_append)
qed (simp add: ensures_def)

lemma run_erases:
  "ensures (\<lambda>s. length (ws_accessors s) = n) (RunOnce worker v ops)
     (\<lambda>_ s. \<forall>i < length (ws_accessors s). n \<le> i \<longrightarrow> ws_accessors s ! i = '''')"
proof -
  let ?P = "\<lambda>s. length (ws_accessors s) = n" and ?Q = "\<lambda>_ s. \<forall>i < length (ws_accessors s). n \<le> i \<longrightarrow> ws_accessors s ! i = ''''"
  have stop: "ensures ?P (yields a) ?Q" for a by (rule ensures_give) auto
  have ask: "ensures ?P (State_Monad.bind (ask operation e) k) Q"
    if "\<And>a. ensures ?P (k a) Q" for operation e k Q
    by (rule ensures_ask_then, rule ensures_conseq [OF that]) auto
  have "ensures ?P (run_claims w v ops r) ?Q" for w r
    unfolding run_claims_def Let_def
    by (intro ask ensures_sum stop ensures_get_when ensures_update_then) (auto intro!: destroy_erases)
  then show ?thesis
    unfolding RunOnce_def Let_def by (intro ensures_option ensures_if ensures_sum ask stop)
qed


section \<open>Revoked is revoked\<close>

text \<open>
  What the worker relies on of the repository: its operations keep it well-formed and what is
  \<open>revoked\<close> revoked, and an accepted completion makes the record of its fence \<open>revoked\<close>.
\<close>

locale revocation_store =
  fixes ops :: "'r worker_ops" and ok :: "'r \<Rightarrow> bool" and revoked :: "string \<Rightarrow> 'r \<Rightarrow> bool"
  assumes recover: "ok r \<Longrightarrow> wp_RecoverPrepared ops h n r = (r', answer) \<Longrightarrow> ok r' \<and> (revoked i r \<longrightarrow> revoked i r')"
    and recover_managed: "ok r \<Longrightarrow> wp_RecoverManaged ops h n r = (r', answer) \<Longrightarrow> ok r' \<and> (revoked i r \<longrightarrow> revoked i r')"
    and recover_exhausted: "ok r \<Longrightarrow> wp_RecoverExhausted ops h n r = (r', answer) \<Longrightarrow> ok r' \<and> (revoked i r \<longrightarrow> revoked i r')"
    and claim: "ok r \<Longrightarrow> wp_ClaimRevocations ops h cq r = (r', claims) \<Longrightarrow> ok r' \<and> (revoked i r \<longrightarrow> revoked i r')"
    and heartbeat: "ok r \<Longrightarrow> wp_Heartbeat ops h hq r = (r', beat) \<Longrightarrow> ok r' \<and> (revoked i r \<longrightarrow> revoked i r')"
    and retry: "ok r \<Longrightarrow> wp_RetryRevocation ops h rq r = (r', beat) \<Longrightarrow> ok r' \<and> (revoked i r \<longrightarrow> revoked i r')"
    and manual: "ok r \<Longrightarrow> wp_RequireManual ops h mq r = (r', beat) \<Longrightarrow> ok r' \<and> (revoked i r \<longrightarrow> revoked i r')"
    and complete: "ok r \<Longrightarrow> wp_CompleteRevocation ops h f r = (r', beat) \<Longrightarrow>
      ok r' \<and> (revoked i r \<longrightarrow> revoked i r') \<and> (\<not> isl beat \<longrightarrow> revoked (cf_RevocationID f) r')"
begin

definition effective :: "'r worker_state \<Rightarrow> bool" where
  "effective s \<longleftrightarrow> ok (ws_repository s) \<and>
     (\<forall>f a. Completing f (Inr a) \<in> set (ws_log s) \<longrightarrow> revoked (cf_RevocationID f) (ws_repository s))"

definition retains :: "('r, 'a) worker \<Rightarrow> bool" where
  "retains m \<longleftrightarrow> ensures effective m (\<lambda>_. effective)"

lemma retains_yields: "retains (yields a)"
  unfolding retains_def by (rule ensures_give)

lemma retains_bind: "retains m \<Longrightarrow> (\<And>a. retains (k a)) \<Longrightarrow> retains (State_Monad.bind m k)"
  unfolding retains_def by (rule ensures_bind)

lemma retains_get: "retains State_Monad.get"
  by (simp add: retains_def ensures_def)

lemma retains_updates:
  "retains (State_Monad.update (\<lambda>s. s\<lparr>ws_lost := lost\<rparr>))" "retains (State_Monad.update (\<lambda>s. s\<lparr>ws_slot := slot\<rparr>))"
  "retains (State_Monad.update (\<lambda>s. s\<lparr>ws_accessors := f s\<rparr>))"
  by (auto simp: retains_def ensures_def effective_def State_Monad.update_def)

lemma retains_cases:
  "retains m \<Longrightarrow> retains n \<Longrightarrow> retains (if b then m else n)"
  "retains m \<Longrightarrow> (\<And>y. retains (f y)) \<Longrightarrow> retains (case x of None \<Rightarrow> m | Some y \<Rightarrow> f y)"
  "(\<And>y. retains (f' y)) \<Longrightarrow> (\<And>y. retains (g y)) \<Longrightarrow> retains (case z of Inl y \<Rightarrow> f' y | Inr y \<Rightarrow> g y)"
  "(\<And>a b. retains (g' a b)) \<Longrightarrow> retains (case p of (a, b) \<Rightarrow> g' a b)"
  by (auto split: option.splits sum.splits prod.splits)

lemma retains_look: "(\<And>a f b. Completing f (Inr b) \<noteq> e a) \<Longrightarrow> retains (look g e)"
  by (auto simp: retains_def ensures_def effective_def look_def Let_def)

lemma retains_ask:
  assumes "\<And>h r r' a i. ok r \<Longrightarrow> operation h r = (r', a) \<Longrightarrow> ok r' \<and> (revoked i r \<longrightarrow> revoked i r')"
    and "\<And>h r r' a f b. ok r \<Longrightarrow> operation h r = (r', a) \<Longrightarrow> Completing f (Inr b) = e a \<Longrightarrow>
      revoked (cf_RevocationID f) r'"
  shows "retains (ask operation e)"
  unfolding retains_def
proof (rule ensuresI)
  fix s a s' assume eff: "effective s" and "run_state (ask operation e) s = (a, s')"
  then have op: "operation (ws_log s) (ws_repository s) = (ws_repository s', a)" and log: "ws_log s' = ws_log s @ [e a]"
    by (auto simp: ask_def Let_def split: prod.splits)
  have ok: "ok (ws_repository s)" using eff by (simp add: effective_def)
  note fresh = assms(2) [OF ok op] and kept = assms(1) [OF ok op]
  show "effective s'" using eff log fresh kept by (auto simp: effective_def)
qed

lemma retains_complete: "retains (ask (\<lambda>h. wp_CompleteRevocation ops h f) (Completing f))"
  by (rule retains_ask) (drule (1) complete, auto)+

lemma retains_operations:
  "retains (ask (\<lambda>h. wp_RecoverPrepared ops h n) (RecoveredPrepared n))"
  "retains (ask (\<lambda>h. wp_RecoverManaged ops h n) (RecoveredManaged n))"
  "retains (ask (\<lambda>h. wp_RecoverExhausted ops h n) (RecoveredExhausted n))"
  "retains (ask (\<lambda>h. wp_ClaimRevocations ops h cq) (Claiming cq))"
  "retains (ask (\<lambda>h. wp_Heartbeat ops h hq) (Beating hq))"
  "retains (ask (\<lambda>h. wp_RetryRevocation ops h rq) (Retrying rq))"
  "retains (ask (\<lambda>h. wp_RequireManual ops h mq) (RequiringManual mq))"
  by (rule retains_ask, erule (1) recover, simp)
    (rule retains_ask, erule (1) recover_managed recover_exhausted claim heartbeat retry manual, simp)+

lemmas retain_rules = retains_yields retains_bind retains_get retains_updates retains_cases retains_complete retains_operations

lemma retains_beats: "retains (beats w v ops c)"
proof -
  have "retains (heartbeats w ops c n)" for n
    by (induction n) (auto simp: Let_def intro!: retain_rules)
  then show ?thesis unfolding beats_def by (intro retain_rules retains_look) auto
qed

lemma retains_ackFailure: "retains (ackFailure w v ops c code m)"
  unfolding ackFailure_def retryDelay_def Let_def by (intro retain_rules retains_beats retains_look) auto

lemma retains_remote: "retains (after_remote w v ops c wait)"
proof (cases wait)
  case (RemoteResult result)
  then show ?thesis
    unfolding after_remote_def
    by (cases result) (auto intro!: retain_rules retains_beats retains_look retains_ackFailure)
qed (auto simp: after_remote_def intro!: retain_rules retains_ackFailure)

lemma retains_process: "retains (processClaim w v ops i c)"
  unfolding processClaim_def claim_body_def operation_ended_def erase_def Let_def
  by (intro retain_rules retains_beats retains_look retains_ackFailure retains_remote) auto

lemma retains_run: "retains (RunOnce worker v ops)"
proof -
  have loop: "retains (claims_loop w v ops i claims r d)" for w i claims r d
    by (induction claims arbitrary: i r d)
      (auto simp: Let_def intro!: retain_rules retains_process retains_look)
  show ?thesis
    unfolding RunOnce_def run_claims_def destroyClaims_def Let_def by (intro retain_rules loop)
qed

lemma run_effective:
  assumes "ok (ws_repository s)" and "ws_log s = []" and "run_state (RunOnce worker v ops) s = (result, s')"
  shows "ok (ws_repository s')"
    and "Completing f (Inr a) \<in> set (ws_log s') \<Longrightarrow> revoked (cf_RevocationID f) (ws_repository s')"
proof -
  have "effective s" using assms(1,2) by (simp add: effective_def)
  with ensuresD [OF retains_run [unfolded retains_def] _ assms(3)] have "effective s'" by blast
  then show "ok (ws_repository s')"
    and "Completing f (Inr a) \<in> set (ws_log s') \<Longrightarrow> revoked (cf_RevocationID f) (ws_repository s')"
    by (auto simp: effective_def)
qed

end


text \<open>
  The in-memory repository as the worker's. Before each of the worker's calls other users may have
  made any calls of their own; \<open>RecoverManaged\<close> lets them in before every candidate as well.
\<close>

definition memory_worker_ops ::
  "(string \<Rightarrow> string) \<Rightarrow> (worker_history \<Rightarrow> cred_env) \<Rightarrow> (worker_history \<Rightarrow> (cred_env \<times> cred_request) list) \<Rightarrow>
   (worker_history \<Rightarrow> nat \<Rightarrow> (cred_env \<times> cred_request) list) \<Rightarrow> CredentialRepository worker_ops" where
  "memory_worker_ops sha e others between = (let now = (\<lambda>h s. fold (serve sha) (others h) s) in
     \<lparr>wp_RecoverPrepared = \<lambda>h n s. RecoverPrepared (e h) n (now h s),
      wp_RecoverManaged = \<lambda>h n s.
        (case RecoverManaged (e h) (\<lambda>k. fold (serve sha) (between h k)) n (now h s) of (s', recovered, err) \<Rightarrow>
           (s', case err of None \<Rightarrow> Inr recovered | Some x \<Rightarrow> Inl x)),
      wp_RecoverExhausted = \<lambda>h n s. RecoverExhausted sha (e h) n (now h s),
      wp_ClaimRevocations = \<lambda>h q s. ClaimRevocations sha (e h) q (now h s),
      wp_Heartbeat = \<lambda>h q s. Cred_Heartbeat sha (e h) q (now h s),
      wp_CompleteRevocation = \<lambda>h f s. CompleteRevocation sha (e h) f (now h s),
      wp_RetryRevocation = \<lambda>h q s. RetryRevocation sha (e h) q (now h s),
      wp_RequireManual = \<lambda>h q s. RequireManual sha (e h) q (now h s)\<rparr>)"

definition is_revoked :: "string \<Rightarrow> CredentialRepository \<Rightarrow> bool" where
  "is_revoked i s \<longleftrightarrow> (\<exists>r. gget (cdr_records s) i = Some r \<and> cred_status r = StatusRevoked)"

lemma is_revoked_stays:
  assumes "(cred_step sha)\<^sup>*\<^sup>* s u" and "cred_inv s"
  shows "cred_inv u \<and> (is_revoked i s \<longrightarrow> is_revoked i u)"
proof -
  have "is_revoked i u" if "is_revoked i s"
    using cred_steps_status [OF assms, where A = "{StatusRevoked}"] that unfolding is_revoked_def by auto
  with cred_calls.steps_inv [OF assms] show ?thesis by blast
qed

lemma RecoverManaged_steps:
  "(cred_step sha)\<^sup>*\<^sup>* s (fst (RecoverManaged e (\<lambda>k. fold (serve sha) (between k)) limit s))"
proof -
  have item: "(cred_step sha)\<^sup>*\<^sup>* s (fst (recover_managed_item e n i a (fold (serve sha) calls s)))" for n i a calls s
    by (rule cred_steps_call [OF others_steps ccall_RecoverManaged])
  have "(cred_step sha)\<^sup>*\<^sup>* s (fst (recover_managed_loop e limit (\<lambda>k. fold (serve sha) (between k)) n items recovered s))"
    for n items recovered s
  proof (induction e limit "\<lambda>k. fold (serve sha) (between k)" n items recovered s rule: recover_managed_loop.induct)
    case (2 e limit n i a items recovered s)
    let ?u = "fst (recover_managed_item e n i a (fold (serve sha) (between n) s))"
    note rest = rtranclp_trans [OF cred_steps_call [OF others_steps ccall_RecoverManaged, of sha s e n i a "between n"]]
    show ?case
      by (auto simp: Let_def split: sum.split option.split intro!: rest 2
          cred_steps_call [OF others_steps ccall_RecoverManaged])
  qed simp
  then show ?thesis by (auto simp: RecoverManaged_def split: option.splits)
qed

lemma CompleteRevocation_revokes:
  "CompleteRevocation sha e f s = (u, Inr v) \<Longrightarrow> is_revoked (cf_RevocationID f) u"
  by (auto simp: CompleteRevocation_def is_revoked_def Let_def gget_put_credential cred_update_defs
      split: option.splits if_splits)

interpretation memory_worker: revocation_store "memory_worker_ops sha e others between" cred_inv is_revoked
proof
  fix r r' :: CredentialRepository and h n i
  let ?s = "fold (serve sha) (others h) r" and ?ops = "memory_worker_ops sha e others between"
  assume ok: "cred_inv r"
  have one: "cred_inv u \<and> (is_revoked i r \<longrightarrow> is_revoked i u)" if "cred_call sha (e h) ?s u" for u
    by (rule is_revoked_stays [OF cred_steps_call [OF others_steps that] ok])
  have managed: "(cred_step sha)\<^sup>*\<^sup>* r (fst (RecoverManaged (e h) (\<lambda>k. fold (serve sha) (between h k)) n ?s))"
    by (rule rtranclp_trans [OF others_steps RecoverManaged_steps])
  show "cred_inv r' \<and> (is_revoked i r \<longrightarrow> is_revoked i r')" if "wp_RecoverPrepared ?ops h n r = (r', answer)" for answer
    using one [OF ccall_RecoverPrepared [of sha "e h" ?s n]] that by (simp add: memory_worker_ops_def Let_def)
  show "cred_inv r' \<and> (is_revoked i r \<longrightarrow> is_revoked i r')" if "wp_RecoverManaged ?ops h n r = (r', answer)" for answer
    using is_revoked_stays [OF managed ok] that
    by (auto simp: memory_worker_ops_def Let_def split: prod.splits)
  show "cred_inv r' \<and> (is_revoked i r \<longrightarrow> is_revoked i r')" if "wp_RecoverExhausted ?ops h n r = (r', answer)" for answer
    using one [OF ccall_RecoverExhausted [of sha "e h" ?s n]] that by (simp add: memory_worker_ops_def Let_def)
  show "cred_inv r' \<and> (is_revoked i r \<longrightarrow> is_revoked i r')" if "wp_ClaimRevocations ?ops h cq r = (r', answer)" for cq answer
    using one [OF ccall_Claim [of sha "e h" ?s cq]] that by (simp add: memory_worker_ops_def Let_def)
  show "cred_inv r' \<and> (is_revoked i r \<longrightarrow> is_revoked i r')" if "wp_Heartbeat ?ops h hq r = (r', answer)" for hq answer
    using one [OF ccall_Heartbeat [of sha "e h" ?s hq]] that by (simp add: memory_worker_ops_def Let_def)
  show "cred_inv r' \<and> (is_revoked i r \<longrightarrow> is_revoked i r')" if "wp_RetryRevocation ?ops h rq r = (r', answer)" for rq answer
    using one [OF ccall_Retry [of sha "e h" ?s rq]] that by (simp add: memory_worker_ops_def Let_def)
  show "cred_inv r' \<and> (is_revoked i r \<longrightarrow> is_revoked i r')" if "wp_RequireManual ?ops h mq r = (r', answer)" for mq answer
    using one [OF ccall_Manual [of sha "e h" ?s mq]] that by (simp add: memory_worker_ops_def Let_def)
  show "cred_inv r' \<and> (is_revoked i r \<longrightarrow> is_revoked i r') \<and> (\<not> isl answer \<longrightarrow> is_revoked (cf_RevocationID f) r')"
    if "wp_CompleteRevocation ?ops h f r = (r', answer)" for f answer
    using one [OF ccall_Complete [of sha "e h" ?s f]] that CompleteRevocation_revokes [of sha "e h" f ?s r']
    by (cases answer) (simp_all add: memory_worker_ops_def Let_def)
qed


text \<open>
  C17. What a run reports is true. Run the worker on the in-memory repository, with any other users
  in between: the numbers of the result are those of the reports the repository accepted; no more
  claims are accounted for than were handed out, and all of them when the run returns no error, none
  deferred; every revocation reported complete is REVOKED in the repository, its accessor erased, and
  stays so whatever happens later; and the run has destroyed every accessor it was given.
\<close>

theorem run_reports_true:
  assumes reach: "(cred_step sha)\<^sup>*\<^sup>* empty_credentials (ws_repository s)" and "ws_log s = []"
    and run: "run_state (RunOnce worker v (memory_worker_ops sha e others between)) s = ((result, err), s')"
  shows "rr_Revoked result = int (count_list (outcomes (ws_log s')) claimRevoked) \<and>
    rr_Retried result = int (count_list (outcomes (ws_log s')) claimRetried) \<and>
    rr_ManualRequired result = int (count_list (outcomes (ws_log s')) claimManual) \<and>
    rr_Revoked result + rr_Retried result + rr_ManualRequired result + rr_Deferred result \<le> rr_Claimed result \<and>
    (err = None \<longrightarrow> rr_Deferred result = 0 \<and>
       rr_Revoked result + rr_Retried result + rr_ManualRequired result = rr_Claimed result) \<and>
    (\<forall>f a u. Completing f (Inr a) \<in> set (ws_log s') \<and> (cred_step sha)\<^sup>*\<^sup>* (ws_repository s') u \<longrightarrow>
       (\<exists>r. gget (cdr_records u) (cf_RevocationID f) = Some r \<and> rv_Status (mv_revocation r) = StatusRevoked \<and>
          prf_Ciphertext (mv_protected r) = '''')) \<and>
    (\<forall>i < length (ws_accessors s'). length (ws_accessors s) \<le> i \<longrightarrow> ws_accessors s' ! i = '''')"
proof -
  have inv: "cred_inv (ws_repository s)" by (rule cred_calls.reachable_inv [OF reach])
  note E = memory_worker.run_effective [OF inv assms(2) run]
  have "\<exists>r. gget (cdr_records u) (cf_RevocationID f) = Some r \<and> cred_status r = StatusRevoked \<and>
      prf_Ciphertext (mv_protected r) = ''''"
    if "Completing f (Inr a) \<in> set (ws_log s')" and later: "(cred_step sha)\<^sup>*\<^sup>* (ws_repository s') u" for f a u
  proof -
    from is_revoked_stays [OF later E(1)] E(2) [OF that(1)] have "cred_inv u" "is_revoked (cf_RevocationID f) u" by blast+
    then obtain r where r: "gget (cdr_records u) (cf_RevocationID f) = Some r" "cred_status r = StatusRevoked"
      by (auto simp: is_revoked_def)
    with cred_invD(3) [OF \<open>cred_inv u\<close> r(1)] show ?thesis by (auto simp: cred_phase_def outstanding_def)
  qed
  moreover from ensuresD [OF run_counts assms(2) run] have "true_result (result, err) (ws_log s')" .
  moreover have "\<forall>i < length (ws_accessors s'). length (ws_accessors s) \<le> i \<longrightarrow> ws_accessors s' ! i = ''''"
    by (rule ensuresD [OF run_erases refl run])
  ultimately show ?thesis unfolding true_result_def prod.case by blast
qed

section \<open>A run\<close>

text \<open>The worker finds the pending revocation of the repository's example and has it revoked.\<close>

definition dw_worker :: Worker where
  "dw_worker = \<lparr>wk_registry = \<lparr>rgy_revokers = [(\<lparr>ri_TenantID = ''t1'', ri_WorkspaceID = ''w1'', ri_EnvironmentID = ''e1'',
     ri_IssuerID = pr_Issuer dc_prepare, ri_IssuerRevision = pr_IssuerRevision dc_prepare\<rparr>, 7)]\<rparr>,
     wk_workerID = ''worker-1'', wk_recoveryLimit = 100, wk_claimLimit = 1, wk_claimLease = RevocationClaimLease\<rparr>"

definition dw_env :: worker_env where
  "dw_env = \<lparr>we_ctx_nil = False, we_ctx = (\<lambda>_. None), we_ticks = (\<lambda>_. 1), we_released = (\<lambda>_. True),
     we_remote = (\<lambda>_ _ _. RemoteResult None), we_entropy = (\<lambda>_. None)\<rparr>"

definition dw_ops :: "CredentialRepository worker_ops" where
  "dw_ops = memory_worker_ops dc_sha (\<lambda>_. dc_env (5 * Second)) (\<lambda>_. []) (\<lambda>_ _. [])"

definition dw_start :: "CredentialRepository worker_state" where
  "dw_start = \<lparr>ws_log = [], ws_repository = dc_pending, ws_accessors = [], ws_slot = False, ws_lost = False\<rparr>"

definition dw_end :: "CredentialRepository worker_state" where
  "dw_end = snd (run_state (RunOnce (Some dw_worker) dw_env dw_ops) dw_start)"

fun completes :: "worker_event \<Rightarrow> bool" where
  "completes (Completing f (Inr _)) = (cf_RevocationID f = dc_id)"
| "completes _ = False"

fun_cases completesE: "completes e"

lemma dw_story:
  "(case run_state (RunOnce (Some dw_worker) dw_env dw_ops) dw_start of ((r, err), s) \<Rightarrow>
      err = None \<and> rr_Claimed r = 1 \<and> list_ex completes (ws_log s))"
  by code_simp

lemma dw_run:
  obtains r f a where "run_state (RunOnce (Some dw_worker) dw_env dw_ops) dw_start = ((r, None), dw_end)"
    and "rr_Claimed r = 1" and "Completing f (Inr a) \<in> set (ws_log dw_end)" and "cf_RevocationID f = dc_id"
proof -
  obtain r err s where run: "run_state (RunOnce (Some dw_worker) dw_env dw_ops) dw_start = ((r, err), s)"
    by (metis prod.exhaust)
  with dw_story have "err = None" "rr_Claimed r = 1" "list_ex completes (ws_log s)" by simp_all
  moreover have "s = dw_end" by (simp add: dw_end_def run)
  ultimately show ?thesis using run that by (auto simp: list_ex_iff elim!: completesE)
qed

theorem completed_only_if_revoked_witness:
  "\<exists>h f answer later c. ws_log dw_end = h @ Completing f answer # later \<and> cl_Fence c = f \<and> confirmed dw_worker c h"
proof (rule dw_run)
  fix r f a assume run: "run_state (RunOnce (Some dw_worker) dw_env dw_ops) dw_start = ((r, None), dw_end)"
    and "Completing f (Inr a) \<in> set (ws_log dw_end)"
  then obtain h later where log: "ws_log dw_end = h @ Completing f (Inr a) # later" by (meson split_list)
  have "ws_log dw_start = []" by (simp add: dw_start_def)
  from completed_only_if_revoked [OF run this log] log show ?thesis by auto
qed

theorem run_reports_true_witness:
  "\<exists>r. gget (cdr_records (ws_repository dw_end)) dc_id = Some r \<and> rv_Status (mv_revocation r) = StatusRevoked \<and>
     prf_Ciphertext (mv_protected r) = ''''"
proof (rule dw_run)
  fix r f a assume run: "run_state (RunOnce (Some dw_worker) dw_env dw_ops) dw_start = ((r, None), dw_end)"
    and f: "Completing f (Inr a) \<in> set (ws_log dw_end)" "cf_RevocationID f = dc_id"
  have start: "(cred_step dc_sha)\<^sup>*\<^sup>* empty_credentials (ws_repository dw_start)" "ws_log dw_start = []"
    using dc_pending_reached by (simp_all add: dw_start_def)
  from run_reports_true [OF start run [unfolded dw_ops_def]] f show ?thesis by fastforce
qed

end
