(* ===== verification/Spec2Isabelle.thy ===== *)
theory Spec2Isabelle
  imports Service_Safety Broker_Safety Worker_Safety
begin

text \<open>
  Verification of the execution-safety core of AIOps System, the part of the control plane that
  carries out a signed change on a production-like target under a short-lived credential.

  \<^bold>\<open>The program.\<close> A change is an \<^emph>\<open>action envelope\<close>: a typed plan, sealed with a signature over its
  canonical form. The \<^emph>\<open>policy engine\<close> decides, from kill switches, approvals, the target and a CEL
  program, whether the plan may go on. The \<^emph>\<open>action queue\<close> keeps submitted envelopes, leases each to
  one runner at a time under a fence (runner, epoch, token) and holds its target until the action is
  finalized. The \<^emph>\<open>execution service\<close> drives one leased action: it asks the policy twice, reads the
  safety gate and the environment, has a credential prepared and issued by the \<^emph>\<open>durable broker\<close>,
  starts the executor of the action's type, keeps the lease alive by heartbeats, and hands the
  credential to revocation before it gives the target back. Every credential has a record in the
  \<^emph>\<open>credential repository\<close>, a state machine from the preparation to the confirmed revocation; the
  broker writes it before it uses what an issuer returned, the \<^emph>\<open>revocation worker\<close> drains the
  revocations asked for, and the queue consults it before a target is released. The generic
  \<^emph>\<open>execution leases\<close> are the fencing scheme the queue takes its pools and errors from, with an
  in-memory repository of their own.

  \<^bold>\<open>The theories\<close> and the files under \<^verbatim>\<open>src/internal\<close> they model.

  \<^item> \<open>Aiops_Prelude\<close>: instants, durations and 64-bit integers with their wrap-around, Go maps,
    character classes, tables of records that hold a target, runs that obey a rule, and the locale
    \<open>invariant_system\<close> that lifts a one-step invariant to every reachable state. \<open>Go_Strings\<close>:
    trimming, splitting, paths and base64 as the Go library has them. \<open>State_Triples\<close>: triples for
    programs of the state monad.
  \<^item> \<open>Execution_Lease\<close>: \<^verbatim>\<open>executionlease/lease.go\<close> and \<^verbatim>\<open>memory.go\<close>. The state is the record
    \<open>MemoryRepository\<close>; every method is a function from a state to a state and a result.
  \<^item> \<open>Action_Envelope\<close>: \<^verbatim>\<open>action/envelope.go\<close>. The data of all action types, their validation,
    key sets, \<open>Seal\<close> and \<open>Verify\<close>.
  \<^item> \<open>Action_Queue\<close>: \<^verbatim>\<open>execution/action_queue.go\<close>. The record \<open>MemoryActionQueue\<close> and its methods,
    among them the finalization gate.
  \<^item> \<open>Policy_Engine\<close>: \<^verbatim>\<open>policy/engine.go\<close>. The three evaluations with all their branches.
  \<^item> \<open>Credential_Revocation\<close>, \<open>Credential_Repository\<close>: \<^verbatim>\<open>credential/revocation.go\<close> and
    \<^verbatim>\<open>memory.go\<close>. The records, requests and errors; the state \<open>CredentialRepository\<close> and its methods.
    \<open>Credential_Safety\<close> holds the properties.
  \<^item> \<open>Execution_Service\<close>: \<^verbatim>\<open>execution/service.go\<close>. \<open>Submit\<close> and \<open>RunNext\<close> as programs over the
    history of the calls they make. \<open>Service_Safety\<close> holds the properties.
  \<^item> \<open>Durable_Broker\<close>: \<^verbatim>\<open>credential/durable_broker.go\<close> and \<^verbatim>\<open>issuer_registry.go\<close>; \<open>Broker_Safety\<close>
    holds the properties.
  \<^item> \<open>Revocation_Worker\<close>: \<^verbatim>\<open>credential/revocationworker/worker.go\<close>; \<open>Worker_Safety\<close> holds the
    properties.
  \<^item> This theory puts the queue and the credential repository together.

  \<^bold>\<open>How the code is rendered.\<close> A struct is a record, a string enumeration a datatype with a
  constructor for unknown values where the code accepts any string, an error a value of a datatype on
  the left of a sum. A method that takes a lock is one atomic step; the code outside the lock (clocks,
  contexts, calls to other components) is read from an environment record, whose fields are functions
  of how often or after which calls they are read, so that every interleaving with other parties is
  an instance. Where a call holds the lock several times (\<open>RecoverManaged\<close>, the gate of the queue),
  the state may change in between. The service, the broker and the worker are programs of the state
  monad that log each call with its answer; what they may do is a rule on such logs, and the
  properties hold for every answer. Goroutines that only share a repository with the foreground are
  heartbeats between its calls, their number chosen by the environment. Cryptography (SHA-256,
  Ed25519, AES-GCM), the JSON canonicalizer, the CEL programs, the remote issuers, revokers and
  executors are arguments. Integers keep their 64 bits where they are incremented; instants are
  unbounded, since Go's span hundreds of years. No definition uses fuel: loops over lists are
  structural, and the others (the doubling of delays, scanning of strings) have termination proofs.

  \<^bold>\<open>Interfaces.\<close> The locales \<open>invariant_system\<close> and \<open>lock_table\<close> are interpreted on the
  repositories and the queue; \<open>cleanup_gate\<close> is what the queue relies on of the credential
  repository, \<open>credential_store\<close> what the broker does and \<open>revocation_store\<close> what the worker does.
  The last three are interpreted on the in-memory credential repository, with arbitrary other users
  between any two calls, and the properties of the clients rest on these interpretations.

  \<^bold>\<open>What is shown.\<close>

  \<^item> Exclusion: at most one action, and at most one leased execution, holds a target; a holder whose
    lease was given to another is refused for ever, without any effect; a lease ends with its envelope.
  \<^item> Authority: \<open>Verify\<close> and the policy accept exactly what their specifications say; approvals are
    counted as the reference definition over ballots counts them; the service calls an executor only
    after all gates, in order, on the same plan and the same safety revision.
  \<^item> Credentials: one child per action epoch; its accessor is recorded before its token is used; its
    life is bounded by every limit; a failed issue leaves its revocation recorded; a run that prepared
    a credential does not end without giving it to revocation; the secret is gone once that happened.
  \<^item> Revocation: a record is REVOKED only with a proof, the worker completes it only after the revoker
    of exactly that issuer confirmed it, what a run reports is true, an overtaken worker is refused,
    and retries come to an end.
  \<^item> Together: a target of a WRITE action is released only when its credential is settled for good.
  \<^item> Life cycles: the queue's and the repository's records refine abstract state machines; terminal
    records never change.

  \<^bold>\<open>Not modelled.\<close> The PostgreSQL repositories implement the same interfaces by SQL transactions,
  whose meaning is that of the database. The connectors, the Vault client, the HTTP, mTLS and runner
  transports and the executor child process are effects on other systems. The discovery,
  asset-catalog, investigation and read-task subsystems change nothing outside the control plane
  and do not take part in executing an action; their state is kept in the database too. Redacting
  formatters and process start-up are presentation and assembly.
\<close>

section \<open>The queue and the credential repository together\<close>

text \<open>
  The action queue is built with the credential repository as its finalization gate. The gate is
  asked while a queue call runs, and the repository may move on in between: every answer the call
  got is what \<open>InspectCleanup\<close> says of some repository state between the beginning and the end of
  the call.
\<close>

definition gate_between ::
  "(string \<Rightarrow> string) \<Rightarrow> queue_env \<Rightarrow> CredentialRepository \<Rightarrow> CredentialRepository \<Rightarrow> bool" where
  "gate_between sha e s u \<longleftrightarrow> (\<forall>gate phase i n answer. qe_gate e = Some gate \<longrightarrow>
     gate phase i n = Some answer \<longrightarrow>
     (\<exists>c m. (cred_step sha)\<^sup>*\<^sup>* s m \<and> (cred_step sha)\<^sup>*\<^sup>* m u \<and> InspectCleanup c i n m = Inr answer))"

inductive system_step ::
  "queue_ext \<Rightarrow> (string \<Rightarrow> string) \<Rightarrow> MemoryActionQueue \<times> CredentialRepository \<Rightarrow>
   MemoryActionQueue \<times> CredentialRepository \<Rightarrow> bool" for x sha where
  sys_credential: "cred_step sha s u \<Longrightarrow> system_step x sha (q, s) (q, u)"
| sys_queue: "queue_call x e q q' \<Longrightarrow> (cred_step sha)\<^sup>*\<^sup>* s u \<Longrightarrow> gate_between sha e s u \<Longrightarrow>
    system_step x sha (q, s) (q', u)"

lemma system_parts:
  assumes "(system_step x sha)\<^sup>*\<^sup>* a b"
  shows "(queue_step x)\<^sup>*\<^sup>* (fst a) (fst b) \<and> (cred_step sha)\<^sup>*\<^sup>* (snd a) (snd b)"
  using assms
proof (induction rule: rtranclp_induct)
  case (step y z)
  from step.hyps(2) have "(queue_step x)\<^sup>*\<^sup>* (fst y) (fst z) \<and> (cred_step sha)\<^sup>*\<^sup>* (snd y) (snd z)"
    by (cases rule: system_step.cases) (auto intro: queue_steps_call [OF rtranclp.rtrancl_refl])
  with step.IH show ?case by (meson rtranclp_trans)
qed simp

text \<open>
  C1. A write target is only released once its credential is settled. Run the queue and the
  repository together in any interleaving; whenever a call takes a WRITE action out of the statuses
  that hold its target, either the repository has a record for that action and epoch that is
  REVOKED or NO_CREDENTIAL and stays so in every later state, or the lease had never been started
  and the repository had no record for it at an inspection during the call.
\<close>

theorem target_released_settled:
  assumes run: "(system_step x sha)\<^sup>*\<^sup>* (empty_queue, empty_credentials) (q, s)"
    and call: "queue_call x e q q'" and moves: "(cred_step sha)\<^sup>*\<^sup>* s u" and gate: "gate_between sha e s u"
    and a: "gget (mq_records q) i = Some a" and a': "gget (mq_records q') i = Some a'"
    and held: "actionLeaseActive (ex_Status (ma_execution a))"
    and freed: "\<not> actionLeaseActive (ex_Status (ma_execution a'))"
    and pool: "ex_Pool (ma_execution a) = PoolWrite"
  shows "(\<forall>v. (cred_step sha)\<^sup>*\<^sup>* u v \<longrightarrow> (\<exists>j r. gget (cdr_records v) j = Some r \<and>
        rv_ActionID (mv_revocation r) = i \<and> rv_ActionLeaseEpoch (mv_revocation r) = ex_LeaseEpoch (ma_execution a) \<and>
        rv_Status (mv_revocation r) \<in> {StatusRevoked, StatusNoCredential})) \<or>
    (ex_Status (ma_execution a) = StatusLeased \<and> (\<exists>m. (cred_step sha)\<^sup>*\<^sup>* s m \<and> (cred_step sha)\<^sup>*\<^sup>* m u \<and>
      (\<forall>j r. gget (cdr_records m) j = Some r \<longrightarrow> rv_ActionID (mv_revocation r) = i \<longrightarrow>
         rv_ActionLeaseEpoch (mv_revocation r) \<noteq> ex_LeaseEpoch (ma_execution a))))"
  (is "?settled \<or> ?unused")
proof -
  let ?n = "ex_LeaseEpoch (ma_execution a)"
  have queue: "(queue_step x)\<^sup>*\<^sup>* empty_queue q" and repository: "(cred_step sha)\<^sup>*\<^sup>* empty_credentials s"
    using system_parts [OF run] by simp_all
  from write_release_needs_cleanup [OF queue call a a' held freed pool]
  obtain g phase present terminal where g: "qe_gate e = Some g" "g phase i ?n = Some (present, terminal)"
    and answer: "present \<and> terminal \<or> \<not> present \<and> ex_Status (ma_execution a) = StatusLeased" by blast
  from gate g obtain c m where m: "(cred_step sha)\<^sup>*\<^sup>* s m" "(cred_step sha)\<^sup>*\<^sup>* m u"
    and seen: "InspectCleanup c i ?n m = Inr (present, terminal)" unfolding gate_between_def by blast
  have inv: "cred_inv m" by (rule cred_calls.reachable_inv [OF rtranclp_trans [OF repository m(1)]])
  from answer show ?thesis
  proof
    assume "present \<and> terminal"
    with seen have settled: "InspectCleanup c i ?n m = Inr (True, True)" by simp
    have "\<exists>j r. gget (cdr_records v) j = Some r \<and> rv_ActionID (mv_revocation r) = i \<and>
        rv_ActionLeaseEpoch (mv_revocation r) = ?n \<and> rv_Status (mv_revocation r) \<in> {StatusRevoked, StatusNoCredential}"
      if later: "(cred_step sha)\<^sup>*\<^sup>* u v" for v
    proof -
      note F = repository_gate.settled_forever [OF rtranclp_trans [OF m(2) later] inv settled]
      from InspectCleanup_Inr [OF conjunct1 [OF F] conjunct2 [OF F]] show ?thesis
        by (auto simp: Revocation_Terminal_def)
    qed
    then show ?thesis by blast
  next
    assume "\<not> present \<and> ex_Status (ma_execution a) = StatusLeased"
    then show ?thesis using InspectCleanup_Inr [OF inv seen] m by blast
  qed
qed

lemma dq_gate: "gate_between sha (dq_env t token) empty_credentials empty_credentials"
proof -
  have "InspectCleanup (dc_env 0) ''a1'' 1 empty_credentials = Inr (False, False)" by code_simp
  then show ?thesis unfolding gate_between_def dq_env_def by (auto split: if_splits)
qed

lemma dq_system:
  "queue_call dq_ext (dq_env t token) q q' \<Longrightarrow>
   (system_step dq_ext dc_sha)\<^sup>*\<^sup>* a (q, empty_credentials) \<Longrightarrow>
   (system_step dq_ext dc_sha)\<^sup>*\<^sup>* a (q', empty_credentials)"
  using sys_queue [OF _ rtranclp.rtrancl_refl dq_gate] by (blast intro: rtranclp.rtrancl_into_rtrancl)

theorem target_released_settled_witness:
  "\<exists>a a'. gget (mq_records dq_leased) ''a1'' = Some a \<and> gget (mq_records dq_nacked) ''a1'' = Some a' \<and>
     actionLeaseActive (ex_Status (ma_execution a)) \<and> \<not> actionLeaseActive (ex_Status (ma_execution a')) \<and>
     ((\<exists>j r. gget (cdr_records empty_credentials) j = Some r) \<or> ex_Status (ma_execution a) = StatusLeased)"
proof -
  have run: "(system_step dq_ext dc_sha)\<^sup>*\<^sup>* (empty_queue, empty_credentials) (dq_leased, empty_credentials)"
    unfolding dq_leased_def dq_queued_def dq_first_def
    by (rule dq_system [OF call_Claim dq_system [OF call_Submit dq_system [OF call_Submit rtranclp.rtrancl_refl]]])
  have call: "queue_call dq_ext (dq_env 3000 ''tok-1'') dq_leased dq_nacked"
    unfolding dq_nacked_def by (rule call_Nack)
  obtain a where a: "gget (mq_records dq_leased) ''a1'' = Some a" "record_status a = StatusLeased"
    "ex_Pool (ma_execution a) = PoolWrite"
    using dq_leased_record by auto
  obtain a' where a': "gget (mq_records dq_nacked) ''a1'' = Some a'" "record_status a' = StatusQueued"
    using dq_nacked_record by auto
  have held: "actionLeaseActive (record_status a)" and freed: "\<not> actionLeaseActive (record_status a')"
    using a a' by (simp_all add: actionLeaseActive_def)
  from target_released_settled [OF run call rtranclp.rtrancl_refl dq_gate a(1) a'(1) held freed a(3)]
  have "(\<exists>j r. gget (cdr_records empty_credentials) j = Some r) \<or> record_status a = StatusLeased"
    by blast
  with a a' held freed show ?thesis by blast
qed

end
